theory Spec2Isabelle
  imports Complex_Main
begin

section \<open>Common values: exceptions, Python values, the log\<close>

text \<open>
  The coordination layer of the scraper backend: the state machine
  (\<^verbatim>\<open>scraper/state_machine.py\<close>), the connection manager with its decision wait
  (\<^verbatim>\<open>api/websocket_handler.py\<close>), the court-selection pause of the Bloomberg workflow
  (\<^verbatim>\<open>scraper/bloomberg_scraper.py\<close>), the PDF capture of the CM/ECF document handler
  (\<^verbatim>\<open>scraper/cmecf_page_handlers/document_detail_handler.py\<close>) and the case loop of the
  CM/ECF workflow (\<^verbatim>\<open>scraper/cmecf_scraper.py\<close>).

  Every exception the modelled code can meet is a subclass of Python's \<^verbatim>\<open>Exception\<close>;
  a function that may raise returns \<open>Inl e\<close>, together with the state as the raise left it.
\<close>

datatype exn =
    RuntimeError string
  | ValueError string
  | IndexError
  | AttributeError
  | TypeError
  | TimeoutError
  | WebSocketDisconnect
  | InvalidStateError
  | OtherError string

text \<open>\<^verbatim>\<open>str(e)\<close>, as the f-strings of the log messages render an exception.\<close>

fun str_exn :: "exn \<Rightarrow> string" where
  "str_exn (RuntimeError m) = m"
| "str_exn (ValueError m) = m"
| "str_exn IndexError = ''list index out of range''"
| "str_exn AttributeError = ''object has no attribute''"
| "str_exn TypeError = ''Object is not JSON serializable''"
| "str_exn TimeoutError = ''''"
| "str_exn WebSocketDisconnect = ''''"
| "str_exn InvalidStateError = ''invalid state''"
| "str_exn (OtherError m) = m"

type_synonym 'a result = "exn + 'a"

text \<open>
  The values that travel in events and responses. A \<^verbatim>\<open>datetime\<close> is kept as its ISO text,
  which is what \<^verbatim>\<open>isoformat()\<close> returns for it; \<open>PObject\<close> is any other Python object.
\<close>

datatype pyval =
    PNone
  | PBool bool
  | PInt int
  | PFloat real
  | PStr string
  | PDatetime string
  | PList "pyval list"
  | PDict "(string \<times> pyval) list"
  | PObject string

datatype level = DEBUG | INFO | WARNING | ERROR

type_synonym log = "(level \<times> string) list"

section \<open>The state machine (\<^verbatim>\<open>scraper/state_machine.py\<close>)\<close>

datatype ScraperState =
    IDLE
  | INITIALIZING
  | LOGGING_IN
  | SEARCHING
  | AWAITING_COURT_SELECTION
  | PROCESSING_RESULTS
  | NAVIGATING_TO_DOCUMENT
  | EXTRACTING_ENTRIES
  | AWAITING_TRANSCRIPT_SELECTION
  | DOWNLOADING
  | RETURNING_TO_RESULTS
  | COMPLETED
  | ERROR_STATE
  | CANCELLED

text \<open>
  The enum's values (\<^verbatim>\<open>state.value\<close>). The member \<^verbatim>\<open>ERROR\<close> is \<open>ERROR_STATE\<close> here:
  \<open>ERROR\<close> is the log level.
\<close>

fun state_value :: "ScraperState \<Rightarrow> string" where
  "state_value IDLE = ''idle''"
| "state_value INITIALIZING = ''initializing''"
| "state_value LOGGING_IN = ''logging_in''"
| "state_value SEARCHING = ''searching''"
| "state_value AWAITING_COURT_SELECTION = ''awaiting_court_selection''"
| "state_value PROCESSING_RESULTS = ''processing_results''"
| "state_value NAVIGATING_TO_DOCUMENT = ''navigating_to_document''"
| "state_value EXTRACTING_ENTRIES = ''extracting_entries''"
| "state_value AWAITING_TRANSCRIPT_SELECTION = ''awaiting_transcript_selection''"
| "state_value DOWNLOADING = ''downloading''"
| "state_value RETURNING_TO_RESULTS = ''returning_to_results''"
| "state_value COMPLETED = ''completed''"
| "state_value ERROR_STATE = ''error''"
| "state_value CANCELLED = ''cancelled''"

text \<open>One entry of \<^verbatim>\<open>state_history\<close>: the dict with keys state, previous_state, message, timestamp.\<close>

record history_entry =
  h_state :: ScraperState
  h_previous_state :: "ScraperState option"
  h_message :: string
  h_timestamp :: string

section \<open>The world the coordination layer acts on\<close>

text \<open>
  A websocket of the web framework is known here by what \<^verbatim>\<open>send_json\<close> does with a
  payload: \<open>None\<close> when it is delivered, \<open>Some e\<close> when the call raises \<open>e\<close>.
  An \<^verbatim>\<open>asyncio.Future\<close> is pending, holds a result, or is cancelled.
\<close>

type_synonym WebSocket = "pyval \<Rightarrow> exn option"

datatype future = Pending | Result pyval | Cancelled

text \<open>\<^verbatim>\<open>future.done()\<close>.\<close>

fun is_done :: "future \<Rightarrow> bool" where
  "is_done Pending = False"
| "is_done (Result v) = True"
| "is_done Cancelled = True"

text \<open>
  \<open>active_connections\<close> and \<open>pending_responses\<close> are the two dicts of the
  \<^verbatim>\<open>ConnectionManager\<close> singleton. \<open>pending_responses\<close> holds references to future
  objects: \<open>futures\<close> is the store of the futures the event loop has created, a reference
  is an index into it, and a waiting task keeps its own reference whatever the dict
  holds later. \<open>sent\<close> lists the payloads the websockets accepted, \<open>logged\<close> is the sink
  of the logger, \<open>now\<close> the reading of \<^verbatim>\<open>datetime.now()\<close>. \<open>files\<close> is the content of
  the files on disk (a file's bytes are a \<open>string\<close>: a \<open>char\<close> is a byte), and \<open>browser\<close>
  lists, in order, the calls on the browser that have taken effect. \<open>waited\<close> is the
  time, in seconds of the event loop's clock, that the workflow task has spent suspended
  in \<^verbatim>\<open>asyncio.wait_for\<close>.
\<close>

datatype browser_action =
    WaitForSelector
  | ListenPage
  | RouteContext
  | BlockWindowClose
  | ClickViewDocument
  | RemovePageListener
  | UnrouteContext
  | RoutePopup
  | WaitPopupLoad
  | UnroutePopup
  | SaveDownload

record world =
  active_connections :: "string \<rightharpoonup> WebSocket"
  pending_responses :: "string \<rightharpoonup> nat"
  futures :: "future list"
  sent :: "(string \<times> pyval) list"
  logged :: log
  now :: string
  files :: "string \<rightharpoonup> string"
  browser :: "browser_action list"
  waited :: real

definition logger :: "level \<Rightarrow> string \<Rightarrow> world \<Rightarrow> world" where
  "logger l m w = w\<lparr>logged := logged w @ [(l, m)]\<rparr>"

text \<open>
  The observer of the state machine: an async callable of (state, previous_state,
  message), which may act on the world and may raise.
\<close>

type_synonym callback =
  "ScraperState \<Rightarrow> ScraperState option \<Rightarrow> string \<Rightarrow> world \<Rightarrow> unit result \<times> world"

record StateMachine =
  current_state :: ScraperState
  previous_state :: "ScraperState option"
  state_history :: "history_entry list"
  sm_context :: "string \<rightharpoonup> pyval"
  on_state_change :: "callback option"

text \<open>\<^verbatim>\<open>StateMachine.__init__\<close>.\<close>

definition StateMachine_init :: StateMachine where
  "StateMachine_init =
     \<lparr>current_state = IDLE, previous_state = None, state_history = [],
      sm_context = Map.empty, on_state_change = None\<rparr>"

definition set_state_change_callback :: "callback \<Rightarrow> StateMachine \<Rightarrow> StateMachine" where
  "set_state_change_callback cb sm = sm\<lparr>on_state_change := Some cb\<rparr>"

text \<open>
  How the f-string of the transition's log line renders an optional state, and the line
  itself (its arrow written \<open>->\<close>).
\<close>

fun fmt_state :: "ScraperState option \<Rightarrow> string" where
  "fmt_state None = ''None''"
| "fmt_state (Some s) = state_value s"

definition transition_line :: "ScraperState option \<Rightarrow> ScraperState \<Rightarrow> string \<Rightarrow> string" where
  "transition_line prev new_state message =
     ''State transition: '' @ fmt_state prev @ '' -> '' @ state_value new_state @ '' | '' @ message"

text \<open>
  \<^verbatim>\<open>transition_to\<close>: the two assignments, the append to the history, the log line, and
  then the awaited callback, outside any \<^verbatim>\<open>try\<close>: what the callback raises is what
  \<^verbatim>\<open>transition_to\<close> raises.
\<close>

definition transition_to ::
  "ScraperState \<Rightarrow> string \<Rightarrow> StateMachine \<times> world \<Rightarrow> unit result \<times> StateMachine \<times> world" where
  "transition_to new_state message smw =
     (case smw of (sm, w) \<Rightarrow>
        let sm1 = sm\<lparr>previous_state := Some (current_state sm)\<rparr>;
            sm2 = sm1\<lparr>current_state := new_state\<rparr>;
            sm3 = sm2\<lparr>state_history := state_history sm2 @
                    [\<lparr>h_state = new_state, h_previous_state = previous_state sm2,
                      h_message = message, h_timestamp = now w\<rparr>]\<rparr>;
            w1 = logger INFO (transition_line (previous_state sm3) new_state message) w
        in (case on_state_change sm3 of
              None \<Rightarrow> (Inr (), sm3, w1)
            | Some cb \<Rightarrow> (case cb new_state (previous_state sm3) message w1 of
                           (r, w2) \<Rightarrow> (r, sm3, w2))))"

definition update_context :: "(string \<times> pyval) list \<Rightarrow> StateMachine \<times> world \<Rightarrow> StateMachine \<times> world" where
  "update_context kwargs smw =
     (case smw of (sm, w) \<Rightarrow>
        (sm\<lparr>sm_context := sm_context sm ++ map_of (rev kwargs)\<rparr>, logger DEBUG ''Context updated'' w))"

definition clear_context :: "StateMachine \<times> world \<Rightarrow> StateMachine \<times> world" where
  "clear_context smw =
     (case smw of (sm, w) \<Rightarrow> (sm\<lparr>sm_context := Map.empty\<rparr>, logger DEBUG ''Context cleared'' w))"

text \<open>\<^verbatim>\<open>reset\<close> leaves the registered callback in place.\<close>

definition reset :: "StateMachine \<times> world \<Rightarrow> StateMachine \<times> world" where
  "reset smw =
     (case smw of (sm, w) \<Rightarrow>
        (sm\<lparr>current_state := IDLE, previous_state := None, state_history := [],
            sm_context := Map.empty\<rparr>, logger INFO ''State machine reset'' w))"

text \<open>
  What a workflow does with its state machine between construction (or a reset) and the
  next reset. A call of \<^verbatim>\<open>transition_to\<close> that raises has changed the machine all the
  same, and the caller may go on to call it again.
\<close>

datatype sm_op =
    TransitionTo ScraperState string
  | SetCallback callback
  | UpdateContext "(string \<times> pyval) list"
  | ClearContext
  | ClockReads string

fun run_op :: "sm_op \<Rightarrow> StateMachine \<times> world \<Rightarrow> StateMachine \<times> world" where
  "run_op (TransitionTo s m) smw = snd (transition_to s m smw)"
| "run_op (SetCallback cb) smw = (set_state_change_callback cb (fst smw), snd smw)"
| "run_op (UpdateContext kw) smw = update_context kw smw"
| "run_op ClearContext smw = clear_context smw"
| "run_op (ClockReads t) smw = (fst smw, (snd smw)\<lparr>now := t\<rparr>)"

fun run_ops :: "sm_op list \<Rightarrow> StateMachine \<times> world \<Rightarrow> StateMachine \<times> world" where
  "run_ops [] smw = smw"
| "run_ops (x # xs) smw = run_ops xs (run_op x smw)"

section \<open>The connection manager (\<^verbatim>\<open>api/websocket_handler.py\<close>)\<close>

text \<open>
  The world when the manager is constructed (\<^verbatim>\<open>ConnectionManager.__init__\<close>): both dicts
  empty, and nothing created, sent, logged, written or done in the browser yet.
\<close>

definition ConnectionManager_init :: "string \<Rightarrow> world" where
  "ConnectionManager_init t =
     \<lparr>active_connections = Map.empty, pending_responses = Map.empty, futures = [],
      sent = [], logged = [], now = t, files = Map.empty, browser = [], waited = 0\<rparr>"

text \<open>\<^verbatim>\<open>connect\<close>, once \<^verbatim>\<open>websocket.accept()\<close> has returned, and \<^verbatim>\<open>disconnect\<close>.\<close>

definition connect :: "WebSocket \<Rightarrow> string \<Rightarrow> world \<Rightarrow> world" where
  "connect websocket client_id w =
     logger INFO (''Client '' @ client_id @ '' connected'')
       (w\<lparr>active_connections := (active_connections w)(client_id \<mapsto> websocket)\<rparr>)"

definition disconnect :: "string \<Rightarrow> world \<Rightarrow> world" where
  "disconnect client_id w =
     (case active_connections w client_id of
        None \<Rightarrow> w
      | Some websocket \<Rightarrow>
          logger INFO (''Client '' @ client_id @ '' disconnected'')
            (w\<lparr>active_connections := (active_connections w)(client_id := None)\<rparr>))"

text \<open>
  What \<^verbatim>\<open>send_event\<close> is given: a plain dict, a model object with \<^verbatim>\<open>dict()\<close> or
  \<^verbatim>\<open>model_dump()\<close>, or an object with neither, on which the attribute access raises.
\<close>

datatype event =
    DictEvent "(string \<times> pyval) list"
  | ModelEvent "(string \<times> pyval) list"
  | OpaqueEvent

fun event_to_dict :: "event \<Rightarrow> (string \<times> pyval) list result" where
  "event_to_dict (DictEvent d) = Inr d"
| "event_to_dict (ModelEvent d) = Inr d"
| "event_to_dict OpaqueEvent = Inl AttributeError"

fun serialize_datetime :: "pyval \<Rightarrow> pyval" where
  "serialize_datetime (PDatetime t) = PStr t"
| "serialize_datetime (PDict kvs) = PDict (map (\<lambda>kv. (fst kv, serialize_datetime (snd kv))) kvs)"
| "serialize_datetime (PList xs) = PList (map serialize_datetime xs)"
| "serialize_datetime v = v"

text \<open>\<^verbatim>\<open>obj.get(key)\<close>: \<^verbatim>\<open>dict.get\<close> on a dict, an AttributeError on anything else.\<close>

fun py_get :: "pyval \<Rightarrow> string \<Rightarrow> pyval result" where
  "py_get (PDict kvs) k = Inr (case map_of kvs k of None \<Rightarrow> PNone | Some v \<Rightarrow> v)"
| "py_get v k = Inl AttributeError"

text \<open>\<^verbatim>\<open>obj.get(key, default)\<close>.\<close>

fun py_get_default :: "pyval \<Rightarrow> string \<Rightarrow> pyval \<Rightarrow> pyval result" where
  "py_get_default (PDict kvs) k d = Inr (case map_of kvs k of None \<Rightarrow> d | Some v \<Rightarrow> v)"
| "py_get_default v k d = Inl AttributeError"

text \<open>Truth value of a Python value, as \<^verbatim>\<open>if not x\<close> tests it.\<close>

fun truthy :: "pyval \<Rightarrow> bool" where
  "truthy PNone = False"
| "truthy (PBool b) = b"
| "truthy (PInt i) = (i \<noteq> 0)"
| "truthy (PFloat x) = (x \<noteq> 0)"
| "truthy (PStr s) = (s \<noteq> [])"
| "truthy (PDatetime t) = True"
| "truthy (PList xs) = (xs \<noteq> [])"
| "truthy (PDict kvs) = (kvs \<noteq> [])"
| "truthy (PObject n) = True"

text \<open>How an f-string renders the value of \<^verbatim>\<open>event_dict.get('type')\<close> and the like.\<close>

fun py_str :: "pyval \<Rightarrow> string" where
  "py_str PNone = ''None''"
| "py_str (PStr s) = s"
| "py_str (PBool b) = (if b then ''True'' else ''False'')"
| "py_str v = ''<object>''"

text \<open>The body of the \<^verbatim>\<open>try\<close> of \<^verbatim>\<open>send_event\<close>.\<close>

definition send_event_try :: "string \<Rightarrow> WebSocket \<Rightarrow> event \<Rightarrow> world \<Rightarrow> unit result \<times> world" where
  "send_event_try client_id websocket event w =
     (case event_to_dict event of
        Inl e \<Rightarrow> (Inl e, w)
      | Inr event_dict \<Rightarrow>
          (let payload = serialize_datetime (PDict event_dict) in
           case websocket payload of
             Some e \<Rightarrow> (Inl e, w)
           | None \<Rightarrow>
               (case py_get payload ''type'' of
                  Inl e \<Rightarrow> (Inl e, w\<lparr>sent := sent w @ [(client_id, payload)]\<rparr>)
                | Inr ty \<Rightarrow>
                    (Inr (), logger DEBUG (''Sent event '' @ py_str ty @ '' to '' @ client_id)
                               (w\<lparr>sent := sent w @ [(client_id, payload)]\<rparr>)))))"

text \<open>\<^verbatim>\<open>send_event\<close>: the membership test, then the \<^verbatim>\<open>try\<close> with its \<^verbatim>\<open>except Exception\<close>.\<close>

definition send_event :: "string \<Rightarrow> event \<Rightarrow> world \<Rightarrow> unit result \<times> world" where
  "send_event client_id event w =
     (case active_connections w client_id of
        None \<Rightarrow> (Inr (), w)
      | Some websocket \<Rightarrow>
          (case send_event_try client_id websocket event w of
             (Inr u, w1) \<Rightarrow> (Inr (), w1)
           | (Inl e, w1) \<Rightarrow>
               (Inr (), logger ERROR (''Error sending event to '' @ client_id @ '': '' @ str_exn e) w1)))"

fun opt_str :: "string option \<Rightarrow> pyval" where
  "opt_str None = PNone"
| "opt_str (Some s) = PStr s"

definition send_state_change ::
  "string \<Rightarrow> string \<Rightarrow> string \<Rightarrow> string option \<Rightarrow> world \<Rightarrow> unit result \<times> world" where
  "send_state_change client_id st message prev w =
     send_event client_id
       (ModelEvent [(''type'', PStr ''STATE_CHANGE''), (''state'', PStr st),
                    (''previous_state'', opt_str prev), (''message'', PStr message),
                    (''timestamp'', PDatetime (now w))]) w"

definition send_court_selection ::
  "string \<Rightarrow> string \<Rightarrow> string list \<Rightarrow> string list \<Rightarrow> string list \<Rightarrow> world \<Rightarrow> unit result \<times> world" where
  "send_court_selection client_id user_input options exact fuzzy w =
     send_event client_id
       (ModelEvent [(''type'', PStr ''COURT_SELECTION''), (''user_input'', PStr user_input),
                    (''options'', PList (map PStr options)),
                    (''exact_matches'', PList (map PStr exact)),
                    (''fuzzy_matches'', PList (map PStr fuzzy)),
                    (''message'', PStr ''Please select the correct court from the options''),
                    (''timestamp'', PDatetime (now w))]) w"

text \<open>The base \<^verbatim>\<open>WebSocketEvent\<close> of \<^verbatim>\<open>send_info\<close>, \<^verbatim>\<open>send_warning\<close> and \<^verbatim>\<open>send_complete\<close>.\<close>

definition WebSocketEvent :: "string \<Rightarrow> string \<Rightarrow> pyval \<Rightarrow> world \<Rightarrow> event" where
  "WebSocketEvent ty message data w =
     ModelEvent [(''type'', PStr ty), (''timestamp'', PDatetime (now w)),
                 (''data'', data), (''message'', PStr message)]"

definition send_info :: "string \<Rightarrow> string \<Rightarrow> world \<Rightarrow> unit result \<times> world" where
  "send_info client_id message w = send_event client_id (WebSocketEvent ''INFO'' message PNone w) w"

definition send_warning :: "string \<Rightarrow> string \<Rightarrow> world \<Rightarrow> unit result \<times> world" where
  "send_warning client_id message w = send_event client_id (WebSocketEvent ''WARNING'' message PNone w) w"

definition send_complete :: "string \<Rightarrow> string \<Rightarrow> pyval \<Rightarrow> world \<Rightarrow> unit result \<times> world" where
  "send_complete client_id message data w =
     send_event client_id (WebSocketEvent ''COMPLETE'' message data w) w"

definition send_error :: "string \<Rightarrow> string \<Rightarrow> world \<Rightarrow> unit result \<times> world" where
  "send_error client_id message w =
     send_event client_id
       (ModelEvent [(''type'', PStr ''ERROR''), (''message'', PStr message),
                    (''error_code'', PNone), (''details'', PNone),
                    (''timestamp'', PDatetime (now w))]) w"

text \<open>\<^verbatim>\<open>send_progress\<close>, which the scrapers call with two counts. The percentage is a
  float in the code; here it is the exact quotient, without the rounding of the float
  division.\<close>

definition send_progress :: "string \<Rightarrow> string \<Rightarrow> nat \<Rightarrow> nat \<Rightarrow> world \<Rightarrow> unit result \<times> world" where
  "send_progress client_id message n_current n_total w =
     (let percentage = (if n_total > 0 then PFloat (real n_current / real n_total * 100) else PNone)
      in send_event client_id
           (ModelEvent [(''type'', PStr ''PROGRESS''), (''message'', PStr message),
                        (''current'', PInt (int n_current)), (''total'', PInt (int n_total)),
                        (''percentage'', percentage), (''timestamp'', PDatetime (now w))]) w)"

text \<open>\<^verbatim>\<open>future.set_result(v)\<close>, which raises on a future that is done.\<close>

definition set_result :: "nat \<Rightarrow> pyval \<Rightarrow> world \<Rightarrow> unit result \<times> world" where
  "set_result future v w =
     (if is_done (futures w ! future) then (Inl InvalidStateError, w)
      else (Inr (), w\<lparr>futures := (futures w)[future := Result v]\<rparr>))"

text \<open>\<^verbatim>\<open>set_user_response\<close>: resolves the future the dict holds for the client, if it holds
  one and that future is not done.\<close>

definition set_user_response :: "string \<Rightarrow> pyval \<Rightarrow> world \<Rightarrow> unit result \<times> world" where
  "set_user_response client_id response w =
     (case pending_responses w client_id of
        None \<Rightarrow> (Inr (), w)
      | Some future \<Rightarrow>
          if \<not> is_done (futures w ! future)
          then (case set_result future response w of
                  (Inl e, w1) \<Rightarrow> (Inl e, w1)
                | (Inr u, w1) \<Rightarrow>
                    (Inr (), logger DEBUG (''User response received from '' @ client_id) w1))
          else (Inr (), w))"

text \<open>
  What \<^verbatim>\<open>receive_json\<close> gives one pass of the loop of \<^verbatim>\<open>websocket_endpoint\<close>: a
  decoded message, or an exception (\<open>WebSocketDisconnect\<close> when the peer has gone).
\<close>

datatype received = Message pyval | Raised exn

text \<open>The two \<^verbatim>\<open>except\<close> clauses of \<^verbatim>\<open>websocket_endpoint\<close>.\<close>

definition endpoint_except :: "string \<Rightarrow> exn \<Rightarrow> world \<Rightarrow> world" where
  "endpoint_except client_id e w =
     (if e = WebSocketDisconnect
      then logger INFO (''Client '' @ client_id @ '' disconnected'') (disconnect client_id w)
      else disconnect client_id
             (logger ERROR (''WebSocket error for '' @ client_id @ '': '' @ str_exn e) w))"

text \<open>One pass of the loop body; the flag is False when the pass has ended the loop.\<close>

definition endpoint_step :: "WebSocket \<Rightarrow> string \<Rightarrow> received \<Rightarrow> world \<Rightarrow> bool \<times> world" where
  "endpoint_step websocket client_id r w =
     (case r of
        Raised e \<Rightarrow> (False, endpoint_except client_id e w)
      | Message data \<Rightarrow>
          (let w1 = logger DEBUG (''Received from '' @ client_id) w in
           case py_get data ''type'' of
             Inl e \<Rightarrow> (False, endpoint_except client_id e w1)
           | Inr message_type \<Rightarrow>
               if message_type = PStr ''user_response''
               then (case py_get data ''data'' of
                       Inl e \<Rightarrow> (False, endpoint_except client_id e w1)
                     | Inr d \<Rightarrow>
                         (case set_user_response client_id d w1 of
                            (Inl e, w2) \<Rightarrow> (False, endpoint_except client_id e w2)
                          | (Inr u, w2) \<Rightarrow> (True, w2)))
               else if message_type = PStr ''ping''
               then (case websocket (PDict [(''type'', PStr ''pong'')]) of
                       Some e \<Rightarrow> (False, endpoint_except client_id e w1)
                     | None \<Rightarrow>
                         (True, w1\<lparr>sent := sent w1 @ [(client_id, PDict [(''type'', PStr ''pong'')])]\<rparr>))
               else (True, logger WARNING (''Unknown message type from '' @ client_id @ '': '' @
                             py_str message_type) w1)))"

fun endpoint_loop :: "WebSocket \<Rightarrow> string \<Rightarrow> received list \<Rightarrow> world \<Rightarrow> world" where
  "endpoint_loop websocket client_id [] w = w"
| "endpoint_loop websocket client_id (r # rs) w =
     (case endpoint_step websocket client_id r w of
        (True, w1) \<Rightarrow> endpoint_loop websocket client_id rs w1
      | (False, w1) \<Rightarrow> w1)"

definition websocket_endpoint :: "WebSocket \<Rightarrow> string \<Rightarrow> received list \<Rightarrow> world \<Rightarrow> world" where
  "websocket_endpoint websocket client_id rs w =
     endpoint_loop websocket client_id rs (connect websocket client_id w)"

text \<open>
  While a task is suspended in \<^verbatim>\<open>wait_for_user_response\<close> the event loop runs the
  endpoints of the connections. An arrival is one pass of one endpoint's loop: the time
  (seconds since the wait began), the endpoint's websocket and client id, and what
  \<^verbatim>\<open>receive_json\<close> gave. The arrivals are listed in the order they happen. The waiting
  task resumes once its future is done or the timeout has elapsed; an arrival at the very
  moment of the timeout is handled before the task resumes. \<open>start\<close> is the time the task
  had spent waiting when this wait began.
\<close>

datatype arrival = Arrival real WebSocket string received

fun deliver :: "nat \<Rightarrow> real \<Rightarrow> real \<Rightarrow> arrival list \<Rightarrow> world \<Rightarrow> world" where
  "deliver future timeout start [] w = w"
| "deliver future timeout start (Arrival t websocket c r # rest) w =
     (if is_done (futures w ! future) \<or> timeout < t then w
      else deliver future timeout start rest
             (snd (endpoint_step websocket c r (w\<lparr>waited := start + t\<rparr>))))"

text \<open>
  \<^verbatim>\<open>asyncio.wait_for(future, timeout)\<close>: the result of the future if it has one when the
  task resumes; otherwise the future is cancelled and \<open>TimeoutError\<close> is raised, the task
  having waited the whole timeout. With a timeout that is not positive the task does not
  wait at all.
\<close>

definition wait_for :: "nat \<Rightarrow> real \<Rightarrow> arrival list \<Rightarrow> world \<Rightarrow> pyval result \<times> world" where
  "wait_for future timeout arrivals w =
     (let w1 = (if timeout \<le> 0 then w else deliver future timeout (waited w) arrivals w) in
      case futures w1 ! future of
        Result v \<Rightarrow> (Inr v, w1)
      | Pending \<Rightarrow>
          (Inl TimeoutError,
           w1\<lparr>futures := (futures w1)[future := Cancelled], waited := waited w + max 0 timeout\<rparr>)
      | Cancelled \<Rightarrow> (Inl (OtherError ''CancelledError''), w1))"

text \<open>The first two statements of \<^verbatim>\<open>wait_for_user_response\<close>: a fresh future, stored under the client id.\<close>

definition register_future :: "string \<Rightarrow> world \<Rightarrow> nat \<times> world" where
  "register_future client_id w =
     (let future = length (futures w);
          w1 = w\<lparr>futures := futures w @ [Pending]\<rparr>
      in (future, w1\<lparr>pending_responses := (pending_responses w1)(client_id \<mapsto> future)\<rparr>))"

text \<open>The \<^verbatim>\<open>finally\<close> clause of \<^verbatim>\<open>wait_for_user_response\<close>.\<close>

definition wait_finally :: "string \<Rightarrow> world \<Rightarrow> world" where
  "wait_finally client_id w =
     (case pending_responses w client_id of
        None \<Rightarrow> w
      | Some f \<Rightarrow> w\<lparr>pending_responses := (pending_responses w)(client_id := None)\<rparr>)"

text \<open>\<^verbatim>\<open>wait_for_user_response\<close>; Python's \<^verbatim>\<open>None\<close> on a timeout is \<open>PNone\<close>.\<close>

definition wait_for_user_response ::
  "string \<Rightarrow> real \<Rightarrow> arrival list \<Rightarrow> world \<Rightarrow> pyval result \<times> world" where
  "wait_for_user_response client_id timeout arrivals w =
     (case register_future client_id w of
        (future, w1) \<Rightarrow>
          (case wait_for future timeout arrivals w1 of
             (Inr response, w2) \<Rightarrow> (Inr response, wait_finally client_id w2)
           | (Inl e, w2) \<Rightarrow>
               if e = TimeoutError
               then (Inr PNone,
                     wait_finally client_id
                       (logger WARNING (''Timeout waiting for user response from '' @ client_id) w2))
               else (Inl e, wait_finally client_id w2)))"

section \<open>The court-selection pause (\<^verbatim>\<open>scraper/bloomberg_scraper.py\<close>)\<close>

record court_options =
  all_options :: "string list"
  exact_matches :: "string list"
  fuzzy_matches :: "string list"

text \<open>\<^verbatim>\<open>court_options['all_options'][0]\<close>.\<close>

definition first_option :: "string list \<Rightarrow> pyval result" where
  "first_option xs = (case xs of [] \<Rightarrow> Inl IndexError | x # rest \<Rightarrow> Inr (PStr x))"

text \<open>\<^verbatim>\<open>_on_state_change\<close>, the observer both scrapers register in \<^verbatim>\<open>__init__\<close>.\<close>

definition scraper_on_state_change :: "string \<Rightarrow> callback" where
  "scraper_on_state_change client_id st prev message w =
     send_state_change client_id (state_value st) message (map_option state_value prev) w"

text \<open>\<^verbatim>\<open>BloombergScraper._handle_court_selection\<close>, with the arrivals of the time it waits.\<close>

definition handle_court_selection ::
  "string \<Rightarrow> string \<Rightarrow> court_options \<Rightarrow> arrival list \<Rightarrow> StateMachine \<times> world \<Rightarrow>
     pyval result \<times> StateMachine \<times> world" where
  "handle_court_selection client_id user_input co arrivals smw =
     (case transition_to AWAITING_COURT_SELECTION ''Waiting for user to select court'' smw of
        (Inl e, sm1, w1) \<Rightarrow> (Inl e, sm1, w1)
      | (Inr u, sm1, w1) \<Rightarrow>
     (case send_court_selection client_id user_input (all_options co) (exact_matches co)
             (fuzzy_matches co) w1 of
        (Inl e, w2) \<Rightarrow> (Inl e, sm1, w2)
      | (Inr u, w2) \<Rightarrow>
     (case wait_for_user_response client_id 300 arrivals w2 of
        (Inl e, w3) \<Rightarrow> (Inl e, sm1, w3)
      | (Inr response, w3) \<Rightarrow>
          if \<not> truthy response
          then (first_option (all_options co), sm1,
                logger WARNING ''Court selection timeout, using first option'' w3)
          else
     (case py_get_default response ''data'' (PDict []) of
        Inl e \<Rightarrow> (Inl e, sm1, w3)
      | Inr data \<Rightarrow>
     (case py_get data ''selected_court'' of
        Inl e \<Rightarrow> (Inl e, sm1, w3)
      | Inr sel \<Rightarrow>
     (case (if \<not> truthy sel then first_option (all_options co) else Inr sel) of
        Inl e \<Rightarrow> (Inl e, sm1, w3)
      | Inr selected_court \<Rightarrow>
          if selected_court = PStr ''__SKIP__''
          then (case send_info client_id ''Skipped court selection - using manual browser selection''
                       (logger INFO ''User skipped court selection (manual selection in browser)'' w3) of
                  (Inl e, w4) \<Rightarrow> (Inl e, sm1, w4)
                | (Inr u, w4) \<Rightarrow> (Inr selected_court, sm1, w4))
          else (Inr selected_court, sm1,
                logger INFO (''User selected court: '' @ py_str selected_court) w3)))))))"

section \<open>The document handler (\<^verbatim>\<open>scraper/cmecf_page_handlers/document_detail_handler.py\<close>)\<close>

text \<open>\<^verbatim>\<open>s.startswith(p)\<close>, \<^verbatim>\<open>s.endswith(p)\<close> and \<^verbatim>\<open>p in s\<close> on strings and bytes.\<close>

definition startswith :: "string \<Rightarrow> string \<Rightarrow> bool" where
  "startswith s p \<longleftrightarrow> take (length p) s = p"

definition endswith :: "string \<Rightarrow> string \<Rightarrow> bool" where
  "endswith s p \<longleftrightarrow> startswith (rev s) (rev p)"

fun contains :: "string \<Rightarrow> string \<Rightarrow> bool" where
  "contains [] p \<longleftrightarrow> p = []"
| "contains (c # cs) p \<longleftrightarrow> startswith (c # cs) p \<or> contains cs p"

definition act :: "browser_action \<Rightarrow> world \<Rightarrow> world" where
  "act a w = w\<lparr>browser := browser w @ [a]\<rparr>"

text \<open>\<^verbatim>\<open>with open(filepath, 'wb') as f: f.write(content)\<close>; the write is taken to succeed.\<close>

definition write_file :: "string \<Rightarrow> string \<Rightarrow> world \<Rightarrow> world" where
  "write_file filepath content w = w\<lparr>files := (files w)(filepath \<mapsto> content)\<rparr>"

definition pdf_filename :: "string \<Rightarrow> string \<Rightarrow> string" where
  "pdf_filename case_number doc_number = case_number @ ''_'' @ doc_number @ ''.pdf''"

definition pdf_filepath :: "string \<Rightarrow> string \<Rightarrow> string \<Rightarrow> string" where
  "pdf_filepath downloads_dir case_number doc_number =
     downloads_dir @ ''/'' @ pdf_filename case_number doc_number"

text \<open>
  What the authenticated GET of \<^verbatim>\<open>download_pdf_from_url\<close> meets: a response with its status
  and body, or an exception (reading the cookies, the request, or reading the body).
\<close>

datatype http_outcome = HttpResponse nat string | HttpFailed exn

definition download_pdf_from_url ::
  "string \<Rightarrow> string \<Rightarrow> string \<Rightarrow> string \<Rightarrow> http_outcome \<Rightarrow> world \<Rightarrow> string option \<times> world" where
  "download_pdf_from_url downloads_dir pdf_url case_number doc_number http w =
     (let filename = pdf_filename case_number doc_number;
          filepath = pdf_filepath downloads_dir case_number doc_number;
          w1 = logger INFO (''Saving as: '' @ filename)
                 (logger INFO (''Downloading PDF from: '' @ pdf_url) w)
      in case http of
           HttpFailed e \<Rightarrow> (None, logger ERROR (''Error downloading PDF from URL: '' @ str_exn e) w1)
         | HttpResponse status content \<Rightarrow>
             if status = 200 then
               if length content < 100
               then (None, logger ERROR ''Downloaded content too small'' w1)
               else if \<not> startswith content ''%PDF''
               then (let w2 = logger WARNING ''Downloaded content does not start with PDF magic bytes'' w1
                     in if startswith content ''<''
                        then (None, logger ERROR ''Received HTML instead of PDF'' w2)
                        else (Some filepath,
                              logger INFO (''PDF downloaded successfully: '' @ filepath)
                                (write_file filepath content w2)))
               else (Some filepath,
                     logger INFO (''PDF downloaded successfully: '' @ filepath)
                       (write_file filepath content w1))
             else (None, logger ERROR ''Failed to download PDF: HTTP status'' w1))"

text \<open>
  What \<^verbatim>\<open>route.fetch()\<close> and \<^verbatim>\<open>response.body()\<close> give the interception handler: the body
  (with what the later \<^verbatim>\<open>route.fulfill\<close> does), or an exception.
\<close>

datatype fetch_outcome = Fetched string "exn option" | FetchFailed exn

definition is_pdf_request :: "string \<Rightarrow> bool" where
  "is_pdf_request url \<longleftrightarrow> contains url ''show_temp.pl'' \<or> endswith url ''.pdf''"

text \<open>
  \<^verbatim>\<open>intercept_pdf_response\<close>, the route handler; the first component of the state is the
  closure variable \<^verbatim>\<open>captured_pdf_content\<close>.
\<close>

definition intercept_pdf_response ::
  "string \<Rightarrow> fetch_outcome \<Rightarrow> string option \<times> world \<Rightarrow> string option \<times> world" where
  "intercept_pdf_response url fo cw =
     (case cw of (captured, w) \<Rightarrow>
        if is_pdf_request url then
          (let w1 = logger INFO (''Intercepting PDF request: '' @ url) w in
           case fo of
             FetchFailed e \<Rightarrow> (captured, logger ERROR (''Error intercepting PDF: '' @ str_exn e) w1)
           | Fetched body fulfilled \<Rightarrow>
               (let cw2 = (if startswith body ''%PDF''
                           then (Some body, logger INFO ''Captured PDF content'' w1)
                           else (captured, w1))
                in case fulfilled of
                     None \<Rightarrow> cw2
                   | Some e \<Rightarrow> (fst cw2, logger ERROR (''Error intercepting PDF: '' @ str_exn e) (snd cw2))))
        else (captured, w))"

text \<open>
  What reaches the two observers while they are armed: a new page of the context (the
  listener \<^verbatim>\<open>on_page\<close>), or a request (the route handler).
\<close>

datatype race_event = NewPage | Request string fetch_outcome

fun run_race :: "race_event list \<Rightarrow> (string option \<times> bool) \<times> world \<Rightarrow> (string option \<times> bool) \<times> world" where
  "run_race [] s = s"
| "run_race (NewPage # es) s =
     run_race es ((fst (fst s), True), logger INFO ''New page/popup detected!'' (snd s))"
| "run_race (Request url fo # es) s =
     (case intercept_pdf_response url fo (fst (fst s), snd s) of
        (captured, w) \<Rightarrow> run_race es ((captured, snd (fst s)), w))"

text \<open>\<^verbatim>\<open>if captured_pdf_content:\<close> holds for bytes that are there and not empty.\<close>

fun has_content :: "string option \<Rightarrow> bool" where
  "has_content None = False"
| "has_content (Some b) = (b \<noteq> [])"

fun content_of :: "string option \<Rightarrow> string" where
  "content_of None = []"
| "content_of (Some b) = b"

text \<open>
  What \<^verbatim>\<open>_download_from_pdf_viewer\<close> meets: whether reading the page's PDF element raises,
  the bytes of the download that Ctrl+S triggers (if one starts in time), and for each of
  the six download-button selectors the bytes of the download its button triggers (if the
  button is there and a download starts).
\<close>

record viewer_env =
  element_info :: "exn option"
  keyboard_download :: "string option"
  button_downloads :: "string option list"

text \<open>The browser saves the download (\<^verbatim>\<open>download.save_as(filepath)\<close>).\<close>

definition save_as :: "string \<Rightarrow> string \<Rightarrow> world \<Rightarrow> world" where
  "save_as filepath content w = act SaveDownload (write_file filepath content w)"

fun first_download :: "string option list \<Rightarrow> string option" where
  "first_download [] = None"
| "first_download (None # ds) = first_download ds"
| "first_download (Some content # ds) = Some content"

definition download_from_pdf_viewer :: "viewer_env \<Rightarrow> string \<Rightarrow> world \<Rightarrow> string option \<times> world" where
  "download_from_pdf_viewer venv filepath w =
     (let w1 = logger INFO ''Attempting to download from PDF viewer...'' w in
      case element_info venv of
        Some e \<Rightarrow> (None, logger ERROR (''Error downloading from PDF viewer: '' @ str_exn e) w1)
      | None \<Rightarrow>
          (case keyboard_download venv of
             Some content \<Rightarrow> (Some filepath, logger INFO (''PDF saved: '' @ filepath) (save_as filepath content w1))
           | None \<Rightarrow>
               (case first_download (take 6 (button_downloads venv)) of
                  Some content \<Rightarrow>
                    (Some filepath,
                     logger INFO (''PDF saved via download button: '' @ filepath) (save_as filepath content w1))
                | None \<Rightarrow> (None, logger WARNING ''Could not download from PDF viewer'' w1))))"

text \<open>
  What \<^verbatim>\<open>click_view_document_and_download\<close> meets. Each \<open>exn option\<close> is what one awaited
  browser call does (\<open>None\<close>: it succeeds). \<open>race\<close> lists what reaches the listener and the
  context route from the click until they are removed; \<open>popup_requests\<close> what reaches the
  route on the popup before the handler looks at the capture again.
\<close>

record click_env =
  selector_visible :: "exn option"
  context_routed :: "exn option"
  close_blocked :: "exn option"
  clicked :: "exn option"
  race :: "race_event list"
  context_unrouted :: "exn option"
  popup_routed :: "exn option"
  popup_loaded :: "exn option"
  popup_requests :: "(string \<times> fetch_outcome) list"
  popup_unrouted :: "exn option"
  popup_viewer :: viewer_env
  original_url :: "string result"
  original_viewer :: viewer_env

text \<open>
  The inner \<^verbatim>\<open>try\<close>: the route on the context, the blocked \<^verbatim>\<open>window.close\<close>, the click, and
  the wait for the first of the two events (or its 15 seconds). It yields the two closure
  variables, \<^verbatim>\<open>captured_pdf_content\<close> and whether \<^verbatim>\<open>captured_new_page\<close> is set.
\<close>

definition click_and_wait :: "click_env \<Rightarrow> world \<Rightarrow> (string option \<times> bool) result \<times> world" where
  "click_and_wait env w =
     (let w1 = logger INFO ''Setting up PDF route interception on context...'' w in
      case context_routed env of
        Some e \<Rightarrow> (Inl e, w1)
      | None \<Rightarrow>
     (let w2 = act RouteContext w1 in
      case close_blocked env of
        Some e \<Rightarrow> (Inl e, w2)
      | None \<Rightarrow>
     (let w3 = logger INFO ''Clicking View Document button...'' (act BlockWindowClose w2) in
      case clicked env of
        Some e \<Rightarrow> (Inl e, w3)
      | None \<Rightarrow>
     (let w4 = logger INFO ''Clicked! Waiting for PDF interception or new page...''
                 (act ClickViewDocument w3)
      in case run_race (race env) ((None, False), w4) of
           (cn, w5) \<Rightarrow> (Inr cn, w5)))))"

text \<open>Its \<^verbatim>\<open>finally\<close>: the listener is removed, the route is removed (a failure is passed over).\<close>

definition click_finally :: "click_env \<Rightarrow> world \<Rightarrow> world" where
  "click_finally env w =
     (let w1 = act RemovePageListener w in
      case context_unrouted env of
        Some e \<Rightarrow> w1
      | None \<Rightarrow> act UnrouteContext w1)"

text \<open>The handler of \<^verbatim>\<open>except Exception as popup_error\<close>.\<close>

definition popup_except :: "click_env \<Rightarrow> exn \<Rightarrow> world \<Rightarrow> world" where
  "popup_except env e w =
     (let w1 = logger ERROR (''Error handling popup: '' @ str_exn e) w in
      case popup_unrouted env of
        Some e' \<Rightarrow> w1
      | None \<Rightarrow> act UnroutePopup w1)"

fun run_requests :: "(string \<times> fetch_outcome) list \<Rightarrow> string option \<times> world \<Rightarrow> string option \<times> world" where
  "run_requests [] cw = cw"
| "run_requests ((url, fo) # rs) cw = run_requests rs (intercept_pdf_response url fo cw)"

text \<open>
  CASE 1, the popup: \<open>Some p\<close> when the function returns \<open>p\<close> from it, \<open>None\<close> when control
  goes on to CASE 2.
\<close>

definition popup_stage ::
  "string \<Rightarrow> click_env \<Rightarrow> string option \<Rightarrow> world \<Rightarrow> string option \<times> world" where
  "popup_stage filepath env captured w =
     (let w0 = logger INFO ''Handling new popup window with PDF interception...'' w in
      case popup_routed env of
        Some e \<Rightarrow> (None, popup_except env e w0)
      | None \<Rightarrow>
     (let w1 = logger INFO ''Waiting for popup to load...'' (act RoutePopup w0) in
      case popup_loaded env of
        Some e \<Rightarrow> (None, popup_except env e w1)
      | None \<Rightarrow>
     (case run_requests (popup_requests env) (captured, act WaitPopupLoad w1) of
        (captured2, w2) \<Rightarrow>
          if has_content captured2 then
            (let w3 = logger INFO (''PDF saved successfully: '' @ filepath)
                        (write_file filepath (content_of captured2)
                           (logger INFO ''Captured PDF from popup'' w2))
             in case popup_unrouted env of
                  Some e \<Rightarrow> (None, popup_except env e w3)
                | None \<Rightarrow> (Some filepath, act UnroutePopup w3))
          else
            (case download_from_pdf_viewer (popup_viewer env) filepath
                    (logger INFO ''PDF not intercepted, trying to download from PDF viewer...'' w2) of
               (download_path, w3) \<Rightarrow>
                 (case popup_unrouted env of
                    Some e \<Rightarrow> (None, popup_except env e w3)
                  | None \<Rightarrow> (download_path, act UnroutePopup w3))))))"

text \<open>CASE 2, the original page, and the end of the function.\<close>

definition original_page_stage :: "string \<Rightarrow> click_env \<Rightarrow> world \<Rightarrow> string option \<times> world" where
  "original_page_stage filepath env w =
     (let w0 = logger INFO ''Checking if original page has PDF viewer...'' w in
      case original_url env of
        Inl e \<Rightarrow>
          (None, logger ERROR ''All download methods failed''
                   (logger WARNING (''Error checking original page: '' @ str_exn e) w0))
      | Inr current_url \<Rightarrow>
          (let w1 = logger INFO (''Original page URL after click: '' @ current_url) w0 in
           if contains current_url ''/doc1/''
           then (case download_from_pdf_viewer (original_viewer env) filepath w1 of
                   (Some download_path, w2) \<Rightarrow> (Some download_path, w2)
                 | (None, w2) \<Rightarrow> (None, logger ERROR ''All download methods failed'' w2))
           else (None, logger ERROR ''All download methods failed'' w1)))"

text \<open>The outer \<^verbatim>\<open>except Exception\<close>.\<close>

definition click_except :: "exn \<Rightarrow> world \<Rightarrow> world" where
  "click_except e w = logger ERROR (''Error in click_view_document_and_download: '' @ str_exn e) w"

definition click_view_document_and_download ::
  "string \<Rightarrow> string \<Rightarrow> string \<Rightarrow> click_env \<Rightarrow> world \<Rightarrow> string option \<times> world" where
  "click_view_document_and_download downloads_dir case_number doc_number env w =
     (let filepath = pdf_filepath downloads_dir case_number doc_number;
          w0 = logger INFO ''Preparing to click View Document (with PDF interception)...'' w
      in case selector_visible env of
           Some e \<Rightarrow> (None, click_except e w0)
         | None \<Rightarrow>
             (case click_and_wait env (act ListenPage (act WaitForSelector w0)) of
                (r, w1) \<Rightarrow>
                  (let w2 = click_finally env w1 in
                   case r of
                     Inl e \<Rightarrow> (None, click_except e w2)
                   | Inr (captured, new_page) \<Rightarrow>
                       if has_content captured
                       then (Some filepath,
                             logger INFO (''PDF saved successfully: '' @ filepath)
                               (write_file filepath (content_of captured)
                                  (logger INFO (''Saving intercepted PDF to '' @ filepath) w2)))
                       else if new_page
                       then (case popup_stage filepath env captured w2 of
                               (Some p, w3) \<Rightarrow> (Some p, w3)
                             | (None, w3) \<Rightarrow> original_page_stage filepath env w3)
                       else original_page_stage filepath env w2)))"

text \<open>
  What \<^verbatim>\<open>download_document\<close> meets: the two page checks, the click approach, and for the
  form approach whether the form data is found, the URL that submitting the form yields,
  and the GET of that URL.
\<close>

record download_env =
  on_error_page :: bool
  on_document_detail_page :: bool
  click_approach :: click_env
  form_data_found :: bool
  form_pdf_url :: "string option"
  url_fetch :: http_outcome

datatype download_status = SUCCESS string string | FAILED string

definition download_document ::
  "string \<Rightarrow> string \<Rightarrow> string \<Rightarrow> download_env \<Rightarrow> world \<Rightarrow> download_status \<times> world" where
  "download_document downloads_dir case_number doc_number env w =
     (if on_error_page env then (FAILED ''Landed on error page (Incomplete request)'', w)
      else if \<not> on_document_detail_page env then (FAILED ''Not on document detail page'', w)
      else
        (case click_view_document_and_download downloads_dir case_number doc_number
                (click_approach env) (logger INFO ''Attempting click-and-handle-popup approach...'' w) of
           (Some filepath, w1) \<Rightarrow> (SUCCESS (pdf_filename case_number doc_number) filepath, w1)
         | (None, w1) \<Rightarrow>
             (let w2 = logger INFO ''Attempting form submission approach...''
                         (logger WARNING ''Click-and-handle-popup approach failed, trying form submission...'' w1)
              in if form_data_found env then
                   (case form_pdf_url env of
                      Some pdf_url \<Rightarrow>
                        (case download_pdf_from_url downloads_dir pdf_url case_number doc_number
                                (url_fetch env) w2 of
                           (Some filepath, w3) \<Rightarrow>
                             (SUCCESS (pdf_filename case_number doc_number) filepath, w3)
                         | (None, w3) \<Rightarrow>
                             (FAILED ''Failed to download PDF (all methods failed)'',
                              logger WARNING ''Form submission got PDF URL but download failed...'' w3))
                    | None \<Rightarrow>
                        (FAILED ''Failed to download PDF (all methods failed)'',
                         logger WARNING ''Form submission failed to get PDF URL...'' w2))
                 else (FAILED ''Failed to download PDF (all methods failed)'',
                       logger WARNING ''Could not get form data...'' w2))))"

section \<open>The CM/ECF workflow (\<^verbatim>\<open>scraper/cmecf_scraper.py\<close>, \<^verbatim>\<open>models/cmecf_job.py\<close>)\<close>

record TranscriptMatch =
  doc_number :: string
  filing_date :: string
  docket_text :: string
  has_link :: bool

record CMECFDownloadResult =
  dl_status :: string
  dl_case_number :: string
  dl_doc_number :: string
  dl_filename :: "string option"
  dl_file_path :: "string option"
  dl_error_message :: "string option"
  dl_timestamp :: string

record CaseNumber =
  case_number :: string
  status :: string
  transcripts_found :: nat
  transcripts_downloaded :: nat
  errors :: "string list"

text \<open>The job's status; COMPLETED, FAILED and CANCELLED carry the prefix \<open>JOB_\<close> here.\<close>

datatype CMECFJobStatus = PENDING | RUNNING | PAUSED | JOB_COMPLETED | JOB_FAILED | JOB_CANCELLED

record CMECFScrapingJob =
  job_id :: string
  job_status :: CMECFJobStatus
  case_numbers :: "string list"
  current_case_index :: nat
  cases_processed :: nat
  total_transcripts_found :: nat
  total_transcripts_downloaded :: nat
  case_results :: "string \<rightharpoonup> CaseNumber"
  downloads :: "CMECFDownloadResult list"
  job_errors :: "(string \<times> string) list list"
  started_at :: "string option"
  completed_at :: "string option"

definition mark_started :: "string \<Rightarrow> CMECFScrapingJob \<Rightarrow> CMECFScrapingJob" where
  "mark_started t job = job\<lparr>job_status := RUNNING, started_at := Some t\<rparr>"

definition mark_completed :: "string \<Rightarrow> CMECFScrapingJob \<Rightarrow> CMECFScrapingJob" where
  "mark_completed t job = job\<lparr>job_status := JOB_COMPLETED, completed_at := Some t\<rparr>"

definition mark_failed :: "string \<Rightarrow> string \<Rightarrow> CMECFScrapingJob \<Rightarrow> CMECFScrapingJob" where
  "mark_failed t error job =
     job\<lparr>job_status := JOB_FAILED,
         job_errors := job_errors job @ [[(''message'', error), (''timestamp'', t)]],
         completed_at := Some t\<rparr>"

definition add_case_result :: "string \<Rightarrow> CaseNumber \<Rightarrow> CMECFScrapingJob \<Rightarrow> CMECFScrapingJob" where
  "add_case_result cn result job =
     job\<lparr>case_results := (case_results job)(cn \<mapsto> result),
         total_transcripts_found := total_transcripts_found job + transcripts_found result,
         total_transcripts_downloaded := total_transcripts_downloaded job + transcripts_downloaded result\<rparr>"

definition add_download :: "CMECFDownloadResult \<Rightarrow> CMECFScrapingJob \<Rightarrow> CMECFScrapingJob" where
  "add_download download job =
     (let job1 = job\<lparr>downloads := downloads job @ [download]\<rparr>
      in if dl_status download = ''SUCCESS''
         then job1\<lparr>total_transcripts_downloaded := total_transcripts_downloaded job1 + 1\<rparr>
         else job1)"

definition add_error :: "string \<Rightarrow> string \<Rightarrow> string \<Rightarrow> string \<Rightarrow> CMECFScrapingJob \<Rightarrow> CMECFScrapingJob" where
  "add_error t cn dn error job =
     job\<lparr>job_errors := job_errors job @
            [[(''case_number'', cn), (''doc_number'', dn), (''error'', error), (''timestamp'', t)]]\<rparr>"

fun add_errors :: "string \<Rightarrow> string \<Rightarrow> string list \<Rightarrow> CMECFScrapingJob \<Rightarrow> CMECFScrapingJob" where
  "add_errors t cn [] job = job"
| "add_errors t cn (error # rest) job = add_errors t cn rest (add_error t cn [] error job)"

text \<open>
  The scraper object: its client id, its state machine, the job it runs (the same object
  the caller holds), the stored results URL and the download directory of its document
  handler.
\<close>

record CMECFScraper =
  scraper_client_id :: string
  state_machine :: StateMachine
  current_job :: "CMECFScrapingJob option"
  results_page_url :: string
  downloads_dir :: string

text \<open>\<^verbatim>\<open>CMECFScraper.__init__\<close>: a fresh state machine with \<^verbatim>\<open>_on_state_change\<close> registered.\<close>

definition CMECFScraper_init :: "string \<Rightarrow> string \<Rightarrow> CMECFScraper" where
  "CMECFScraper_init cid dir =
     \<lparr>scraper_client_id = cid,
      state_machine = set_state_change_callback (scraper_on_state_change cid) StateMachine_init,
      current_job = None, results_page_url = [], downloads_dir = dir\<rparr>"

text \<open>Sequencing of steps that may raise: the first exception ends the sequence.\<close>

definition then_do :: "'a result \<times> 's \<Rightarrow> ('a \<Rightarrow> 's \<Rightarrow> 'b result \<times> 's) \<Rightarrow> 'b result \<times> 's" where
  "then_do m f = (case m of (Inl e, s) \<Rightarrow> (Inl e, s) | (Inr a, s) \<Rightarrow> f a s)"

text \<open>A call of the connection manager, and a transition, from within the scraper.\<close>

definition manager :: "(world \<Rightarrow> unit result \<times> world) \<Rightarrow> CMECFScraper \<times> world \<Rightarrow> unit result \<times> CMECFScraper \<times> world" where
  "manager call sw = (case call (snd sw) of (r, w) \<Rightarrow> (r, fst sw, w))"

definition transition :: "ScraperState \<Rightarrow> string \<Rightarrow> CMECFScraper \<times> world \<Rightarrow> unit result \<times> CMECFScraper \<times> world" where
  "transition st message sw =
     (case transition_to st message (state_machine (fst sw), snd sw) of
        (r, sm, w) \<Rightarrow> (r, (fst sw)\<lparr>state_machine := sm\<rparr>, w))"

definition logging :: "level \<Rightarrow> string \<Rightarrow> CMECFScraper \<times> world \<Rightarrow> CMECFScraper \<times> world" where
  "logging l m sw = (fst sw, logger l m (snd sw))"

text \<open>Decimal digits of a number, as an f-string renders it.\<close>

fun str_nat :: "nat \<Rightarrow> string" where
  "str_nat n =
     (if n < 10 then [char_of (48 + n)] else str_nat (n div 10) @ [char_of (48 + n mod 10)])"

declare str_nat.simps [simp del]

text \<open>
  What \<^verbatim>\<open>_recover_to_results_page\<close> meets: whether the navigation to the case entry page
  raises, whether the case number is re-submitted, whether the results page loads, and
  the URL of the page then.
\<close>

record recovery_env =
  goto_case_entry :: "exn option"
  resubmitted :: bool
  results_reloaded :: bool
  recovered_url :: string

definition navigate_to_case_entry :: "exn option \<Rightarrow> CMECFScraper \<times> world \<Rightarrow> unit result \<times> CMECFScraper \<times> world" where
  "navigate_to_case_entry goto sw =
     (case goto of
        None \<Rightarrow> (Inr (), sw)
      | Some e \<Rightarrow> (Inl e, logging ERROR (''Error navigating to case entry: '' @ str_exn e) sw))"

definition recover_to_results_page ::
  "string \<Rightarrow> recovery_env \<Rightarrow> CMECFScraper \<times> world \<Rightarrow> unit result \<times> CMECFScraper \<times> world" where
  "recover_to_results_page cn renv sw =
     then_do (manager (send_info (scraper_client_id (fst sw))
                (''Re-entering case '' @ cn @ '' to return to results...'')) sw) (\<lambda>u sw1.
     then_do (navigate_to_case_entry (goto_case_entry renv) sw1) (\<lambda>u sw2.
       if \<not> resubmitted renv
       then (Inl (RuntimeError (''Recovery failed: could not re-submit case number '' @ cn)), sw2)
       else if \<not> results_reloaded renv
       then (Inl (RuntimeError (''Recovery failed: results page did not load for '' @ cn)), sw2)
       else (Inr (), logging INFO ''Recovered to results page''
                       ((fst sw2)\<lparr>results_page_url := recovered_url renv\<rparr>, snd sw2))))"

text \<open>
  What \<^verbatim>\<open>_navigate_back_to_results\<close> meets: whether going back raises, the two page checks
  afterwards, and the recovery.
\<close>

record nav_env =
  go_back :: "exn option"
  back_on_results :: bool
  back_on_error_page :: bool
  recovery :: recovery_env

definition navigate_back_to_results ::
  "string \<Rightarrow> nav_env \<Rightarrow> CMECFScraper \<times> world \<Rightarrow> unit result \<times> CMECFScraper \<times> world" where
  "navigate_back_to_results cn nenv sw =
     then_do (transition RETURNING_TO_RESULTS ''Returning to results page'' sw) (\<lambda>u sw1.
       (let sw2 = (case go_back nenv of
                     None \<Rightarrow> sw1
                   | Some e \<Rightarrow> logging WARNING (''Go-back failed: '' @ str_exn e @ '', will try recovery'') sw1)
        in if back_on_results nenv
           then (Inr (), logging INFO ''Navigated back to results page'' sw2)
           else recover_to_results_page cn (recovery nenv)
                  (logging WARNING
                     (if back_on_error_page nenv
                      then ''Landed on error page after back; re-entering case number to recover''
                      else ''Not on results page after back; re-entering case number to recover'')
                     sw2)))"

text \<open>
  What \<^verbatim>\<open>process_transcript_entry\<close> meets for one entry, and what the return to the
  results page meets after it.
\<close>

record entry_env =
  link_clicked :: bool
  document :: download_env
  back_nav :: nav_env

definition download_result ::
  "string \<Rightarrow> string \<Rightarrow> string \<Rightarrow> string option \<Rightarrow> string option \<Rightarrow> string option \<Rightarrow> world \<Rightarrow>
     CMECFDownloadResult" where
  "download_result st cn dn filename file_path error w =
     \<lparr>dl_status = st, dl_case_number = cn, dl_doc_number = dn, dl_filename = filename,
      dl_file_path = file_path, dl_error_message = error, dl_timestamp = now w\<rparr>"

text \<open>The body of the \<^verbatim>\<open>try\<close> of \<^verbatim>\<open>process_transcript_entry\<close>.\<close>

definition process_transcript_entry_try ::
  "string \<Rightarrow> TranscriptMatch \<Rightarrow> entry_env \<Rightarrow> CMECFScraper \<times> world \<Rightarrow>
     CMECFDownloadResult result \<times> CMECFScraper \<times> world" where
  "process_transcript_entry_try cn entry eenv sw =
     (if \<not> has_link entry
      then (Inr (download_result ''NO_LINK'' cn (doc_number entry) None None
                   (Some ''Document has no clickable link'') (snd sw)),
            logging WARNING (''Document #'' @ doc_number entry @ '' has no clickable link'') sw)
      else
        then_do (transition NAVIGATING_TO_DOCUMENT (''Opening document #'' @ doc_number entry) sw) (\<lambda>u sw1.
          if \<not> link_clicked eenv
          then (Inr (download_result ''FAILED'' cn (doc_number entry) None None
                       (Some ''Failed to click document link'') (snd sw1)), sw1)
          else
            then_do (transition DOWNLOADING (''Downloading document #'' @ doc_number entry) sw1) (\<lambda>u sw2.
              case download_document (downloads_dir (fst sw2)) cn (doc_number entry)
                     (document eenv) (snd sw2) of
                (SUCCESS filename filepath, w3) \<Rightarrow>
                  then_do (manager (send_event (scraper_client_id (fst sw2))
                             (DictEvent [(''type'', PStr ''DOWNLOAD_SUCCESS''),
                                         (''filename'', PStr filename),
                                         (''case_number'', PStr cn),
                                         (''doc_number'', PStr (doc_number entry))]))
                             (fst sw2, w3)) (\<lambda>u sw4.
                    (Inr (download_result ''SUCCESS'' cn (doc_number entry) (Some filename)
                            (Some filepath) None (snd sw4)),
                     logging INFO ''Download complete, waiting 5 seconds...'' sw4))
              | (FAILED error, w3) \<Rightarrow>
                  (Inr (download_result ''FAILED'' cn (doc_number entry) None None (Some error) w3),
                   (fst sw2, w3)))))"

definition process_transcript_entry ::
  "string \<Rightarrow> TranscriptMatch \<Rightarrow> entry_env \<Rightarrow> CMECFScraper \<times> world \<Rightarrow>
     CMECFDownloadResult \<times> CMECFScraper \<times> world" where
  "process_transcript_entry cn entry eenv sw =
     (case process_transcript_entry_try cn entry eenv sw of
        (Inr r, sw1) \<Rightarrow> (r, sw1)
      | (Inl e, sw1) \<Rightarrow>
          (download_result ''FAILED'' cn (doc_number entry) None None (Some (str_exn e)) (snd sw1),
           logging ERROR (''Error processing transcript entry: '' @ str_exn e) sw1))"

text \<open>
  Inside \<^verbatim>\<open>process_case\<close> the state is the local \<^verbatim>\<open>case_result\<close> with the scraper and the
  world: what the body has done to \<^verbatim>\<open>case_result\<close> is still there when the handler runs.
\<close>

type_synonym case_state = "CaseNumber \<times> CMECFScraper \<times> world"

definition in_case ::
  "(CMECFScraper \<times> world \<Rightarrow> 'a result \<times> CMECFScraper \<times> world) \<Rightarrow> case_state \<Rightarrow> 'a result \<times> case_state" where
  "in_case f st = (case f (snd st) of (r, sw) \<Rightarrow> (r, fst st, sw))"

fun opt_text :: "string option \<Rightarrow> string" where
  "opt_text None = ''None''"
| "opt_text (Some m) = m"

text \<open>
  One pass of the loop over the transcript entries; \<open>idx\<close> is the index of the entry and
  \<open>n\<close> the number of entries (\<^verbatim>\<open>idx < len(transcript_entries) - 1\<close> is \<open>idx + 1 < n\<close>).
  The marks the loop sets on the entry object (downloaded, filename, error) stay inside
  \<^verbatim>\<open>process_case\<close>, and the random delay changes nothing: both are left out.
\<close>

definition process_entry_step ::
  "string \<Rightarrow> nat \<Rightarrow> nat \<Rightarrow> TranscriptMatch \<Rightarrow> entry_env \<Rightarrow> case_state \<Rightarrow> unit result \<times> case_state" where
  "process_entry_step cn idx n entry eenv st =
     then_do (in_case (manager (send_progress (scraper_client_id (fst (snd st)))
                (''Downloading transcript '' @ str_nat (idx + 1) @ ''/'' @ str_nat n @
                 '' (#'' @ doc_number entry @ '')'') (idx + 1) n)) st) (\<lambda>u st1.
       case process_transcript_entry cn entry eenv (snd st1) of
         (download, sw2) \<Rightarrow>
           (let cr1 = (if dl_status download = ''SUCCESS''
                       then (fst st1)\<lparr>transcripts_downloaded := transcripts_downloaded (fst st1) + 1\<rparr>
                       else (fst st1)\<lparr>errors := errors (fst st1) @
                              [''Doc #'' @ doc_number entry @ '': '' @
                               opt_text (dl_error_message download)]\<rparr>);
                sw3 = (case current_job (fst sw2) of
                         None \<Rightarrow> sw2
                       | Some job \<Rightarrow> ((fst sw2)\<lparr>current_job := Some (add_download download job)\<rparr>, snd sw2))
            in if idx + 1 < n
               then in_case (navigate_back_to_results cn (back_nav eenv)) (cr1, sw3)
               else (Inr (), cr1, sw3)))"

fun process_entries ::
  "string \<Rightarrow> nat \<Rightarrow> nat \<Rightarrow> (TranscriptMatch \<times> entry_env) list \<Rightarrow> case_state \<Rightarrow> unit result \<times> case_state" where
  "process_entries cn idx n [] st = (Inr (), st)"
| "process_entries cn idx n (x # rest) st =
     (case process_entry_step cn idx n (fst x) (snd x) st of
        (Inl e, st1) \<Rightarrow> (Inl e, st1)
      | (Inr u, st1) \<Rightarrow> process_entries cn (idx + 1) n rest st1)"

text \<open>
  What \<^verbatim>\<open>process_case\<close> meets: whether the case number is submitted, whether the results
  page loads, its URL, and the transcript entries found, each with what it meets.
\<close>

record case_env =
  submitted :: bool
  results_loaded :: bool
  results_url :: string
  found :: "(TranscriptMatch \<times> entry_env) list"

definition case_failed :: "string \<Rightarrow> case_state \<Rightarrow> case_state" where
  "case_failed error st = ((fst st)\<lparr>status := ''failed'', errors := errors (fst st) @ [error]\<rparr>, snd st)"

definition case_completed :: "case_state \<Rightarrow> case_state" where
  "case_completed st = ((fst st)\<lparr>status := ''completed''\<rparr>, snd st)"

text \<open>The body of the \<^verbatim>\<open>try\<close> of \<^verbatim>\<open>process_case\<close>; a \<^verbatim>\<open>return\<close> inside it is \<open>Inr ()\<close>.\<close>

definition process_case_try :: "string \<Rightarrow> case_env \<Rightarrow> case_state \<Rightarrow> unit result \<times> case_state" where
  "process_case_try cn cenv st =
     then_do (in_case (transition SEARCHING (''Processing case: '' @ cn)) st) (\<lambda>u st1.
     then_do (in_case (manager (send_info (scraper_client_id (fst (snd st1)))
                (''Processing case: '' @ cn))) st1) (\<lambda>u st2.
       if \<not> submitted cenv then (Inr (), case_failed ''Failed to submit case number'' st2)
       else if \<not> results_loaded cenv then (Inr (), case_failed ''Failed to load results page'' st2)
       else
         (let st3 = (fst st2,
                     logging INFO (''Results page URL: '' @ results_url cenv)
                       ((fst (snd st2))\<lparr>results_page_url := results_url cenv\<rparr>, snd (snd st2)))
          in then_do (in_case (transition EXTRACTING_ENTRIES ''Finding transcript entries'') st3) (\<lambda>u st4.
               (let st5 = ((fst st4)\<lparr>transcripts_found := length (found cenv)\<rparr>, snd st4)
                in if found cenv = []
                   then then_do (in_case (manager (send_info (scraper_client_id (fst (snd st5)))
                                   (''No matching transcripts found for case '' @ cn))) st5) (\<lambda>u st6.
                          (Inr (), case_completed st6))
                   else then_do (in_case (manager (send_info (scraper_client_id (fst (snd st5)))
                                   (''Found '' @ str_nat (length (found cenv)) @
                                    '' transcript(s) for case '' @ cn))) st5) (\<lambda>u st6.
                        then_do (process_entries cn 0 (length (found cenv)) (found cenv) st6) (\<lambda>u st7.
                          (Inr (), case_completed st7))))))))"

text \<open>\<^verbatim>\<open>process_case\<close>: the fresh \<^verbatim>\<open>CaseNumber\<close>, the body, and the \<^verbatim>\<open>except Exception\<close>.\<close>

definition process_case :: "string \<Rightarrow> case_env \<Rightarrow> CMECFScraper \<times> world \<Rightarrow> CaseNumber \<times> CMECFScraper \<times> world" where
  "process_case cn cenv sw =
     (case process_case_try cn cenv
             (\<lparr>case_number = cn, status = ''pending'', transcripts_found = 0,
               transcripts_downloaded = 0, errors = []\<rparr>, sw) of
        (Inr u, st) \<Rightarrow> st
      | (Inl e, st) \<Rightarrow>
          (case case_failed (str_exn e) st of
             (cr, sw1) \<Rightarrow>
               (cr, logging ERROR (''Error processing case '' @ cn @ '': '' @ str_exn e) sw1)))"

text \<open>
  What \<^verbatim>\<open>run_scraping_job\<close> meets: whether starting the browser and the handlers raises,
  what \<^verbatim>\<open>ensure_logged_in\<close> gives, and for the case at each index what the navigation to
  the case entry page before it does, and what the case meets.
\<close>

record job_env =
  initialized :: "exn option"
  logged_in :: "bool result"
  case_envs :: "nat \<Rightarrow> exn option \<times> case_env"

definition initialize :: "exn option \<Rightarrow> CMECFScraper \<times> world \<Rightarrow> unit result \<times> CMECFScraper \<times> world" where
  "initialize init sw =
     then_do (transition INITIALIZING ''Initializing browser and CMECF scraper'' sw) (\<lambda>u sw1.
       case init of
         None \<Rightarrow> (Inr (), logging INFO ''CMECF Scraper initialized successfully'' sw1)
       | Some e \<Rightarrow>
           then_do (transition ERROR_STATE (''Initialization failed: '' @ str_exn e) sw1) (\<lambda>u sw2.
             (Inl e, sw2)))"

definition login :: "bool result \<Rightarrow> CMECFScraper \<times> world \<Rightarrow> bool result \<times> CMECFScraper \<times> world" where
  "login outcome sw =
     then_do (transition LOGGING_IN ''Logging into CMECF (PACER)'' sw) (\<lambda>u sw1.
       case then_do (outcome, sw1) (\<lambda>success sw2.
              then_do (manager (if success
                         then send_info (scraper_client_id (fst sw2)) ''Login successful - on CMECF docket page''
                         else send_error (scraper_client_id (fst sw2)) ''Login failed - please check credentials'')
                         sw2) (\<lambda>u sw3. (Inr success, sw3))) of
         (Inr success, sw4) \<Rightarrow> (Inr success, sw4)
       | (Inl e, sw4) \<Rightarrow>
           then_do (manager (send_error (scraper_client_id (fst sw4)) (''Login error: '' @ str_exn e))
                      (logging ERROR (''Login error: '' @ str_exn e) sw4)) (\<lambda>u sw5.
             (Inr False, sw5)))"

text \<open>The job is the object \<^verbatim>\<open>current_job\<close> refers to.\<close>

definition on_job :: "(CMECFScrapingJob \<Rightarrow> CMECFScrapingJob) \<Rightarrow> CMECFScraper \<times> world \<Rightarrow> CMECFScraper \<times> world" where
  "on_job f sw = ((fst sw)\<lparr>current_job := map_option f (current_job (fst sw))\<rparr>, snd sw)"

text \<open>One pass of the loop over the case numbers.\<close>

definition case_step ::
  "job_env \<Rightarrow> nat \<Rightarrow> nat \<Rightarrow> string \<Rightarrow> CMECFScraper \<times> world \<Rightarrow> unit result \<times> CMECFScraper \<times> world" where
  "case_step jenv idx n cn sw =
     then_do (manager (send_progress (scraper_client_id (fst sw))
                (''Processing case '' @ str_nat (idx + 1) @ ''/'' @ str_nat n @ '': '' @ cn) (idx + 1) n)
                (on_job (\<lambda>job. job\<lparr>current_case_index := idx\<rparr>) sw)) (\<lambda>u sw1.
     then_do (if idx > 0 then navigate_to_case_entry (fst (case_envs jenv idx)) sw1 else (Inr (), sw1)) (\<lambda>u sw2.
       case process_case cn (snd (case_envs jenv idx)) sw2 of
         (case_result, sw3) \<Rightarrow>
           (Inr (),
            on_job (\<lambda>job. add_errors (now (snd sw3)) cn (errors case_result)
                             ((add_case_result cn case_result job)
                                \<lparr>cases_processed := cases_processed job + 1\<rparr>)) sw3)))"

fun run_cases ::
  "job_env \<Rightarrow> nat \<Rightarrow> nat \<Rightarrow> string list \<Rightarrow> CMECFScraper \<times> world \<Rightarrow> unit result \<times> CMECFScraper \<times> world" where
  "run_cases jenv idx n [] sw = (Inr (), sw)"
| "run_cases jenv idx n (cn # rest) sw =
     (case case_step jenv idx n cn sw of
        (Inl e, sw1) \<Rightarrow> (Inl e, sw1)
      | (Inr u, sw1) \<Rightarrow> run_cases jenv (idx + 1) n rest sw1)"

text \<open>The values of the members of \<^verbatim>\<open>CMECFJobStatus\<close>.\<close>

fun job_status_value :: "CMECFJobStatus \<Rightarrow> string" where
  "job_status_value PENDING = ''pending''"
| "job_status_value RUNNING = ''running''"
| "job_status_value PAUSED = ''paused''"
| "job_status_value JOB_COMPLETED = ''completed''"
| "job_status_value JOB_FAILED = ''failed''"
| "job_status_value JOB_CANCELLED = ''cancelled''"

text \<open>\<^verbatim>\<open>job.get_summary()\<close>; the duration, a difference of two clock readings, is left opaque.\<close>

definition get_summary :: "CMECFScrapingJob \<Rightarrow> pyval" where
  "get_summary job =
     PDict [(''job_id'', PStr (job_id job)),
            (''status'', PStr (job_status_value (job_status job))),
            (''cases_total'', PInt (int (length (case_numbers job)))),
            (''cases_processed'', PInt (int (cases_processed job))),
            (''transcripts_found'', PInt (int (total_transcripts_found job))),
            (''transcripts_downloaded'', PInt (int (total_transcripts_downloaded job))),
            (''errors_count'', PInt (int (length (job_errors job)))),
            (''duration'', PObject ''float'')]"

text \<open>The body of the \<^verbatim>\<open>try\<close> of \<^verbatim>\<open>run_scraping_job\<close>.\<close>

definition run_scraping_job_try ::
  "job_env \<Rightarrow> string list \<Rightarrow> CMECFScraper \<times> world \<Rightarrow> unit result \<times> CMECFScraper \<times> world" where
  "run_scraping_job_try jenv cns sw =
     then_do (initialize (initialized jenv) sw) (\<lambda>u sw1.
     then_do (login (logged_in jenv) sw1) (\<lambda>ok sw2.
       if \<not> ok then (Inr (), on_job (mark_failed (now (snd sw2)) ''Login failed'') sw2)
       else
         then_do (run_cases jenv 0 (length cns) cns sw2) (\<lambda>u sw3.
         then_do (transition COMPLETED ''CMECF scraping completed'' sw3) (\<lambda>u sw4.
           (let sw5 = on_job (mark_completed (now (snd sw4))) sw4
            in case current_job (fst sw5) of
                 None \<Rightarrow> (Inl AttributeError, sw5)
               | Some job \<Rightarrow>
                   manager (send_complete (scraper_client_id (fst sw5))
                              (''Scraping complete! Downloaded '' @
                               str_nat (total_transcripts_downloaded job) @ '' transcripts from '' @
                               str_nat (cases_processed job) @ '' cases'')
                              (get_summary job)) sw5)))))"

text \<open>\<^verbatim>\<open>cleanup\<close>: the browser is closed (which does not raise) and the state machine reset.\<close>

definition cleanup :: "CMECFScraper \<times> world \<Rightarrow> CMECFScraper \<times> world" where
  "cleanup sw =
     (case reset (state_machine (fst sw), logger INFO ''Cleaning up CMECF scraper resources'' (snd sw)) of
        (sm, w) \<Rightarrow> ((fst sw)\<lparr>state_machine := sm\<rparr>, w))"

text \<open>
  \<^verbatim>\<open>run_scraping_job\<close>: the job is made current and marked started; the body; the
  \<^verbatim>\<open>except Exception\<close>, which marks the job failed; the \<^verbatim>\<open>finally\<close>. The job returned is
  the current job.
\<close>

definition run_scraping_job ::
  "CMECFScrapingJob \<Rightarrow> job_env \<Rightarrow> CMECFScraper \<times> world \<Rightarrow>
     CMECFScrapingJob option result \<times> CMECFScraper \<times> world" where
  "run_scraping_job job jenv sw =
     (let sw0 = ((fst sw)\<lparr>current_job := Some (mark_started (now (snd sw)) job)\<rparr>, snd sw)
      in case run_scraping_job_try jenv (case_numbers job) sw0 of
           (Inr u, sw1) \<Rightarrow> (Inr (current_job (fst sw1)), cleanup sw1)
         | (Inl e, sw1) \<Rightarrow>
             (case manager (send_error (scraper_client_id (fst sw1)) (''Scraping job failed: '' @ str_exn e))
                     (on_job (mark_failed (now (snd sw1)) (str_exn e))
                        (logging ERROR (''CMECF scraping job failed: '' @ str_exn e) sw1)) of
                (Inr u, sw2) \<Rightarrow> (Inr (current_job (fst sw2)), cleanup sw2)
              | (Inl e2, sw2) \<Rightarrow> (Inl e2, cleanup sw2)))"

section \<open>Predicates of the statements\<close>

text \<open>Every reference the dict holds points into the store of futures.\<close>

definition wf_world :: "world \<Rightarrow> bool" where
  "wf_world w \<longleftrightarrow> (\<forall>c f. pending_responses w c = Some f \<longrightarrow> f < length (futures w))"

text \<open>The chain property of a history whose machine is in state \<open>cur\<close>.\<close>

definition chained :: "history_entry list \<Rightarrow> ScraperState \<Rightarrow> bool" where
  "chained h cur \<longleftrightarrow>
     (\<forall>i. Suc i < length h \<longrightarrow> h_previous_state (h ! Suc i) = Some (h_state (h ! i))) \<and>
     (h \<noteq> [] \<longrightarrow> h_state (last h) = cur)"

text \<open>A request whose interception captures: a PDF request whose fetched body starts with the magic bytes.\<close>

fun captures :: "string \<Rightarrow> fetch_outcome \<Rightarrow> bool" where
  "captures url (Fetched body fulfilled) \<longleftrightarrow> is_pdf_request url \<and> startswith body ''%PDF''"
| "captures url (FetchFailed e) \<longleftrightarrow> False"

fun race_captures :: "race_event \<Rightarrow> bool" where
  "race_captures NewPage \<longleftrightarrow> False"
| "race_captures (Request url fo) \<longleftrightarrow> captures url fo"

text \<open>A PDF viewer from which no download is had.\<close>

definition viewer_yields_nothing :: "viewer_env \<Rightarrow> bool" where
  "viewer_yields_nothing venv \<longleftrightarrow>
     element_info venv \<noteq> None \<or>
     (keyboard_download venv = None \<and> first_download (take 6 (button_downloads venv)) = None)"

text \<open>
  From \<open>w\<close> to \<open>w'\<close> the browser has been called, and only with calls of \<open>S\<close>; and from
  \<open>w\<close> to \<open>w'\<close> nothing has been written but, at most, bytes with the PDF magic under \<open>p\<close>.
\<close>

definition extends :: "browser_action set \<Rightarrow> world \<Rightarrow> world \<Rightarrow> bool" where
  "extends S w w' \<longleftrightarrow> (\<exists>tr. browser w' = browser w @ tr \<and> set tr \<subseteq> S)"

definition wrote_pdf :: "string \<Rightarrow> world \<Rightarrow> world \<Rightarrow> bool" where
  "wrote_pdf p w w' \<longleftrightarrow>
     files w' = files w \<or> (\<exists>b. files w' = (files w)(p \<mapsto> b) \<and> startswith b ''%PDF'')"

text \<open>
  A return to the results page that ends well, and a recovery that fails with the
  recovery error: the case entry page is reached but the case number cannot be
  re-submitted or the results page does not load.
\<close>

definition nav_ok :: "nav_env \<Rightarrow> bool" where
  "nav_ok nenv \<longleftrightarrow>
     back_on_results nenv \<or>
     (goto_case_entry (recovery nenv) = None \<and> resubmitted (recovery nenv) \<and>
      results_reloaded (recovery nenv))"

definition recovery_fails :: "nav_env \<Rightarrow> bool" where
  "recovery_fails nenv \<longleftrightarrow>
     \<not> back_on_results nenv \<and> goto_case_entry (recovery nenv) = None \<and>
     (\<not> resubmitted (recovery nenv) \<or> \<not> results_reloaded (recovery nenv))"

definition recovery_error :: "string \<Rightarrow> nav_env \<Rightarrow> string" where
  "recovery_error cn nenv =
     (if \<not> resubmitted (recovery nenv)
      then ''Recovery failed: could not re-submit case number '' @ cn
      else ''Recovery failed: results page did not load for '' @ cn)"

text \<open>
  From \<open>sw\<close> to \<open>sw'\<close> the scraper has kept its client id, its observer, its job and its
  download directory.
\<close>

definition same_scraper :: "CMECFScraper \<times> world \<Rightarrow> CMECFScraper \<times> world \<Rightarrow> bool" where
  "same_scraper sw sw' \<longleftrightarrow>
     scraper_client_id (fst sw') = scraper_client_id (fst sw) \<and>
     on_state_change (state_machine (fst sw')) = on_state_change (state_machine (fst sw)) \<and>
     current_job (fst sw') = current_job (fst sw) \<and>
     downloads_dir (fst sw') = downloads_dir (fst sw)"

text \<open>
  From \<open>sw\<close> to \<open>sw'\<close> the scraper has kept its client id, its observer and its download
  directory, and its job, if it has one, has kept its count of processed cases and its
  case results.
\<close>

definition kept :: "CMECFScraper \<times> world \<Rightarrow> CMECFScraper \<times> world \<Rightarrow> bool" where
  "kept sw sw' \<longleftrightarrow>
     scraper_client_id (fst sw') = scraper_client_id (fst sw) \<and>
     on_state_change (state_machine (fst sw')) = on_state_change (state_machine (fst sw)) \<and>
     downloads_dir (fst sw') = downloads_dir (fst sw) \<and>
     map_option cases_processed (current_job (fst sw')) =
       map_option cases_processed (current_job (fst sw)) \<and>
     map_option case_results (current_job (fst sw')) =
       map_option case_results (current_job (fst sw))"

text \<open>The scraper's observer is the one its constructor registers.\<close>

definition observed :: "CMECFScraper \<times> world \<Rightarrow> bool" where
  "observed sw \<longleftrightarrow>
     on_state_change (state_machine (fst sw)) =
       Some (scraper_on_state_change (scraper_client_id (fst sw)))"

text \<open>A received message that the endpoint routes to \<^verbatim>\<open>set_user_response\<close>.\<close>

fun is_user_response :: "received \<Rightarrow> bool" where
  "is_user_response (Message data) = (py_get data ''type'' = Inr (PStr ''user_response''))"
| "is_user_response (Raised e) = False"

text \<open>The time of an arrival, and an arrival that is an answer of client \<open>c\<close> no later than
  the timeout.\<close>

fun arrival_time :: "arrival \<Rightarrow> real" where
  "arrival_time (Arrival t websocket c r) = t"

fun answers_in_time :: "string \<Rightarrow> real \<Rightarrow> arrival \<Rightarrow> bool" where
  "answers_in_time c timeout (Arrival t websocket c' r) \<longleftrightarrow>
     c' = c \<and> is_user_response r \<and> t \<le> timeout"

section \<open>Concrete inputs\<close>

text \<open>A websocket that accepts every payload, and one whose peer has gone.\<close>

definition accepting_socket :: WebSocket where
  "accepting_socket payload = None"

definition closed_socket :: WebSocket where
  "closed_socket payload = Some (RuntimeError ''Cannot call send once a close message has been sent'')"

text \<open>An observer that fails.\<close>

definition failing_observer :: callback where
  "failing_observer st prev message w = (Inl (RuntimeError ''observer failed''), w)"

text \<open>Session s1 is connected and a task of it is suspended in a decision wait, on future 0.\<close>

definition world_waiting :: world where
  "world_waiting =
     snd (register_future ''s1'' (connect accepting_socket ''s1'' (ConnectionManager_init ''t0'')))"

text \<open>The message with which the operator of a session answers.\<close>

definition answer_message :: pyval where
  "answer_message =
     PDict [(''type'', PStr ''user_response''),
            (''data'', PDict [(''action'', PStr ''select_court''),
                              (''selected_court'', PStr ''District of Nevada'')])]"

text \<open>A PDF viewer from which no download is had, and the handler's world before a capture.\<close>

definition quiet_viewer :: viewer_env where
  "quiet_viewer = \<lparr>element_info = None, keyboard_download = None, button_downloads = []\<rparr>"

text \<open>
  A capture in which the click opens a popup and no request is intercepted before the
  listener and the context route are removed; the popup's own requests carry no PDF.
\<close>

definition popup_env :: click_env where
  "popup_env =
     \<lparr>selector_visible = None, context_routed = None, close_blocked = None, clicked = None,
      race = [NewPage], context_unrouted = None, popup_routed = None, popup_loaded = None,
      popup_requests = [], popup_unrouted = None, popup_viewer = quiet_viewer,
      original_url = Inr ''https://ecf.nvb.uscourts.gov/cgi-bin/DktRpt.pl'',
      original_viewer = quiet_viewer\<rparr>"

text \<open>A capture in which the intercepted response is the four magic bytes and nothing more.\<close>

definition short_pdf_env :: click_env where
  "short_pdf_env =
     \<lparr>selector_visible = None, context_routed = None, close_blocked = None, clicked = None,
      race = [Request ''https://ecf.nvb.uscourts.gov/cgi-bin/show_temp.pl?file=7.pdf''
               (Fetched ''%PDF'' None)],
      context_unrouted = None, popup_routed = None, popup_loaded = None,
      popup_requests = [], popup_unrouted = None, popup_viewer = quiet_viewer,
      original_url = Inr ''https://ecf.nvb.uscourts.gov/cgi-bin/DktRpt.pl'',
      original_viewer = quiet_viewer\<rparr>"

text \<open>A response of 100 bytes that is neither a PDF nor HTML.\<close>

definition plain_text_response :: http_outcome where
  "plain_text_response = HttpResponse 200 (replicate 100 CHR ''A'')"

text \<open>
  A return to the results page that lands on the error page, with a recovery in which the
  case number is re-submitted but the results page does not load.
\<close>

definition failing_nav :: nav_env where
  "failing_nav =
     \<lparr>go_back = None, back_on_results = False, back_on_error_page = True,
      recovery = \<lparr>goto_case_entry = None, resubmitted = True, results_reloaded = False,
                  recovered_url = []\<rparr>\<rparr>"

text \<open>An entry whose document page is the error page, and a case with two such entries.\<close>

definition error_page_entry :: entry_env where
  "error_page_entry =
     \<lparr>link_clicked = True,
      document = \<lparr>on_error_page = True, on_document_detail_page = False,
                  click_approach = popup_env, form_data_found = False, form_pdf_url = None,
                  url_fetch = HttpFailed TimeoutError\<rparr>,
      back_nav = failing_nav\<rparr>"

definition transcript_7 :: TranscriptMatch where
  "transcript_7 =
     \<lparr>doc_number = ''7'', filing_date = ''01/02/2024'',
      docket_text = ''Transcript regarding hearing held 01/02/2024'', has_link = True\<rparr>"

definition transcript_9 :: TranscriptMatch where
  "transcript_9 =
     \<lparr>doc_number = ''9'', filing_date = ''02/03/2024'',
      docket_text = ''Transcript regarding hearing held 02/03/2024'', has_link = True\<rparr>"

definition failing_case :: case_env where
  "failing_case =
     \<lparr>submitted = True, results_loaded = True,
      results_url = ''https://ecf.nvb.uscourts.gov/cgi-bin/DktRpt.pl'',
      found = [(transcript_7, error_page_entry), (transcript_9, error_page_entry)]\<rparr>"

text \<open>A case whose docket has no transcript.\<close>

definition nothing_found_case :: case_env where
  "nothing_found_case =
     \<lparr>submitted = True, results_loaded = True,
      results_url = ''https://ecf.nvb.uscourts.gov/cgi-bin/DktRpt.pl'', found = []\<rparr>"

text \<open>A job of two cases: the first meets the failing case, the second a docket with no
  transcript.\<close>

definition two_case_job :: CMECFScrapingJob where
  "two_case_job =
     \<lparr>job_id = ''job-1'', job_status = PENDING, case_numbers = [''20-10001'', ''20-10002''],
      current_case_index = 0, cases_processed = 0, total_transcripts_found = 0,
      total_transcripts_downloaded = 0, case_results = Map.empty, downloads = [],
      job_errors = [], started_at = None, completed_at = None\<rparr>"

definition failing_job_env :: job_env where
  "failing_job_env =
     \<lparr>initialized = None, logged_in = Inr True,
      case_envs = (\<lambda>i. if i = 0 then (None, failing_case) else (None, nothing_found_case))\<rparr>"

section \<open>Properties\<close>

subsection \<open>Auxiliary facts\<close>

lemma logger_fields:
  "futures (logger l m w) = futures w"
  "pending_responses (logger l m w) = pending_responses w"
  "active_connections (logger l m w) = active_connections w"
  "sent (logger l m w) = sent w"
  "now (logger l m w) = now w"
  "logged (logger l m w) = logged w @ [(l, m)]"
  "files (logger l m w) = files w"
  "browser (logger l m w) = browser w"
  "waited (logger l m w) = waited w"
  by (simp_all add: logger_def)

lemma send_event_returns: "fst (send_event c ev w) = Inr ()"
  by (simp add: send_event_def split: option.split prod.split sum.split)

lemma send_event_try_keeps:
  "futures (snd (send_event_try c ws ev w)) = futures w \<and>
   pending_responses (snd (send_event_try c ws ev w)) = pending_responses w"
  by (simp add: send_event_try_def logger_def Let_def split: option.split sum.split)

lemma send_event_keeps:
  "futures (snd (send_event c ev w)) = futures w \<and>
   pending_responses (snd (send_event c ev w)) = pending_responses w"
proof (cases "active_connections w c")
  case None
  then show ?thesis by (simp add: send_event_def)
next
  case (Some ws)
  obtain r w1 where t: "send_event_try c ws ev w = (r, w1)" by (cases "send_event_try c ws ev w")
  with send_event_try_keeps[of c ws ev w] have "futures w1 = futures w" "pending_responses w1 = pending_responses w"
    by simp_all
  then show ?thesis using Some t by (cases r) (simp_all add: send_event_def logger_def)
qed

lemma set_user_response_pending:
  "pending_responses (snd (set_user_response c d w)) = pending_responses w \<and>
   length (futures (snd (set_user_response c d w))) = length (futures w)"
  by (simp add: set_user_response_def set_result_def logger_def split: option.split)

lemma set_user_response_other:
  "pending_responses w c \<noteq> Some a \<Longrightarrow> futures (snd (set_user_response c d w)) ! a = futures w ! a"
  by (auto simp add: set_user_response_def set_result_def logger_def split: option.split)


lemma endpoint_except_keeps:
  "pending_responses (endpoint_except c e w) = pending_responses w \<and>
   futures (endpoint_except c e w) = futures w"
  by (simp add: disconnect_def endpoint_except_def logger_def split: option.split)

lemma endpoint_step_pending:
  "pending_responses (snd (endpoint_step ws c r w)) = pending_responses w \<and>
   length (futures (snd (endpoint_step ws c r w))) = length (futures w)"
proof (cases r)
  case (Raised e)
  then show ?thesis by (simp add: endpoint_step_def endpoint_except_keeps)
next
  case (Message data)
  let ?w1 = "logger DEBUG (''Received from '' @ c) w"
  have k: "pending_responses ?w1 = pending_responses w" "futures ?w1 = futures w"
    by (simp_all add: logger_def)
  have s: "pending_responses (snd (set_user_response c d ?w1)) = pending_responses w"
          "length (futures (snd (set_user_response c d ?w1))) = length (futures w)" for d
    using set_user_response_pending[of c d ?w1] k by simp_all
  show ?thesis using Message k s
    by (simp add: endpoint_step_def Let_def endpoint_except_keeps case_prod_beta logger_fields
             split: sum.split option.split)
qed

lemma endpoint_step_other:
  assumes "\<not> (c = cid \<and> is_user_response r)"
      and "\<forall>c'. pending_responses w c' = Some a \<longrightarrow> c' = cid"
  shows "futures (snd (endpoint_step ws c r w)) ! a = futures w ! a"
proof (cases r)
  case (Raised e)
  then show ?thesis by (simp add: endpoint_step_def endpoint_except_keeps)
next
  case (Message data)
  let ?w1 = "logger DEBUG (''Received from '' @ c) w"
  have k: "pending_responses ?w1 = pending_responses w" "futures ?w1 = futures w"
    by (simp_all add: logger_def)
  have s: "futures (snd (set_user_response c d ?w1)) ! a = futures w ! a"
    if "py_get data ''type'' = Inr (PStr ''user_response'')" for d
  proof -
    from that assms(1) Message have "c \<noteq> cid" by auto
    with assms(2) have "pending_responses ?w1 c \<noteq> Some a" using k by auto
    from set_user_response_other[OF this] show ?thesis using k by simp
  qed
  show ?thesis using Message k s
    by (simp add: endpoint_step_def Let_def endpoint_except_keeps case_prod_beta logger_fields
             split: sum.split option.split)
qed


lemma endpoint_except_waited: "waited (endpoint_except c e w) = waited w"
  by (simp add: disconnect_def endpoint_except_def logger_def split: option.split)

lemma set_user_response_waited: "waited (snd (set_user_response c d w)) = waited w"
  by (simp add: set_user_response_def set_result_def logger_def split: option.split)

lemma endpoint_step_waited: "waited (snd (endpoint_step ws c r w)) = waited w"
proof (cases r)
  case (Raised e)
  then show ?thesis by (simp add: endpoint_step_def endpoint_except_waited)
next
  case (Message data)
  let ?w1 = "logger DEBUG (''Received from '' @ c) w"
  have s: "waited (snd (set_user_response c d ?w1)) = waited w" for d
    by (simp add: set_user_response_waited logger_fields)
  show ?thesis using Message s
    by (simp add: endpoint_step_def Let_def endpoint_except_waited case_prod_beta logger_fields
             split: sum.split option.split)
qed


lemma endpoint_step_answer:
  assumes "py_get data ''type'' = Inr (PStr ''user_response'')"
      and "py_get data ''data'' = Inr d"
      and "pending_responses w c = Some a" and "futures w ! a = Pending"
      and "a < length (futures w)"
  shows "futures (snd (endpoint_step ws c (Message data) w)) ! a = Result d"
  using assms
  by (simp add: endpoint_step_def Let_def set_user_response_def set_result_def logger_def)

lemma deliver_done: "is_done (futures w ! a) \<Longrightarrow> deliver a timeout start arrivals w = w"
proof (cases arrivals)
  case Nil
  then show ?thesis by simp
next
  case (Cons x xs)
  assume "is_done (futures w ! a)"
  then show ?thesis using Cons by (cases x) simp
qed

lemma deliver_frame:
  "pending_responses (deliver a timeout start arrivals w) = pending_responses w \<and>
   length (futures (deliver a timeout start arrivals w)) = length (futures w)"
proof (induction arrivals arbitrary: w)
  case Nil
  then show ?case by simp
next
  case (Cons x xs)
  obtain t ws c r where x: "x = Arrival t ws c r" by (cases x)
  show ?case
    using x Cons.IH[of "snd (endpoint_step ws c r (w\<lparr>waited := start + t\<rparr>))"]
      endpoint_step_pending[of ws c r "w\<lparr>waited := start + t\<rparr>"]
    by simp
qed


lemma deliver_quiet:
  assumes "\<forall>x\<in>set arrivals. \<not> answers_in_time cid timeout x"
      and "\<forall>c'. pending_responses w c' = Some a \<longrightarrow> c' = cid"
      and "futures w ! a = Pending"
  shows "futures (deliver a timeout start arrivals w) ! a = Pending"
  using assms
proof (induction arrivals arbitrary: w)
  case Nil
  then show ?case by simp
next
  case (Cons x xs)
  obtain t ws c r where x: "x = Arrival t ws c r" by (cases x)
  show ?case
  proof (cases "timeout < t")
    case True
    then show ?thesis using Cons.prems x by simp
  next
    case False
    with Cons.prems(1) x have q: "\<not> (c = cid \<and> is_user_response r)" by auto
    let ?v = "w\<lparr>waited := start + t\<rparr>"
    let ?w = "snd (endpoint_step ws c r ?v)"
    have o: "\<forall>c'. pending_responses ?v c' = Some a \<longrightarrow> c' = cid" using Cons.prems(2) by simp
    have p: "pending_responses ?w = pending_responses w"
      using endpoint_step_pending[of ws c r ?v] by simp
    have f: "futures ?w ! a = Pending"
      using endpoint_step_other[OF q o] Cons.prems(3) by simp
    have "futures (deliver a timeout start xs ?w) ! a = Pending"
      using Cons.IH[of ?w] Cons.prems(1,2) p f by simp
    then show ?thesis using x False Cons.prems(3) by simp
  qed
qed

lemma deliver_answer_first:
  assumes "pending_responses w cid = Some a"
      and "futures w ! a = Pending" and "a < length (futures w)"
      and "t \<le> timeout"
      and "py_get data ''type'' = Inr (PStr ''user_response'')"
      and "py_get data ''data'' = Inr d"
  shows "futures (deliver a timeout start (Arrival t ws cid (Message data) # rest) w) ! a = Result d \<and>
         waited (deliver a timeout start (Arrival t ws cid (Message data) # rest) w) = start + t"
proof -
  let ?v = "w\<lparr>waited := start + t\<rparr>"
  let ?w = "snd (endpoint_step ws cid (Message data) ?v)"
  have f: "futures ?w ! a = Result d"
    using endpoint_step_answer[OF assms(5,6), of ?v cid a ws] assms(1,2,3) by simp
  have c: "waited ?w = start + t" by (simp add: endpoint_step_waited)
  have e: "deliver a timeout start rest ?w = ?w" by (rule deliver_done) (simp add: f)
  have n: "\<not> (is_done (futures w ! a) \<or> timeout < t)" using assms(2,4) by simp
  show ?thesis
    by (simp only: deliver.simps n if_False e f c simp_thms)
qed

lemma deliver_answered:
  assumes "\<forall>x\<in>set pre. arrival_time x \<le> timeout \<and> \<not> answers_in_time cid timeout x"
      and "\<forall>c'. pending_responses w c' = Some a \<longrightarrow> c' = cid"
      and "pending_responses w cid = Some a"
      and "futures w ! a = Pending" and "a < length (futures w)"
      and "t \<le> timeout"
      and "py_get data ''type'' = Inr (PStr ''user_response'')"
      and "py_get data ''data'' = Inr d"
  shows "futures (deliver a timeout start (pre @ Arrival t ws cid (Message data) # rest) w) ! a = Result d \<and>
         waited (deliver a timeout start (pre @ Arrival t ws cid (Message data) # rest) w) = start + t"
  using assms(1-5)
proof (induction pre arbitrary: w)
  case Nil
  from deliver_answer_first[OF Nil.prems(3,4,5) assms(6,7,8)]
  show ?case by (simp only: append_Nil)
next
  case (Cons x xs)
  obtain t' ws' c' r' where x: "x = Arrival t' ws' c' r'" by (cases x)
  from Cons.prems(1) x have i: "t' \<le> timeout" and q: "\<not> (c' = cid \<and> is_user_response r')"
    by auto
  from Cons.prems(1) have r: "\<forall>x\<in>set xs. arrival_time x \<le> timeout \<and> \<not> answers_in_time cid timeout x"
    by simp
  let ?v = "w\<lparr>waited := start + t'\<rparr>"
  let ?w = "snd (endpoint_step ws' c' r' ?v)"
  have o: "\<forall>c'. pending_responses ?v c' = Some a \<longrightarrow> c' = cid" using Cons.prems(2) by simp
  have p: "pending_responses ?w = pending_responses w" "length (futures ?w) = length (futures w)"
    using endpoint_step_pending[of ws' c' r' ?v] by simp_all
  have f: "futures ?w ! a = Pending"
    using endpoint_step_other[OF q o] Cons.prems(4) by simp
  have o': "\<forall>c'. pending_responses ?w c' = Some a \<longrightarrow> c' = cid"
    using Cons.prems(2) by (simp only: p)
  have n: "\<not> (is_done (futures w ! a) \<or> timeout < t')" using Cons.prems(4) i by simp
  have h: "futures (deliver a timeout start (xs @ Arrival t ws cid (Message data) # rest) ?w) ! a = Result d \<and>
        waited (deliver a timeout start (xs @ Arrival t ws cid (Message data) # rest) ?w) = start + t"
    using Cons.IH[OF r o' _ f] Cons.prems(3,5) by (simp only: p)
  show ?case
    by (simp only: x append_Cons deliver.simps n if_False h simp_thms)
qed


lemma register_future_facts:
  "fst (register_future c w) = length (futures w) \<and>
   futures (snd (register_future c w)) = futures w @ [Pending] \<and>
   pending_responses (snd (register_future c w)) = (pending_responses w)(c \<mapsto> length (futures w)) \<and>
   waited (snd (register_future c w)) = waited w"
  by (simp add: register_future_def Let_def)

text \<open>
  The world in which the task resumes from \<^verbatim>\<open>asyncio.wait_for\<close>, before the outcome is
  looked at; the call in terms of it.
\<close>

lemma wait_unfold:
  fixes c timeout arrivals w
  defines "a \<equiv> length (futures w)"
  defines "w1 \<equiv> snd (register_future c w)"
  defines "w2 \<equiv> (if timeout \<le> 0 then w1 else deliver a timeout (waited w1) arrivals w1)"
  shows "wait_for_user_response c timeout arrivals w =
           (case futures w2 ! a of
              Result v \<Rightarrow> (Inr v, wait_finally c w2)
            | Pending \<Rightarrow>
                (Inr PNone,
                 wait_finally c
                   (logger WARNING (''Timeout waiting for user response from '' @ c)
                      (w2\<lparr>futures := (futures w2)[a := Cancelled],
                          waited := waited w1 + max 0 timeout\<rparr>)))
            | Cancelled \<Rightarrow> (Inl (OtherError ''CancelledError''), wait_finally c w2))"
    and "pending_responses w2 = (pending_responses w)(c \<mapsto> a)"
    and "length (futures w2) = Suc (length (futures w))"
proof -
  have r: "register_future c w = (a, w1)"
    by (simp add: a_def w1_def register_future_def Let_def)
  show "wait_for_user_response c timeout arrivals w =
           (case futures w2 ! a of
              Result v \<Rightarrow> (Inr v, wait_finally c w2)
            | Pending \<Rightarrow>
                (Inr PNone,
                 wait_finally c
                   (logger WARNING (''Timeout waiting for user response from '' @ c)
                      (w2\<lparr>futures := (futures w2)[a := Cancelled],
                          waited := waited w1 + max 0 timeout\<rparr>)))
            | Cancelled \<Rightarrow> (Inl (OtherError ''CancelledError''), wait_finally c w2))"
    by (cases "futures w2 ! a")
       (simp_all add: wait_for_user_response_def wait_for_def r w2_def Let_def)
  show "pending_responses w2 = (pending_responses w)(c \<mapsto> a)"
    by (simp add: w2_def w1_def a_def deliver_frame register_future_facts)
  show "length (futures w2) = Suc (length (futures w))"
    by (simp add: w2_def w1_def a_def deliver_frame register_future_facts)
qed

lemma wait_finally_fields:
  "pending_responses (wait_finally c w) = (pending_responses w)(c := None)"
  "futures (wait_finally c w) = futures w"
  "waited (wait_finally c w) = waited w"
  "logged (wait_finally c w) = logged w"
  by (auto simp add: wait_finally_def split: option.split)


lemma wait_frame:
  "pending_responses (snd (wait_for_user_response c timeout arrivals w)) =
     (pending_responses w)(c := None) \<and>
   length (futures (snd (wait_for_user_response c timeout arrivals w))) = Suc (length (futures w))"
proof -
  let ?a = "length (futures w)"
  let ?w1 = "snd (register_future c w)"
  let ?w2 = "if timeout \<le> 0 then ?w1 else deliver ?a timeout (waited ?w1) arrivals ?w1"
  note u = wait_unfold[where c=c and timeout=timeout and arrivals=arrivals and w=w]
  show ?thesis
    by (cases "futures ?w2 ! ?a")
       (simp_all add: u wait_finally_fields logger_fields)
qed


lemma wait_times_out:
  assumes "wf_world w" and "\<forall>x\<in>set arrivals. \<not> answers_in_time c timeout x"
  shows "fst (wait_for_user_response c timeout arrivals w) = Inr PNone \<and>
         last (logged (snd (wait_for_user_response c timeout arrivals w))) =
           (WARNING, ''Timeout waiting for user response from '' @ c) \<and>
         waited (snd (wait_for_user_response c timeout arrivals w)) = waited w + max 0 timeout \<and>
         futures (snd (wait_for_user_response c timeout arrivals w)) ! length (futures w) = Cancelled"
proof -
  let ?a = "length (futures w)"
  let ?w1 = "snd (register_future c w)"
  let ?w2 = "if timeout \<le> 0 then ?w1 else deliver ?a timeout (waited ?w1) arrivals ?w1"
  note u = wait_unfold[where c=c and timeout=timeout and arrivals=arrivals and w=w]
  have own: "\<forall>c'. pending_responses ?w1 c' = Some ?a \<longrightarrow> c' = c"
    using assms(1) by (auto simp add: register_future_facts wf_world_def)
  have pend: "futures ?w1 ! ?a = Pending" by (simp add: register_future_facts)
  from deliver_quiet[OF assms(2) own pend]
  have p: "futures ?w2 ! ?a = Pending" using pend by simp
  show ?thesis
    using u(3) by (simp add: u(1) p wait_finally_fields logger_fields register_future_facts)
qed

lemma wait_answered:
  assumes "wf_world w" and "0 < timeout"
      and "\<forall>x\<in>set pre. arrival_time x \<le> timeout \<and> \<not> answers_in_time c timeout x"
      and "t \<le> timeout"
      and "py_get data ''type'' = Inr (PStr ''user_response'')"
      and "py_get data ''data'' = Inr d"
  shows "fst (wait_for_user_response c timeout (pre @ Arrival t ws c (Message data) # rest) w) = Inr d \<and>
         waited (snd (wait_for_user_response c timeout (pre @ Arrival t ws c (Message data) # rest) w)) =
           waited w + t \<and>
         futures (snd (wait_for_user_response c timeout (pre @ Arrival t ws c (Message data) # rest) w)) !
           length (futures w) = Result d"
proof -
  let ?a = "length (futures w)"
  let ?arr = "pre @ Arrival t ws c (Message data) # rest"
  let ?w1 = "snd (register_future c w)"
  let ?w2 = "if timeout \<le> 0 then ?w1 else deliver ?a timeout (waited ?w1) ?arr ?w1"
  note u = wait_unfold[where c=c and timeout=timeout and arrivals="?arr" and w=w]
  have own: "\<forall>c'. pending_responses ?w1 c' = Some ?a \<longrightarrow> c' = c"
    using assms(1) by (auto simp add: register_future_facts wf_world_def)
  have reg: "pending_responses ?w1 c = Some ?a" "futures ?w1 ! ?a = Pending"
    "?a < length (futures ?w1)"
    by (simp_all add: register_future_facts)
  from deliver_answered[OF assms(3) own reg assms(4,5,6), of "waited ?w1" ws rest]
  have p: "futures ?w2 ! ?a = Result d" "waited ?w2 = waited w + t"
    using assms(2) by (simp_all add: register_future_facts)
  show ?thesis by (simp add: u(1) p wait_finally_fields)
qed

lemma wf_world_init: "wf_world (ConnectionManager_init t)"
  by (simp add: wf_world_def ConnectionManager_init_def)

lemma wf_world_register: "wf_world w \<Longrightarrow> wf_world (snd (register_future c w))"
  by (auto simp add: wf_world_def register_future_facts less_Suc_eq)

lemma wf_world_set_user_response: "wf_world w \<Longrightarrow> wf_world (snd (set_user_response c d w))"
  using set_user_response_pending[of c d w] by (simp add: wf_world_def)

lemma wf_world_disconnect: "wf_world w \<Longrightarrow> wf_world (disconnect c w)"
  by (simp add: wf_world_def disconnect_def logger_fields split: option.split)

lemma transition_to_scraper:
  assumes "on_state_change sm = Some (scraper_on_state_change c)"
  shows "fst (transition_to s m (sm, w)) = Inr () \<and>
         futures (snd (snd (transition_to s m (sm, w)))) = futures w \<and>
         pending_responses (snd (snd (transition_to s m (sm, w)))) = pending_responses w"
  using assms
  by (simp add: transition_to_def Let_def scraper_on_state_change_def send_state_change_def
        case_prod_beta send_event_returns send_event_keeps logger_fields)

lemma send_court_selection_keeps:
  "fst (send_court_selection c u xs ys zs w) = Inr () \<and>
   futures (snd (send_court_selection c u xs ys zs w)) = futures w \<and>
   pending_responses (snd (send_court_selection c u xs ys zs w)) = pending_responses w"
  by (simp add: send_court_selection_def send_event_returns send_event_keeps)

lemma send_event_waited: "waited (snd (send_event c ev w)) = waited w"
  by (simp add: send_event_def send_event_try_def logger_def Let_def case_prod_beta
        split: option.split sum.split)

lemma handler_prompt_waited:
  assumes "on_state_change sm = Some (scraper_on_state_change c)"
  shows "waited (snd (snd (transition_to s m (sm, w)))) = waited w"
    and "waited (snd (send_court_selection c u xs ys zs w)) = waited w"
  using assms
  by (simp_all add: transition_to_def Let_def scraper_on_state_change_def send_state_change_def
        send_court_selection_def case_prod_beta send_event_waited logger_fields)

lemma transition_to_machine:
  "fst (snd (transition_to s m (sm, w))) =
     sm\<lparr>previous_state := Some (current_state sm), current_state := s,
        state_history := state_history sm @
          [\<lparr>h_state = s, h_previous_state = Some (current_state sm), h_message = m, h_timestamp = now w\<rparr>]\<rparr>"
  by (simp add: transition_to_def Let_def split: option.split prod.split)

lemma chained_step:
  assumes "chained h cur"
  shows "chained (h @ [\<lparr>h_state = s, h_previous_state = Some cur, h_message = m, h_timestamp = t\<rparr>]) s"
proof -
  have "h_previous_state ((h @ [e]) ! Suc i) = Some (h_state ((h @ [e]) ! i))"
    if "Suc i < length (h @ [e])" and e: "h_previous_state e = Some cur" for i e
  proof (cases "Suc i < length h")
    case True
    then show ?thesis using assms by (simp add: chained_def nth_append)
  next
    case False
    with that have i: "Suc i = length h" by simp
    then have "h \<noteq> []" by auto
    then have "h_state (last h) = cur" using assms by (simp add: chained_def)
    moreover have "last h = h ! i" using i \<open>h \<noteq> []\<close> by (metis last_conv_nth diff_Suc_1)
    ultimately show ?thesis using i e by (simp add: nth_append)
  qed
  then show ?thesis unfolding chained_def by simp
qed

lemma run_op_chained:
  "chained (state_history (fst smw)) (current_state (fst smw)) \<Longrightarrow>
   chained (state_history (fst (run_op x smw))) (current_state (fst (run_op x smw)))"
proof (cases x)
  case (TransitionTo s m)
  assume c: "chained (state_history (fst smw)) (current_state (fst smw))"
  obtain sm w where smw: "smw = (sm, w)" by (cases smw)
  show ?thesis using chained_step[OF c, of s m "now (snd smw)"]
    by (simp add: TransitionTo smw transition_to_machine)
qed (auto simp: set_state_change_callback_def update_context_def clear_context_def split: prod.splits)

lemma run_ops_chained:
  "chained (state_history (fst smw)) (current_state (fst smw)) \<Longrightarrow>
   chained (state_history (fst (run_ops xs smw))) (current_state (fst (run_ops xs smw)))"
  by (induction xs arbitrary: smw) (simp_all add: run_op_chained)

lemma act_fields:
  "files (act a w) = files w"
  "browser (act a w) = browser w @ [a]"
  "logged (act a w) = logged w"
  by (simp_all add: act_def)

lemma write_file_fields:
  "files (write_file p c w) = (files w)(p \<mapsto> c)"
  "browser (write_file p c w) = browser w"
  by (simp_all add: write_file_def)

lemma intercept_keeps:
  "files (snd (intercept_pdf_response url fo cw)) = files (snd cw) \<and>
   browser (snd (intercept_pdf_response url fo cw)) = browser (snd cw)"
  by (cases cw) (simp add: intercept_pdf_response_def Let_def logger_fields
        split: fetch_outcome.split option.split)

lemma intercept_magic:
  assumes "\<forall>b. fst cw = Some b \<longrightarrow> startswith b ''%PDF''"
  shows "\<forall>b. fst (intercept_pdf_response url fo cw) = Some b \<longrightarrow> startswith b ''%PDF''"
  using assms
  by (cases cw) (simp add: intercept_pdf_response_def Let_def split: fetch_outcome.split option.split)

lemma intercept_none:
  assumes "fst cw = None" "\<not> captures url fo"
  shows "fst (intercept_pdf_response url fo cw) = None"
  using assms
  by (cases cw; cases fo) (auto simp add: intercept_pdf_response_def Let_def split: option.split)

lemma run_race_keeps:
  "files (snd (run_race es s)) = files (snd s) \<and> browser (snd (run_race es s)) = browser (snd s)"
proof (induction es s rule: run_race.induct)
  case (3 url fo es s)
  obtain c w where i: "intercept_pdf_response url fo (fst (fst s), snd s) = (c, w)"
    by (cases "intercept_pdf_response url fo (fst (fst s), snd s)")
  with intercept_keeps[of url fo "(fst (fst s), snd s)"] 3[OF i[symmetric]] show ?case by simp
qed (simp_all add: logger_fields)

lemma run_race_magic:
  "(\<forall>b. fst (fst s) = Some b \<longrightarrow> startswith b ''%PDF'') \<Longrightarrow>
   (\<forall>b. fst (fst (run_race es s)) = Some b \<longrightarrow> startswith b ''%PDF'')"
proof (induction es s rule: run_race.induct)
  case (3 url fo es s)
  obtain c w where i: "intercept_pdf_response url fo (fst (fst s), snd s) = (c, w)"
    by (cases "intercept_pdf_response url fo (fst (fst s), snd s)")
  from intercept_magic[of "(fst (fst s), snd s)" url fo] 3(2) i
  have "\<forall>b. c = Some b \<longrightarrow> startswith b ''%PDF''" by simp
  with 3(1)[OF i[symmetric]] i show ?case by simp
qed simp_all

lemma run_race_none:
  "fst (fst s) = None \<Longrightarrow> \<forall>e\<in>set es. \<not> race_captures e \<Longrightarrow> fst (fst (run_race es s)) = None"
proof (induction es s rule: run_race.induct)
  case (3 url fo es s)
  obtain c w where i: "intercept_pdf_response url fo (fst (fst s), snd s) = (c, w)"
    by (cases "intercept_pdf_response url fo (fst (fst s), snd s)")
  from intercept_none[of "(fst (fst s), snd s)" url fo] 3(2,3) i have "c = None" by simp
  with 3(1)[OF i[symmetric]] 3(3) i show ?case by simp
qed simp_all

lemma run_race_new_page:
  "snd (fst (run_race es s)) \<longleftrightarrow> snd (fst s) \<or> NewPage \<in> set es"
proof (induction es s rule: run_race.induct)
  case (3 url fo es s)
  obtain c w where i: "intercept_pdf_response url fo (fst (fst s), snd s) = (c, w)"
    by (cases "intercept_pdf_response url fo (fst (fst s), snd s)")
  with 3[OF i[symmetric]] show ?case by simp
qed simp_all

lemma run_requests_keeps:
  "files (snd (run_requests rs cw)) = files (snd cw) \<and>
   browser (snd (run_requests rs cw)) = browser (snd cw)"
  by (induction rs cw rule: run_requests.induct) (simp_all add: intercept_keeps)

lemma run_requests_magic:
  "(\<forall>b. fst cw = Some b \<longrightarrow> startswith b ''%PDF'') \<Longrightarrow>
   (\<forall>b. fst (run_requests rs cw) = Some b \<longrightarrow> startswith b ''%PDF'')"
proof (induction rs cw rule: run_requests.induct)
  case (2 url fo rs cw)
  have "\<forall>b. fst (intercept_pdf_response url fo cw) = Some b \<longrightarrow> startswith b ''%PDF''"
    by (rule intercept_magic[OF 2(2)])
  from 2(1)[OF this] show ?case by (simp only: run_requests.simps)
qed (simp only: run_requests.simps)

lemma run_requests_none:
  "fst cw = None \<Longrightarrow> \<forall>(url, fo)\<in>set rs. \<not> captures url fo \<Longrightarrow> fst (run_requests rs cw) = None"
proof (induction rs cw rule: run_requests.induct)
  case (2 url fo rs cw)
  from 2(3) have "\<not> captures url fo" "\<forall>(url, fo)\<in>set rs. \<not> captures url fo" by simp_all
  from intercept_none[OF 2(2) this(1)] 2(1)[OF _ this(2)] show ?case
    by (simp only: run_requests.simps)
qed (simp only: run_requests.simps)

lemma viewer_nothing:
  "viewer_yields_nothing venv \<Longrightarrow>
   fst (download_from_pdf_viewer venv p w) = None \<and>
   files (snd (download_from_pdf_viewer venv p w)) = files w \<and>
   browser (snd (download_from_pdf_viewer venv p w)) = browser w"
  by (auto simp add: viewer_yields_nothing_def download_from_pdf_viewer_def Let_def logger_fields
        split: option.split)

lemma viewer_trace:
  "\<exists>tr. browser (snd (download_from_pdf_viewer venv p w)) = browser w @ tr \<and> set tr \<subseteq> {SaveDownload}"
  by (simp add: download_from_pdf_viewer_def Let_def logger_fields save_as_def act_fields
        write_file_fields split: option.split)

lemma popup_except_fields:
  "files (popup_except env e w) = files w"
  "\<exists>tr. browser (popup_except env e w) = browser w @ tr \<and> set tr \<subseteq> {UnroutePopup}"
  by (simp_all add: popup_except_def Let_def logger_fields act_fields split: option.split)

lemma click_finally_fields:
  "files (click_finally env w) = files w"
  "\<exists>tr. browser (click_finally env w) = browser w @ tr \<and> set tr \<subseteq> {RemovePageListener, UnrouteContext}"
  by (simp_all add: click_finally_def Let_def logger_fields act_fields split: option.split)

lemma original_trace:
  "\<exists>tr. browser (snd (original_page_stage p env w)) = browser w @ tr \<and> set tr \<subseteq> {SaveDownload}"
proof (cases "original_url env")
  case (Inl e)
  then show ?thesis by (simp add: original_page_stage_def Let_def logger_fields)
next
  case (Inr url)
  let ?w1 = "logger INFO (''Original page URL after click: '' @ url)
               (logger INFO ''Checking if original page has PDF viewer...'' w)"
  obtain r w2 where d: "download_from_pdf_viewer (original_viewer env) p ?w1 = (r, w2)"
    by (cases "download_from_pdf_viewer (original_viewer env) p ?w1")
  from viewer_trace[of "original_viewer env" p ?w1] d
  obtain tr where "browser w2 = browser w @ tr" "set tr \<subseteq> {SaveDownload}"
    by (auto simp add: logger_fields)
  then show ?thesis using Inr d
    by (cases r) (simp_all add: original_page_stage_def Let_def logger_fields)
qed

lemma original_nothing:
  "viewer_yields_nothing (original_viewer env) \<Longrightarrow>
   fst (original_page_stage p env w) = None \<and> files (snd (original_page_stage p env w)) = files w"
  by (simp add: original_page_stage_def Let_def logger_fields case_prod_beta viewer_nothing
        split: sum.split option.split)

lemma extends_refl: "extends S w w"
  by (simp add: extends_def)

lemma extends_mono: "extends S w w' \<Longrightarrow> S \<subseteq> T \<Longrightarrow> extends T w w'"
  by (auto simp add: extends_def)

lemma extends_logger: "extends S w (logger l m x) = extends S w x"
  by (simp add: extends_def logger_fields)

lemma extends_write: "extends S w (write_file p c x) = extends S w x"
  by (simp add: extends_def write_file_fields)

lemma extends_act: "extends S w x \<Longrightarrow> a \<in> S \<Longrightarrow> extends S w (act a x)"
  by (auto simp add: extends_def act_fields)

lemma extends_same: "browser y = browser x \<Longrightarrow> extends S w y = extends S w x"
  by (simp add: extends_def)

lemma extends_then:
  assumes "extends S w x" and "\<exists>tr. browser y = browser x @ tr \<and> set tr \<subseteq> T" and "T \<subseteq> S"
  shows "extends S w y"
  using assms by (auto simp add: extends_def)

lemma extends_viewer:
  "extends S w x \<Longrightarrow> SaveDownload \<in> S \<Longrightarrow> extends S w (snd (download_from_pdf_viewer venv p x))"
  by (rule extends_then[OF _ viewer_trace]) simp_all

lemma extends_popup_except:
  "extends S w x \<Longrightarrow> UnroutePopup \<in> S \<Longrightarrow> extends S w (popup_except env e x)"
  by (rule extends_then[OF _ popup_except_fields(2)]) simp_all

lemma extends_requests:
  "extends S w (snd (run_requests rs cw)) = extends S w (snd cw)"
  by (rule extends_same) (simp add: run_requests_keeps)

lemma popup_trace:
  assumes "extends S w x" "{RoutePopup, WaitPopupLoad, UnroutePopup, SaveDownload} \<subseteq> S"
  shows "extends S w (snd (popup_stage p env c x))"
  using assms
  by (simp add: popup_stage_def Let_def case_prod_beta extends_logger extends_write
        extends_act extends_viewer extends_popup_except extends_requests
        split: option.split)

lemma extends_original:
  "extends S w x \<Longrightarrow> SaveDownload \<in> S \<Longrightarrow> extends S w (snd (original_page_stage p env x))"
  by (rule extends_then[OF _ original_trace]) simp_all

lemma extends_finally:
  "extends S w x \<Longrightarrow> {RemovePageListener, UnrouteContext} \<subseteq> S \<Longrightarrow> extends S w (click_finally env x)"
  by (rule extends_then[OF _ click_finally_fields(2)]) simp_all

lemma wrote_refl: "wrote_pdf p w w"
  by (simp add: wrote_pdf_def)

lemma wrote_same: "files y = files x \<Longrightarrow> wrote_pdf p w y = wrote_pdf p w x"
  by (simp add: wrote_pdf_def)

lemma wrote_logger: "wrote_pdf p w (logger l m x) = wrote_pdf p w x"
  by (simp add: wrote_pdf_def logger_fields)

lemma wrote_act: "wrote_pdf p w (act a x) = wrote_pdf p w x"
  by (simp add: wrote_pdf_def act_fields)

lemma wrote_write:
  "wrote_pdf p w x \<Longrightarrow> startswith b ''%PDF'' \<Longrightarrow> wrote_pdf p w (write_file p b x)"
  by (auto simp add: wrote_pdf_def write_file_fields)

lemma wrote_viewer:
  "viewer_yields_nothing venv \<Longrightarrow>
   wrote_pdf p w (snd (download_from_pdf_viewer venv q x)) = wrote_pdf p w x"
  by (rule wrote_same) (simp add: viewer_nothing)

lemma wrote_popup_except: "wrote_pdf p w (popup_except env e x) = wrote_pdf p w x"
  by (rule wrote_same) (simp add: popup_except_fields)

lemma wrote_requests: "wrote_pdf p w (snd (run_requests rs cw)) = wrote_pdf p w (snd cw)"
  by (rule wrote_same) (simp add: run_requests_keeps)

lemma content_magic:
  "has_content c \<Longrightarrow> \<forall>b. c = Some b \<longrightarrow> startswith b ''%PDF'' \<Longrightarrow> startswith (content_of c) ''%PDF''"
  by (cases c) simp_all

lemma popup_wrote:
  assumes "wrote_pdf p w x" and "\<forall>b. c = Some b \<longrightarrow> startswith b ''%PDF''"
      and "viewer_yields_nothing (popup_viewer env)"
  shows "wrote_pdf p w (snd (popup_stage p env c x))"
proof -
  let ?rq = "run_requests (popup_requests env)
      (c, act WaitPopupLoad (logger INFO ''Waiting for popup to load...''
            (act RoutePopup (logger INFO ''Handling new popup window with PDF interception...'' x))))"
  have m: "\<forall>b. fst ?rq = Some b \<longrightarrow> startswith b ''%PDF''"
    by (rule run_requests_magic) (simp add: assms(2))
  have k: "has_content (fst ?rq) \<Longrightarrow> startswith (content_of (fst ?rq)) ''%PDF''"
    using content_magic[OF _ m] by simp
  show ?thesis using assms(1,3) k
    by (simp add: popup_stage_def Let_def case_prod_beta wrote_logger wrote_act wrote_write
          wrote_viewer wrote_popup_except wrote_requests split: option.split)
qed

lemma popup_nothing:
  assumes "c = None" and "\<forall>(url, fo)\<in>set (popup_requests env). \<not> captures url fo"
      and "viewer_yields_nothing (popup_viewer env)"
  shows "fst (popup_stage p env c x) = None \<and> files (snd (popup_stage p env c x)) = files x"
proof -
  let ?rq = "run_requests (popup_requests env)
      (c, act WaitPopupLoad (logger INFO ''Waiting for popup to load...''
            (act RoutePopup (logger INFO ''Handling new popup window with PDF interception...'' x))))"
  have n: "fst ?rq = None" by (rule run_requests_none) (simp_all add: assms)
  show ?thesis using n assms(3)
    by (simp add: popup_stage_def Let_def case_prod_beta popup_except_fields viewer_nothing
          run_requests_keeps act_fields logger_fields split: option.split)
qed

lemma click_and_wait_cases:
  "(\<exists>e. fst (click_and_wait env w) = Inl e \<and>
        extends {RouteContext, BlockWindowClose} w (snd (click_and_wait env w)) \<and>
        files (snd (click_and_wait env w)) = files w) \<or>
   (\<exists>c np. fst (click_and_wait env w) = Inr (c, np) \<and>
        browser (snd (click_and_wait env w)) =
          browser w @ [RouteContext, BlockWindowClose, ClickViewDocument] \<and>
        files (snd (click_and_wait env w)) = files w \<and>
        (\<forall>b. c = Some b \<longrightarrow> startswith b ''%PDF'') \<and>
        (np \<longleftrightarrow> NewPage \<in> set (race env)) \<and>
        ((\<forall>e\<in>set (race env). \<not> race_captures e) \<longrightarrow> c = None))"
proof (cases "context_routed env = None \<and> close_blocked env = None \<and> clicked env = None")
  case False
  then show ?thesis
    by (auto simp add: click_and_wait_def Let_def extends_logger extends_refl extends_act
          logger_fields act_fields split: option.split)
next
  case True
  let ?w4 = "logger INFO ''Clicked! Waiting for PDF interception or new page...''
               (act ClickViewDocument (logger INFO ''Clicking View Document button...''
                  (act BlockWindowClose (act RouteContext
                     (logger INFO ''Setting up PDF route interception on context...'' w)))))"
  let ?r = "run_race (race env) ((None, False), ?w4)"
  have r: "click_and_wait env w = (Inr (fst ?r), snd ?r)"
    using True by (simp add: click_and_wait_def Let_def case_prod_beta)
  have 1: "browser (snd ?r) = browser w @ [RouteContext, BlockWindowClose, ClickViewDocument]"
          "files (snd ?r) = files w"
    by (simp_all add: run_race_keeps logger_fields act_fields)
  have 2: "\<forall>b. fst (fst ?r) = Some b \<longrightarrow> startswith b ''%PDF''"
    by (rule run_race_magic) simp
  have 3: "snd (fst ?r) \<longleftrightarrow> NewPage \<in> set (race env)"
    by (simp add: run_race_new_page)
  have 4: "(\<forall>e\<in>set (race env). \<not> race_captures e) \<longrightarrow> fst (fst ?r) = None"
    using run_race_none[of "((None, False), ?w4)" "race env"] by simp
  show ?thesis
    apply (rule disjI2)
    apply (rule exI[of _ "fst (fst ?r)"])
    apply (rule exI[of _ "snd (fst ?r)"])
    using 1 2 3 4 by (simp add: r prod_eq_iff)
qed

lemma download_pdf_from_url_cases:
  "(fst (download_pdf_from_url dir url cn dn http w) = None \<and>
    files (snd (download_pdf_from_url dir url cn dn http w)) = files w) \<or>
   (\<exists>content. http = HttpResponse 200 content \<and>
      fst (download_pdf_from_url dir url cn dn http w) = Some (pdf_filepath dir cn dn) \<and>
      files (snd (download_pdf_from_url dir url cn dn http w)) =
        (files w)(pdf_filepath dir cn dn \<mapsto> content) \<and>
      100 \<le> length content \<and>
      (startswith content ''%PDF'' \<or> \<not> startswith content ''<''))"
  by (cases http)
     (auto simp add: download_pdf_from_url_def Let_def logger_fields write_file_fields)

lemma after_wait_wrote:
  assumes "viewer_yields_nothing (popup_viewer env)" "viewer_yields_nothing (original_viewer env)"
  shows "wrote_pdf (pdf_filepath dir cn dn) w
           (snd (click_view_document_and_download dir cn dn env w))"
proof (cases "selector_visible env")
  case (Some e)
  then show ?thesis
    by (simp add: click_view_document_and_download_def Let_def click_except_def wrote_logger wrote_refl)
next
  case None
  let ?p = "pdf_filepath dir cn dn"
  let ?wa = "act ListenPage (act WaitForSelector
               (logger INFO ''Preparing to click View Document (with PDF interception)...'' w))"
  let ?cw = "click_and_wait env ?wa"
  let ?w2 = "click_finally env (snd ?cw)"
  have f2: "files ?w2 = files w"
    using click_and_wait_cases[of env ?wa]
    by (auto simp add: click_finally_fields act_fields logger_fields)
  then have w2: "wrote_pdf ?p w ?w2" by (simp add: wrote_pdf_def)
  have o: "wrote_pdf ?p w (snd (original_page_stage ?p env x))" if "wrote_pdf ?p w x" for x
    using that original_nothing[OF assms(2), of ?p x] wrote_same[of "snd (original_page_stage ?p env x)" x ?p w]
    by simp
  show ?thesis
  proof (cases "fst ?cw")
    case (Inl e)
    then show ?thesis using None w2
      by (simp add: click_view_document_and_download_def Let_def case_prod_beta click_except_def
            wrote_logger)
  next
    case (Inr cn')
    obtain c np where cn': "cn' = (c, np)" by (cases cn')
    from click_and_wait_cases[of env ?wa] Inr cn'
    have m: "\<forall>b. c = Some b \<longrightarrow> startswith b ''%PDF''" by auto
    have pw: "wrote_pdf ?p w (snd (popup_stage ?p env c ?w2))"
      by (rule popup_wrote[OF w2 m assms(1)])
    show ?thesis using None Inr cn' w2 pw o[OF w2] o[OF pw] content_magic[OF _ m]
      by (simp add: click_view_document_and_download_def Let_def case_prod_beta
            wrote_logger wrote_write split: option.split)
  qed
qed

lemma nothing_captured:
  assumes "viewer_yields_nothing (popup_viewer env)" "viewer_yields_nothing (original_viewer env)"
      and "\<forall>e\<in>set (race env). \<not> race_captures e"
      and "\<forall>(url, fo)\<in>set (popup_requests env). \<not> captures url fo"
  shows "fst (click_view_document_and_download dir cn dn env w) = None \<and>
         files (snd (click_view_document_and_download dir cn dn env w)) = files w"
proof (cases "selector_visible env")
  case (Some e)
  then show ?thesis
    by (simp add: click_view_document_and_download_def Let_def click_except_def logger_fields)
next
  case None
  let ?p = "pdf_filepath dir cn dn"
  let ?wa = "act ListenPage (act WaitForSelector
               (logger INFO ''Preparing to click View Document (with PDF interception)...'' w))"
  let ?cw = "click_and_wait env ?wa"
  let ?w2 = "click_finally env (snd ?cw)"
  have f2: "files ?w2 = files w"
    using click_and_wait_cases[of env ?wa]
    by (auto simp add: click_finally_fields act_fields logger_fields)
  show ?thesis
  proof (cases "fst ?cw")
    case (Inl e)
    then show ?thesis using None f2
      by (simp add: click_view_document_and_download_def Let_def case_prod_beta click_except_def
            logger_fields)
  next
    case (Inr cn')
    obtain c np where cn': "cn' = (c, np)" by (cases cn')
    from click_and_wait_cases[of env ?wa] Inr cn' assms(3)
    have c: "c = None" by auto
    have pn: "fst (popup_stage ?p env c ?w2) = None" "files (snd (popup_stage ?p env c ?w2)) = files w"
      using popup_nothing[OF c assms(4) assms(1), of ?p ?w2] f2 by simp_all
    show ?thesis using None Inr cn' c f2 pn
        original_nothing[OF assms(2), of ?p ?w2]
        original_nothing[OF assms(2), of ?p "snd (popup_stage ?p env c ?w2)"]
      by (simp add: click_view_document_and_download_def Let_def case_prod_beta)
  qed
qed

lemma same_refl: "same_scraper sw sw"
  by (simp add: same_scraper_def)

lemma same_trans: "same_scraper a b \<Longrightarrow> same_scraper b c \<Longrightarrow> same_scraper a c"
  by (simp add: same_scraper_def)

lemma same_world: "same_scraper sw (fst x, w) = same_scraper sw x"
  by (simp add: same_scraper_def)

lemma same_logging: "same_scraper sw (logging l m x) = same_scraper sw x"
  by (simp add: same_scraper_def logging_def)

lemma same_url: "same_scraper sw ((fst x)\<lparr>results_page_url := u\<rparr>, w) = same_scraper sw x"
  by (simp add: same_scraper_def)

lemma same_manager: "same_scraper sw (snd (manager call x)) = same_scraper sw x"
  by (simp add: same_scraper_def manager_def case_prod_beta)

lemma transition_machine:
  "on_state_change (fst (snd (transition_to st m smw))) = on_state_change (fst smw)"
  by (cases smw) (simp add: transition_to_def Let_def case_prod_beta split: option.split)

lemma same_transition: "same_scraper sw (snd (transition st m x)) = same_scraper sw x"
  by (simp add: same_scraper_def transition_def case_prod_beta transition_machine)

lemma same_then_do:
  "same_scraper sw (snd m) \<Longrightarrow> (\<And>a. same_scraper sw (snd (f a (snd m)))) \<Longrightarrow>
   same_scraper sw (snd (then_do m f))"
  by (cases m; cases "fst m") (auto simp add: then_do_def)

lemma same_navigate_to_case_entry:
  "same_scraper sw (snd (navigate_to_case_entry g x)) = same_scraper sw x"
  by (simp add: navigate_to_case_entry_def same_logging split: option.split)

lemma same_recover:
  "same_scraper sw x \<Longrightarrow> same_scraper sw (snd (recover_to_results_page cn renv x))"
  unfolding recover_to_results_page_def
  by (intro same_then_do) (simp_all add: same_manager same_navigate_to_case_entry same_logging same_url)

lemma same_navigate_back:
  "same_scraper sw x \<Longrightarrow> same_scraper sw (snd (navigate_back_to_results cn nenv x))"
  unfolding navigate_back_to_results_def
  by (intro same_then_do)
     (simp_all add: same_transition same_logging same_recover Let_def split: option.split)

lemma same_entry_try:
  "same_scraper sw x \<Longrightarrow> same_scraper sw (snd (process_transcript_entry_try cn entry eenv x))"
  unfolding process_transcript_entry_try_def
  apply (simp add: same_logging)
  apply (intro impI same_then_do)
   apply (simp_all add: same_transition)
  apply (intro impI same_then_do)
   apply (simp_all add: same_transition split: prod.split download_status.split)
  apply (intro allI impI conjI same_then_do)
    apply (simp_all add: same_manager same_logging same_world same_transition)
  done

lemma same_entry:
  "same_scraper sw x \<Longrightarrow> same_scraper sw (snd (process_transcript_entry cn entry eenv x))"
  using same_entry_try[of sw x cn entry eenv]
  by (simp add: process_transcript_entry_def case_prod_beta same_logging split: sum.split)

lemma same_observed: "same_scraper sw x \<Longrightarrow> observed sw \<Longrightarrow> observed x"
  by (simp add: same_scraper_def observed_def)

lemma same_kept: "same_scraper sw x \<Longrightarrow> kept sw x"
  by (simp add: same_scraper_def kept_def)

lemma kept_refl: "kept sw sw"
  by (simp add: kept_def)

lemma kept_trans: "kept a b \<Longrightarrow> kept b c \<Longrightarrow> kept a c"
  by (simp add: kept_def)

lemma kept_observed: "kept sw x \<Longrightarrow> observed sw \<Longrightarrow> observed x"
  by (simp add: kept_def observed_def)

lemma transition_ok: "observed x \<Longrightarrow> fst (transition st m x) = Inr ()"
  using transition_to_scraper[of "state_machine (fst x)" "scraper_client_id (fst x)" st m "snd x"]
  by (simp add: observed_def transition_def case_prod_beta)

lemma transition_observed: "observed x \<Longrightarrow> observed (snd (transition st m x))"
  using same_transition[of x st m x] same_refl[of x] same_observed by blast

lemma manager_ok:
  "fst (manager (send_event c ev) x) = Inr ()"
  "fst (manager (send_info c m) x) = Inr ()"
  "fst (manager (send_error c m) x) = Inr ()"
  "fst (manager (send_progress c m i n) x) = Inr ()"
  "fst (manager (send_complete c m d) x) = Inr ()"
  by (simp_all add: manager_def case_prod_beta send_info_def send_error_def send_progress_def
        send_complete_def send_event_returns Let_def)

lemma then_do_ok: "fst m = Inr a \<Longrightarrow> then_do m f = f a (snd m)"
  by (cases m) (simp add: then_do_def)

lemma then_do_raised: "fst m = Inl e \<Longrightarrow> then_do m f = (Inl e, snd m)"
  by (cases m) (simp add: then_do_def)

lemma then_do_Inr: "then_do (Inr a, s) f = f a s"
  by (simp add: then_do_def)

lemma then_do_Inl: "then_do (Inl e, s) f = (Inl e, s)"
  by (simp add: then_do_def)

lemma then_do_manager:
  "then_do (manager (send_event c ev) x) f = f () (snd (manager (send_event c ev) x))"
  "then_do (manager (send_info c m) x) f = f () (snd (manager (send_info c m) x))"
  "then_do (manager (send_error c m) x) f = f () (snd (manager (send_error c m) x))"
  "then_do (manager (send_progress c m i n) x) f = f () (snd (manager (send_progress c m i n) x))"
  "then_do (manager (send_complete c m d) x) f = f () (snd (manager (send_complete c m d) x))"
  by (simp_all add: then_do_ok manager_ok)

lemma then_do_transition:
  "observed x \<Longrightarrow> then_do (transition st m x) f = f () (snd (transition st m x))"
  by (simp add: then_do_ok transition_ok)

lemma recover_fails:
  assumes "goto_case_entry renv = None" "\<not> resubmitted renv \<or> \<not> results_reloaded renv"
  shows "fst (recover_to_results_page cn renv x) =
           Inl (RuntimeError (if \<not> resubmitted renv
                  then ''Recovery failed: could not re-submit case number '' @ cn
                  else ''Recovery failed: results page did not load for '' @ cn))"
  using assms
  by (auto simp add: recover_to_results_page_def then_do_manager
        navigate_to_case_entry_def then_do_Inr)

lemma recover_ok:
  assumes "goto_case_entry renv = None" "resubmitted renv" "results_reloaded renv"
  shows "fst (recover_to_results_page cn renv x) = Inr ()"
  using assms
  by (simp add: recover_to_results_page_def then_do_manager
        navigate_to_case_entry_def then_do_Inr)

lemma navigate_back_ok:
  "observed x \<Longrightarrow> nav_ok nenv \<Longrightarrow> fst (navigate_back_to_results cn nenv x) = Inr ()"
  by (auto simp add: navigate_back_to_results_def then_do_transition nav_ok_def Let_def
        recover_ok)

lemma navigate_back_fails:
  "observed x \<Longrightarrow> recovery_fails nenv \<Longrightarrow>
   fst (navigate_back_to_results cn nenv x) = Inl (RuntimeError (recovery_error cn nenv))"
  by (simp add: navigate_back_to_results_def then_do_transition recovery_fails_def Let_def
        recover_fails recovery_error_def)

lemma in_case_parts:
  "fst (in_case f st) = fst (f (snd st))"
  "fst (snd (in_case f st)) = fst st"
  "snd (snd (in_case f st)) = snd (f (snd st))"
  by (simp_all add: in_case_def case_prod_beta)

lemma then_do_in_case_manager:
  "then_do (in_case (manager (send_progress c m i k)) st) f =
     f () (fst st, snd (manager (send_progress c m i k) (snd st)))"
  "then_do (in_case (manager (send_info c m)) st) f =
     f () (fst st, snd (manager (send_info c m) (snd st)))"
  by (simp_all add: in_case_def case_prod_beta manager_ok then_do_Inr)

lemma then_do_in_case_transition:
  "observed (snd st) \<Longrightarrow>
   then_do (in_case (transition s m) st) f = f () (fst st, snd (transition s m (snd st)))"
  by (simp add: in_case_def case_prod_beta transition_ok then_do_Inr)

lemma add_download_fields:
  "length (downloads (add_download d j)) = Suc (length (downloads j))"
  "cases_processed (add_download d j) = cases_processed j"
  "case_results (add_download d j) = case_results j"
  by (simp_all add: add_download_def Let_def)

lemma process_entry_step_facts:
  fixes cn idx n entry eenv cr sw
  defines "R \<equiv> process_entry_step cn idx n entry eenv (cr, sw)"
  shows "kept sw (snd (snd R))"
    and "current_job (fst sw) = Some j \<Longrightarrow>
           \<exists>j'. current_job (fst (snd (snd R))) = Some j' \<and>
                length (downloads j') = Suc (length (downloads j))"
    and "status (fst (snd R)) = status cr \<and> transcripts_found (fst (snd R)) = transcripts_found cr"
    and "observed sw \<Longrightarrow> (idx + 1 < n \<longrightarrow> nav_ok (back_nav eenv)) \<Longrightarrow> fst R = Inr ()"
    and "observed sw \<Longrightarrow> idx + 1 < n \<Longrightarrow> recovery_fails (back_nav eenv) \<Longrightarrow>
           fst R = Inl (RuntimeError (recovery_error cn (back_nav eenv)))"
proof -
  let ?msg = "''Downloading transcript '' @ str_nat (idx + 1) @ ''/'' @ str_nat n @
                 '' (#'' @ doc_number entry @ '')''"
  let ?sw1 = "snd (manager (send_progress (scraper_client_id (fst sw)) ?msg (idx + 1) n) sw)"
  let ?p = "process_transcript_entry cn entry eenv ?sw1"
  let ?dr = "fst ?p"
  let ?sw2 = "snd ?p"
  let ?cr1 = "if dl_status ?dr = ''SUCCESS''
              then cr\<lparr>transcripts_downloaded := transcripts_downloaded cr + 1\<rparr>
              else cr\<lparr>errors := errors cr @
                     [''Doc #'' @ doc_number entry @ '': '' @ opt_text (dl_error_message ?dr)]\<rparr>"
  let ?sw3 = "case current_job (fst ?sw2) of
                None \<Rightarrow> ?sw2
              | Some job \<Rightarrow> ((fst ?sw2)\<lparr>current_job := Some (add_download ?dr job)\<rparr>, snd ?sw2)"
  have R: "R = (if idx + 1 < n
                then in_case (navigate_back_to_results cn (back_nav eenv)) (?cr1, ?sw3)
                else (Inr (), ?cr1, ?sw3))"
    unfolding R_def process_entry_step_def
    by (simp add: then_do_in_case_manager case_prod_beta Let_def cong: option.case_cong if_cong)
  have s1: "same_scraper sw ?sw1" by (simp add: same_manager same_refl)
  have s2: "same_scraper sw ?sw2" by (rule same_entry[OF s1])
  have k3: "kept sw ?sw3"
    using s2 by (simp add: same_scraper_def kept_def add_download_fields split: option.split)
  have o3: "observed ?sw3" if "observed sw"
    by (rule kept_observed[OF k3 that])
  let ?nb = "navigate_back_to_results cn (back_nav eenv) ?sw3"
  have sn: "same_scraper ?sw3 (snd ?nb)" by (rule same_navigate_back[OF same_refl])
  show "kept sw (snd (snd R))"
    using k3 kept_trans[OF k3 same_kept[OF sn]] by (simp add: R in_case_parts)
  show "\<exists>j'. current_job (fst (snd (snd R))) = Some j' \<and>
                length (downloads j') = Suc (length (downloads j))"
    if "current_job (fst sw) = Some j"
  proof -
    from that s2 have "current_job (fst ?sw2) = Some j" by (simp add: same_scraper_def)
    then have "current_job (fst ?sw3) = Some (add_download ?dr j)" by simp
    moreover from sn have "current_job (fst (snd ?nb)) = current_job (fst ?sw3)"
      by (simp add: same_scraper_def)
    ultimately show ?thesis by (simp add: R in_case_parts add_download_fields)
  qed
  show "status (fst (snd R)) = status cr \<and> transcripts_found (fst (snd R)) = transcripts_found cr"
    by (simp add: R in_case_parts)
  show "fst R = Inr ()" if "observed sw" "idx + 1 < n \<longrightarrow> nav_ok (back_nav eenv)"
    using navigate_back_ok[OF o3[OF that(1)], of "back_nav eenv" cn] that(2)
    by (simp add: R in_case_parts)
  show "fst R = Inl (RuntimeError (recovery_error cn (back_nav eenv)))"
    if "observed sw" "idx + 1 < n" "recovery_fails (back_nav eenv)"
    using navigate_back_fails[OF o3[OF that(1)] that(3), of cn] that(2)
    by (simp add: R in_case_parts)
qed

lemma process_entries_kept:
  "kept (snd st) (snd (snd (process_entries cn idx n xs st))) \<and>
   status (fst (snd (process_entries cn idx n xs st))) = status (fst st) \<and>
   transcripts_found (fst (snd (process_entries cn idx n xs st))) = transcripts_found (fst st)"
proof (induction xs arbitrary: idx st)
  case Nil
  then show ?case by (simp add: kept_refl)
next
  case (Cons x xs)
  obtain cr sw where st: "st = (cr, sw)" by (cases st)
  let ?R = "process_entry_step cn idx n (fst x) (snd x) (cr, sw)"
  note f = process_entry_step_facts(1,3)[where cn=cn and idx=idx and n=n and entry="fst x" and eenv="snd x" and cr=cr and sw=sw]
  show ?case
  proof (cases "fst ?R")
    case (Inl e)
    then show ?thesis using f st by (simp add: case_prod_beta)
  next
    case (Inr u)
    with Cons.IH[where idx="idx + 1" and st="snd ?R"] f st kept_trans[OF f(1)]
    show ?thesis by (simp add: case_prod_beta)
  qed
qed

lemma process_entries_recovery_fails:
  assumes "observed sw" "current_job (fst sw) = Some j"
      and "\<forall>x\<in>set pre. nav_ok (back_nav (snd x))"
      and "recovery_fails (back_nav (snd x))"
      and "idx + length pre + 1 < n"
  shows "fst (process_entries cn idx n (pre @ x # post) (cr, sw)) =
           Inl (RuntimeError (recovery_error cn (back_nav (snd x)))) \<and>
         (\<exists>j'. current_job (fst (snd (snd (process_entries cn idx n (pre @ x # post) (cr, sw))))) = Some j' \<and>
               length (downloads j') = length (downloads j) + length pre + 1)"
  using assms
proof (induction pre arbitrary: idx cr sw j)
  case Nil
  note f = process_entry_step_facts(2,5)[where cn=cn and idx=idx and n=n and entry="fst x" and eenv="snd x" and cr=cr and sw=sw]
  from f(2)[OF Nil(1) _ Nil(4)] Nil(5) f(1)[OF Nil(2)]
  show ?case by (simp add: case_prod_beta)
next
  case (Cons y pre)
  let ?R = "process_entry_step cn idx n (fst y) (snd y) (cr, sw)"
  note f = process_entry_step_facts(1,2,4)[where cn=cn and idx=idx and n=n and entry="fst y" and eenv="snd y" and cr=cr and sw=sw]
  have ok: "fst ?R = Inr ()" using f(3)[OF Cons.prems(1)] Cons.prems(3) by simp
  have ob: "observed (snd (snd ?R))" by (rule kept_observed[OF f(1) Cons.prems(1)])
  from f(2)[OF Cons.prems(2)] obtain j1 where
    j1: "current_job (fst (snd (snd ?R))) = Some j1" "length (downloads j1) = Suc (length (downloads j))"
    by blast
  have "idx + 1 + length pre + 1 < n" using Cons.prems(5) by simp
  from Cons.IH[OF _ j1(1) _ Cons.prems(4) this, where cr="fst (snd ?R)"] ob Cons.prems(3) ok j1(2)
  show ?case by (simp add: case_prod_beta)
qed

lemma observed_steps:
  "observed (logging l m x) = observed x"
  "observed ((fst x)\<lparr>results_page_url := u\<rparr>, w) = observed x"
  "observed (fst x, w) = observed x"
  "observed (snd (manager call x)) = observed x"
  "observed (snd (transition s m x)) = observed x"
  "observed (on_job f x) = observed x"
  by (simp_all add: observed_def logging_def manager_def transition_def on_job_def case_prod_beta
        transition_machine)

lemma job_steps:
  "current_job (fst (logging l m x)) = current_job (fst x)"
  "current_job (fst (snd (manager call x))) = current_job (fst x)"
  "current_job (fst (snd (transition s m x))) = current_job (fst x)"
  "current_job (fst (on_job f x)) = map_option f (current_job (fst x))"
  by (simp_all add: logging_def manager_def transition_def on_job_def case_prod_beta)

lemma kept_steps:
  "kept sw (logging l m x) = kept sw x"
  "kept sw ((fst x)\<lparr>results_page_url := u\<rparr>, w) = kept sw x"
  "kept sw (fst x, w) = kept sw x"
  "kept sw (snd (manager call x)) = kept sw x"
  "kept sw (snd (transition s m x)) = kept sw x"
  by (simp_all add: kept_def logging_def manager_def transition_def case_prod_beta
        transition_machine)

lemma kept_then_do:
  "kept sw (snd (snd m)) \<Longrightarrow> (\<And>a. kept sw (snd (snd (f a (snd m))))) \<Longrightarrow>
   kept sw (snd (snd (then_do m f)))"
  by (cases m; cases "fst m") (auto simp add: then_do_def)

lemma kept_in_case:
  "kept sw (snd (snd (in_case (transition s m) st))) = kept sw (snd st)"
  "kept sw (snd (snd (in_case (manager call) st))) = kept sw (snd st)"
  by (simp_all add: in_case_parts kept_steps)

lemma kept_entries:
  "kept sw (snd st) \<Longrightarrow> kept sw (snd (snd (process_entries cn idx n xs st)))"
  using process_entries_kept[of st cn idx n xs] kept_trans by blast

lemma process_case_try_kept:
  "kept sw (snd st) \<Longrightarrow> kept sw (snd (snd (process_case_try cn cenv st)))"
  unfolding process_case_try_def
  by (auto intro!: kept_then_do
        simp add: kept_in_case kept_steps case_failed_def case_completed_def kept_entries Let_def)

lemma process_case_kept: "kept sw (snd (process_case cn cenv sw))"
  using process_case_try_kept[of sw "(\<lparr>case_number = cn, status = ''pending'', transcripts_found = 0,
               transcripts_downloaded = 0, errors = []\<rparr>, sw)" cn cenv]
  by (simp add: process_case_def case_prod_beta case_failed_def kept_steps kept_refl split: sum.split)

lemma process_case_recovery_fails:
  assumes "observed sw" "current_job (fst sw) = Some j"
      and "submitted cenv" "results_loaded cenv"
      and "found cenv = pre @ x # post" "post \<noteq> []"
      and "\<forall>y\<in>set pre. nav_ok (back_nav (snd y))"
      and "recovery_fails (back_nav (snd x))"
  shows "status (fst (process_case cn cenv sw)) = ''failed'' \<and>
         last (errors (fst (process_case cn cenv sw))) = recovery_error cn (back_nav (snd x)) \<and>
         transcripts_found (fst (process_case cn cenv sw)) = length (found cenv) \<and>
         (\<exists>j'. current_job (fst (snd (process_case cn cenv sw))) = Some j' \<and>
               length (downloads j') = length (downloads j) + length pre + 1)"
proof -
  let ?cr0 = "\<lparr>case_number = cn, status = ''pending'', transcripts_found = 0,
               transcripts_downloaded = 0, errors = []\<rparr>"
  let ?sw1 = "snd (transition SEARCHING (''Processing case: '' @ cn) sw)"
  let ?sw2 = "snd (manager (send_info (scraper_client_id (fst ?sw1)) (''Processing case: '' @ cn)) ?sw1)"
  let ?sw3 = "logging INFO (''Results page URL: '' @ results_url cenv)
                ((fst ?sw2)\<lparr>results_page_url := results_url cenv\<rparr>, snd ?sw2)"
  let ?sw4 = "snd (transition EXTRACTING_ENTRIES ''Finding transcript entries'' ?sw3)"
  let ?cr5 = "?cr0\<lparr>transcripts_found := length (found cenv)\<rparr>"
  let ?sw6 = "snd (manager (send_info (scraper_client_id (fst ?sw4))
                (''Found '' @ str_nat (length (found cenv)) @ '' transcript(s) for case '' @ cn)) ?sw4)"
  let ?E = "process_entries cn 0 (length (found cenv)) (found cenv) (?cr5, ?sw6)"
  have ne: "found cenv \<noteq> []" using assms(5) by simp
  have t: "process_case_try cn cenv (?cr0, sw) = then_do ?E (\<lambda>u st7. (Inr (), case_completed st7))"
    using assms(1,3,4) ne
    by (simp add: process_case_try_def then_do_in_case_transition then_do_in_case_manager
          observed_steps Let_def)
  have o6: "observed ?sw6" using assms(1) by (simp add: observed_steps)
  have j6: "current_job (fst ?sw6) = Some j" using assms(2) by (simp add: job_steps)
  have n: "0 + length pre + 1 < length (found cenv)" using assms(5,6) by (cases post) simp_all
  from process_entries_recovery_fails[OF o6 j6 assms(7,8) n, of cn post ?cr5] assms(5)
  have e: "fst ?E = Inl (RuntimeError (recovery_error cn (back_nav (snd x))))"
    and "\<exists>j'. current_job (fst (snd (snd ?E))) = Some j' \<and>
               length (downloads j') = length (downloads j) + length pre + 1"
    by simp_all
  moreover have "transcripts_found (fst (snd ?E)) = length (found cenv)"
    using process_entries_kept[of "(?cr5, ?sw6)" cn 0 "length (found cenv)" "found cenv"] by simp
  moreover have "process_case cn cenv sw =
      (fst (case_failed (recovery_error cn (back_nav (snd x))) (snd ?E)),
       logging ERROR (''Error processing case '' @ cn @ '': '' @ recovery_error cn (back_nav (snd x)))
         (snd (case_failed (recovery_error cn (back_nav (snd x))) (snd ?E))))"
  proof -
    have td: "then_do ?E (\<lambda>u st7. (Inr (), case_completed st7)) =
                (Inl (RuntimeError (recovery_error cn (back_nav (snd x)))), snd ?E)"
      by (rule then_do_raised[OF e])
    show ?thesis unfolding process_case_def t td by (simp add: case_prod_beta)
  qed
  ultimately show ?thesis by (simp add: case_failed_def job_steps)
qed

lemma process_case_nothing_found:
  assumes "observed sw" "submitted cenv" "results_loaded cenv" "found cenv = []"
  shows "status (fst (process_case cn cenv sw)) = ''completed'' \<and>
         errors (fst (process_case cn cenv sw)) = []"
proof -
  let ?cr0 = "\<lparr>case_number = cn, status = ''pending'', transcripts_found = 0,
               transcripts_downloaded = 0, errors = []\<rparr>"
  let ?sw1 = "snd (transition SEARCHING (''Processing case: '' @ cn) sw)"
  let ?sw2 = "snd (manager (send_info (scraper_client_id (fst ?sw1)) (''Processing case: '' @ cn)) ?sw1)"
  let ?sw3 = "logging INFO (''Results page URL: '' @ results_url cenv)
                ((fst ?sw2)\<lparr>results_page_url := results_url cenv\<rparr>, snd ?sw2)"
  let ?sw4 = "snd (transition EXTRACTING_ENTRIES ''Finding transcript entries'' ?sw3)"
  let ?sw6 = "snd (manager (send_info (scraper_client_id (fst ?sw4))
                (''No matching transcripts found for case '' @ cn)) ?sw4)"
  have t: "process_case_try cn cenv (?cr0, sw) =
             (Inr (), case_completed (?cr0\<lparr>transcripts_found := 0\<rparr>, ?sw6))"
    using assms
    by (simp add: process_case_try_def then_do_in_case_transition then_do_in_case_manager
          observed_steps Let_def)
  show ?thesis unfolding process_case_def t by (simp add: case_completed_def)
qed

lemma add_errors_fields:
  "cases_processed (add_errors t cn es job) = cases_processed job \<and>
   job_status (add_errors t cn es job) = job_status job"
  by (induction es arbitrary: job) (simp_all add: add_error_def)

lemma case_step_facts:
  assumes "observed sw" "current_job (fst sw) = Some j"
      and "idx > 0 \<longrightarrow> fst (case_envs jenv idx) = None"
  shows "fst (case_step jenv idx n cn sw) = Inr () \<and>
         observed (snd (case_step jenv idx n cn sw)) \<and>
         (\<exists>j'. current_job (fst (snd (case_step jenv idx n cn sw))) = Some j' \<and>
               cases_processed j' = Suc (cases_processed j))"
proof -
  let ?sw0 = "on_job (\<lambda>job. job\<lparr>current_case_index := idx\<rparr>) sw"
  let ?sw1 = "snd (manager (send_progress (scraper_client_id (fst sw))
                (''Processing case '' @ str_nat (idx + 1) @ ''/'' @ str_nat n @ '': '' @ cn) (idx + 1) n)
                ?sw0)"
  let ?p = "process_case cn (snd (case_envs jenv idx)) ?sw1"
  let ?F = "\<lambda>job. add_errors (now (snd (snd ?p))) cn (errors (fst ?p))
                             ((add_case_result cn (fst ?p) job)
                                \<lparr>cases_processed := cases_processed job + 1\<rparr>)"
  have nav: "(if idx > 0 then navigate_to_case_entry (fst (case_envs jenv idx)) ?sw1 else (Inr (), ?sw1))
               = (Inr (), ?sw1)"
    using assms(3) by (simp add: navigate_to_case_entry_def)
  have c: "case_step jenv idx n cn sw = (Inr (), on_job ?F (snd ?p))"
    unfolding case_step_def then_do_manager nav then_do_Inr by (simp add: case_prod_beta)
  have o1: "observed ?sw1" using assms(1) by (simp add: observed_steps)
  have j1: "map_option cases_processed (current_job (fst ?sw1)) = Some (cases_processed j)"
    using assms(2) by (simp add: job_steps)
  have k: "kept ?sw1 (snd ?p)" by (rule process_case_kept)
  then obtain j3 where j3: "current_job (fst (snd ?p)) = Some j3" "cases_processed j3 = cases_processed j"
    using j1 by (auto simp add: kept_def)
  have "observed (snd ?p)" by (rule kept_observed[OF k o1])
  then show ?thesis using j3
    by (simp add: c observed_steps job_steps add_errors_fields add_case_result_def)
qed

lemma run_cases_facts:
  assumes "observed sw" "current_job (fst sw) = Some j"
      and "\<forall>i. 0 < i \<and> i < idx + length cns \<longrightarrow> fst (case_envs jenv i) = None"
  shows "fst (run_cases jenv idx n cns sw) = Inr () \<and>
         observed (snd (run_cases jenv idx n cns sw)) \<and>
         (\<exists>j'. current_job (fst (snd (run_cases jenv idx n cns sw))) = Some j' \<and>
               cases_processed j' = cases_processed j + length cns)"
  using assms
proof (induction cns arbitrary: idx sw j)
  case Nil
  then show ?case by simp
next
  case (Cons cn cns)
  have "idx > 0 \<longrightarrow> fst (case_envs jenv idx) = None" using Cons.prems(3) by simp
  from case_step_facts[OF Cons.prems(1,2) this, of n cn]
  obtain j1 where s: "fst (case_step jenv idx n cn sw) = Inr ()"
      "observed (snd (case_step jenv idx n cn sw))"
      "current_job (fst (snd (case_step jenv idx n cn sw))) = Some j1"
      "cases_processed j1 = Suc (cases_processed j)"
    by blast
  have "\<forall>i. 0 < i \<and> i < (idx + 1) + length cns \<longrightarrow> fst (case_envs jenv i) = None"
    using Cons.prems(3) by simp
  from Cons.IH[OF s(2,3) this] s(1,4) show ?case by (simp add: case_prod_beta)
qed

lemma add_errors_case_results: "case_results (add_errors t cn es job) = case_results job"
  by (induction es arbitrary: job) (simp_all add: add_error_def)

lemma case_step_records_failure:
  assumes "observed sw" "current_job (fst sw) = Some j"
      and "idx > 0 \<longrightarrow> fst (case_envs jenv idx) = None"
      and "submitted (snd (case_envs jenv idx))" "results_loaded (snd (case_envs jenv idx))"
      and "found (snd (case_envs jenv idx)) = pre @ x # post" "post \<noteq> []"
      and "\<forall>y\<in>set pre. nav_ok (back_nav (snd y))"
      and "recovery_fails (back_nav (snd x))"
  shows "fst (case_step jenv idx n cn sw) = Inr () \<and>
         (\<exists>j' cr. current_job (fst (snd (case_step jenv idx n cn sw))) = Some j' \<and>
            case_results j' cn = Some cr \<and> status cr = ''failed'' \<and>
            last (errors cr) = recovery_error cn (back_nav (snd x)))"
proof -
  let ?sw0 = "on_job (\<lambda>job. job\<lparr>current_case_index := idx\<rparr>) sw"
  let ?sw1 = "snd (manager (send_progress (scraper_client_id (fst sw))
                (''Processing case '' @ str_nat (idx + 1) @ ''/'' @ str_nat n @ '': '' @ cn) (idx + 1) n)
                ?sw0)"
  let ?p = "process_case cn (snd (case_envs jenv idx)) ?sw1"
  let ?F = "\<lambda>job. add_errors (now (snd (snd ?p))) cn (errors (fst ?p))
                             ((add_case_result cn (fst ?p) job)
                                \<lparr>cases_processed := cases_processed job + 1\<rparr>)"
  have nav: "(if idx > 0 then navigate_to_case_entry (fst (case_envs jenv idx)) ?sw1 else (Inr (), ?sw1))
               = (Inr (), ?sw1)"
    using assms(3) by (simp add: navigate_to_case_entry_def)
  have c: "case_step jenv idx n cn sw = (Inr (), on_job ?F (snd ?p))"
    unfolding case_step_def then_do_manager nav then_do_Inr by (simp add: case_prod_beta)
  have o1: "observed ?sw1" using assms(1) by (simp add: observed_steps)
  have j1: "current_job (fst ?sw1) = Some (j\<lparr>current_case_index := idx\<rparr>)"
    using assms(2) by (simp add: job_steps)
  from process_case_recovery_fails[OF o1 j1 assms(4-9), of cn]
  obtain j3 where f: "status (fst ?p) = ''failed''"
      "last (errors (fst ?p)) = recovery_error cn (back_nav (snd x))"
      "current_job (fst (snd ?p)) = Some j3"
    by blast
  have "current_job (fst (snd (case_step jenv idx n cn sw))) = Some (?F j3)"
    using f(3) by (simp add: c job_steps)
  moreover have "case_results (?F j3) cn = Some (fst ?p)"
    by (simp add: add_errors_case_results add_case_result_def)
  ultimately show ?thesis using f(1,2) c by simp
qed

lemma case_step_results:
  assumes "observed sw" "current_job (fst sw) = Some j"
      and "idx > 0 \<longrightarrow> fst (case_envs jenv idx) = None"
  shows "\<exists>j' sw1 j1. current_job (fst (snd (case_step jenv idx n cn sw))) = Some j' \<and>
           observed sw1 \<and> current_job (fst sw1) = Some j1 \<and>
           case_results j' =
             (case_results j)(cn \<mapsto> fst (process_case cn (snd (case_envs jenv idx)) sw1))"
proof -
  let ?sw0 = "on_job (\<lambda>job. job\<lparr>current_case_index := idx\<rparr>) sw"
  let ?sw1 = "snd (manager (send_progress (scraper_client_id (fst sw))
                (''Processing case '' @ str_nat (idx + 1) @ ''/'' @ str_nat n @ '': '' @ cn) (idx + 1) n)
                ?sw0)"
  let ?p = "process_case cn (snd (case_envs jenv idx)) ?sw1"
  let ?F = "\<lambda>job. add_errors (now (snd (snd ?p))) cn (errors (fst ?p))
                             ((add_case_result cn (fst ?p) job)
                                \<lparr>cases_processed := cases_processed job + 1\<rparr>)"
  have nav: "(if idx > 0 then navigate_to_case_entry (fst (case_envs jenv idx)) ?sw1 else (Inr (), ?sw1))
               = (Inr (), ?sw1)"
    using assms(3) by (simp add: navigate_to_case_entry_def)
  have c: "case_step jenv idx n cn sw = (Inr (), on_job ?F (snd ?p))"
    unfolding case_step_def then_do_manager nav then_do_Inr by (simp add: case_prod_beta)
  have o1: "observed ?sw1" using assms(1) by (simp add: observed_steps)
  have j1: "current_job (fst ?sw1) = Some (j\<lparr>current_case_index := idx\<rparr>)"
    using assms(2) by (simp add: job_steps)
  have k: "kept ?sw1 (snd ?p)" by (rule process_case_kept)
  then obtain j3 where j3: "current_job (fst (snd ?p)) = Some j3" "case_results j3 = case_results j"
    using j1 by (auto simp add: kept_def)
  have a: "current_job (fst (snd (case_step jenv idx n cn sw))) = Some (?F j3)"
    using j3(1) by (simp add: c job_steps)
  have b: "case_results (?F j3) = (case_results j)(cn \<mapsto> fst ?p)"
    using j3(2) by (simp add: add_errors_case_results add_case_result_def)
  show ?thesis
    by (rule exI[of _ "?F j3"], rule exI[of _ ?sw1], rule exI[of _ "j\<lparr>current_case_index := idx\<rparr>"])
       (simp only: a b o1 j1 simp_thms)
qed

lemma run_cases_results:
  assumes "observed sw" "current_job (fst sw) = Some j"
      and "\<forall>i. 0 < i \<and> i < idx + length cns \<longrightarrow> fst (case_envs jenv i) = None"
      and "distinct cns"
  shows "\<exists>j'. current_job (fst (snd (run_cases jenv idx n cns sw))) = Some j' \<and>
           (\<forall>c. c \<notin> set cns \<longrightarrow> case_results j' c = case_results j c) \<and>
           (\<forall>i<length cns. \<exists>swi ji. observed swi \<and> current_job (fst swi) = Some ji \<and>
               case_results j' (cns ! i) =
                 Some (fst (process_case (cns ! i) (snd (case_envs jenv (idx + i))) swi)))"
  using assms
proof (induction cns arbitrary: idx sw j)
  case Nil
  then show ?case by simp
next
  case (Cons cn cns)
  let ?s = "case_step jenv idx n cn sw"
  have n0: "idx > 0 \<longrightarrow> fst (case_envs jenv idx) = None" using Cons.prems(3) by simp
  from case_step_facts[OF Cons.prems(1,2) n0, of n cn]
  have s: "fst ?s = Inr ()" "observed (snd ?s)" by simp_all
  from case_step_results[OF Cons.prems(1,2) n0, of n cn]
  obtain j1 sw1 ji where r: "current_job (fst (snd ?s)) = Some j1" "observed sw1"
      "current_job (fst sw1) = Some ji"
      "case_results j1 = (case_results j)(cn \<mapsto> fst (process_case cn (snd (case_envs jenv idx)) sw1))"
    by blast
  have n1: "\<forall>i. 0 < i \<and> i < (idx + 1) + length cns \<longrightarrow> fst (case_envs jenv i) = None"
    using Cons.prems(3) by simp
  have d: "distinct cns" "cn \<notin> set cns" using Cons.prems(4) by simp_all
  from Cons.IH[OF s(2) r(1) n1 d(1)]
  obtain j' where h: "current_job (fst (snd (run_cases jenv (idx + 1) n cns (snd ?s)))) = Some j'"
      "\<forall>c. c \<notin> set cns \<longrightarrow> case_results j' c = case_results j1 c"
      "\<forall>i<length cns. \<exists>swi ji. observed swi \<and> current_job (fst swi) = Some ji \<and>
          case_results j' (cns ! i) =
            Some (fst (process_case (cns ! i) (snd (case_envs jenv (idx + 1 + i))) swi))"
    by blast
  have u: "run_cases jenv idx n (cn # cns) sw = run_cases jenv (idx + 1) n cns (snd ?s)"
    using s(1) by (simp add: case_prod_beta)
  have a: "\<forall>c. c \<notin> set (cn # cns) \<longrightarrow> case_results j' c = case_results j c"
    using h(2) r(4) by simp
  have b: "\<exists>swi ji. observed swi \<and> current_job (fst swi) = Some ji \<and>
             case_results j' ((cn # cns) ! i) =
               Some (fst (process_case ((cn # cns) ! i) (snd (case_envs jenv (idx + i))) swi))"
    if "i < length (cn # cns)" for i
  proof (cases i)
    case 0
    have "case_results j' cn = Some (fst (process_case cn (snd (case_envs jenv idx)) sw1))"
      using h(2) d(2) r(4) by simp
    then show ?thesis using 0 r(2,3)
      by (intro exI[of _ sw1] exI[of _ ji]) simp
  next
    case (Suc m)
    with that have "m < length cns" by simp
    with h(3) show ?thesis using Suc by simp
  qed
  show ?case unfolding u using h(1) a b by blast
qed

lemma run_scraping_job_records:
  assumes "observed sw"
      and "initialized jenv = None" "logged_in jenv = Inr True"
      and "\<forall>i. 0 < i \<and> i < length (case_numbers job) \<longrightarrow> fst (case_envs jenv i) = None"
      and "distinct (case_numbers job)"
  shows "\<exists>job'. fst (run_scraping_job job jenv sw) = Inr (Some job') \<and>
           job_status job' = JOB_COMPLETED \<and>
           cases_processed job' = cases_processed job + length (case_numbers job) \<and>
           (\<forall>i<length (case_numbers job). \<exists>swi ji. observed swi \<and> current_job (fst swi) = Some ji \<and>
               case_results job' (case_numbers job ! i) =
                 Some (fst (process_case (case_numbers job ! i) (snd (case_envs jenv i)) swi)))"
proof -
  let ?sw0 = "((fst sw)\<lparr>current_job := Some (mark_started (now (snd sw)) job)\<rparr>, snd sw)"
  let ?swi = "logging INFO ''CMECF Scraper initialized successfully''
                (snd (transition INITIALIZING ''Initializing browser and CMECF scraper'' ?sw0))"
  let ?swt = "snd (transition LOGGING_IN ''Logging into CMECF (PACER)'' ?swi)"
  let ?swl = "snd (manager (send_info (scraper_client_id (fst ?swt)) ''Login successful - on CMECF docket page'')
                ?swt)"
  let ?rc = "run_cases jenv 0 (length (case_numbers job)) (case_numbers job) ?swl"
  have o0: "observed ?sw0" using assms(1) by (simp add: observed_def)
  have i: "initialize (initialized jenv) ?sw0 = (Inr (), ?swi)"
    using o0 assms(2) by (simp add: initialize_def then_do_transition)
  have oi: "observed ?swi" using o0 by (simp add: observed_steps)
  have l: "login (logged_in jenv) ?swi = (Inr True, ?swl)"
    using oi assms(3) by (simp add: login_def then_do_transition then_do_Inr then_do_manager)
  have ol: "observed ?swl" using oi by (simp add: observed_steps)
  have jl: "current_job (fst ?swl) = Some (mark_started (now (snd sw)) job)"
    by (simp add: job_steps)
  have n: "\<forall>i. 0 < i \<and> i < 0 + length (case_numbers job) \<longrightarrow> fst (case_envs jenv i) = None"
    using assms(4) by simp
  from run_cases_facts[OF ol jl n, of "length (case_numbers job)"]
  obtain j1 where r: "fst ?rc = Inr ()" "observed (snd ?rc)"
      "current_job (fst (snd ?rc)) = Some j1"
      "cases_processed j1 = cases_processed job + length (case_numbers job)"
    by (auto simp add: mark_started_def)
  from run_cases_results[OF ol jl n assms(5), of "length (case_numbers job)"]
  obtain j2 where z: "current_job (fst (snd ?rc)) = Some j2"
      "\<forall>i<length (case_numbers job). \<exists>swi ji. observed swi \<and> current_job (fst swi) = Some ji \<and>
               case_results j2 (case_numbers job ! i) =
                 Some (fst (process_case (case_numbers job ! i) (snd (case_envs jenv (0 + i))) swi))"
    by blast
  have e21: "j2 = j1" using z(1) r(3) by simp
  have q: "\<forall>i<length (case_numbers job). \<exists>swi ji. observed swi \<and> current_job (fst swi) = Some ji \<and>
               case_results j1 (case_numbers job ! i) =
                 Some (fst (process_case (case_numbers job ! i) (snd (case_envs jenv i)) swi))"
  proof (intro allI impI)
    fix i
    assume "i < length (case_numbers job)"
    with z(2) obtain swi ji where "observed swi" "current_job (fst swi) = Some ji"
        "case_results j2 (case_numbers job ! i) =
           Some (fst (process_case (case_numbers job ! i) (snd (case_envs jenv (0 + i))) swi))"
      by blast
    then show "\<exists>swi ji. observed swi \<and> current_job (fst swi) = Some ji \<and>
               case_results j1 (case_numbers job ! i) =
                 Some (fst (process_case (case_numbers job ! i) (snd (case_envs jenv i)) swi))"
      using e21 by (intro exI[of _ swi] exI[of _ ji]) simp
  qed
  let ?sw4 = "snd (transition COMPLETED ''CMECF scraping completed'' (snd ?rc))"
  let ?sw5 = "on_job (mark_completed (now (snd ?sw4))) ?sw4"
  let ?j5 = "mark_completed (now (snd ?sw4)) j1"
  let ?sw6 = "snd (manager (send_complete (scraper_client_id (fst ?sw5))
                (''Scraping complete! Downloaded '' @ str_nat (total_transcripts_downloaded ?j5) @
                 '' transcripts from '' @ str_nat (cases_processed ?j5) @ '' cases'')
                (get_summary ?j5)) ?sw5)"
  have j5: "current_job (fst ?sw5) = Some ?j5" using r(3) by (simp add: job_steps)
  have t: "run_scraping_job_try jenv (case_numbers job) ?sw0 = (Inr (), ?sw6)"
    unfolding run_scraping_job_try_def i then_do_Inr l
    using r(1,2) j5
    by (simp add: then_do_ok[OF r(1)] then_do_transition Let_def prod_eq_iff manager_ok)
  have "current_job (fst ?sw6) = Some ?j5" using j5 by (simp add: job_steps)
  then have e: "fst (run_scraping_job job jenv sw) = Inr (Some ?j5)"
    by (simp add: run_scraping_job_def Let_def t)
  have f: "job_status ?j5 = JOB_COMPLETED" "cases_processed ?j5 = cases_processed j1"
    "case_results ?j5 = case_results j1"
    by (simp_all add: mark_completed_def)
  have g: "cases_processed ?j5 = cases_processed job + length (case_numbers job)"
    using f(2) r(4) by simp
  have q5: "\<forall>i<length (case_numbers job). \<exists>swi ji. observed swi \<and> current_job (fst swi) = Some ji \<and>
               case_results ?j5 (case_numbers job ! i) =
                 Some (fst (process_case (case_numbers job ! i) (snd (case_envs jenv i)) swi))"
    using q by (simp only: f(3))
  from e f(1) g q5 show ?thesis by (intro exI[of _ ?j5] conjI)
qed

lemma run_scraping_job_records_failure:
  assumes "observed sw"
      and "initialized jenv = None" "logged_in jenv = Inr True"
      and "\<forall>i. 0 < i \<and> i < length (case_numbers job) \<longrightarrow> fst (case_envs jenv i) = None"
      and "distinct (case_numbers job)"
  shows "\<exists>job'. fst (run_scraping_job job jenv sw) = Inr (Some job') \<and>
           job_status job' = JOB_COMPLETED \<and>
           cases_processed job' = cases_processed job + length (case_numbers job) \<and>
           (\<forall>i<length (case_numbers job). \<exists>swi ji. observed swi \<and> current_job (fst swi) = Some ji \<and>
               case_results job' (case_numbers job ! i) =
                 Some (fst (process_case (case_numbers job ! i) (snd (case_envs jenv i)) swi))) \<and>
           (k < length (case_numbers job) \<and>
            submitted (snd (case_envs jenv k)) \<and> results_loaded (snd (case_envs jenv k)) \<and>
            found (snd (case_envs jenv k)) = pre @ x # post \<and> post \<noteq> [] \<and>
            (\<forall>y\<in>set pre. nav_ok (back_nav (snd y))) \<and> recovery_fails (back_nav (snd x)) \<longrightarrow>
              (\<exists>cr. case_results job' (case_numbers job ! k) = Some cr \<and> status cr = ''failed'' \<and>
                 last (errors cr) = recovery_error (case_numbers job ! k) (back_nav (snd x))))"
proof -
  from run_scraping_job_records[OF assms]
  obtain job' where r: "fst (run_scraping_job job jenv sw) = Inr (Some job')"
      "job_status job' = JOB_COMPLETED"
      "cases_processed job' = cases_processed job + length (case_numbers job)"
      "\<forall>i<length (case_numbers job). \<exists>swi ji. observed swi \<and> current_job (fst swi) = Some ji \<and>
               case_results job' (case_numbers job ! i) =
                 Some (fst (process_case (case_numbers job ! i) (snd (case_envs jenv i)) swi))"
    by blast
  have f: "\<exists>cr. case_results job' (case_numbers job ! k) = Some cr \<and> status cr = ''failed'' \<and>
                 last (errors cr) = recovery_error (case_numbers job ! k) (back_nav (snd x))"
    if h: "k < length (case_numbers job)"
       "submitted (snd (case_envs jenv k))" "results_loaded (snd (case_envs jenv k))"
       "found (snd (case_envs jenv k)) = pre @ x # post" "post \<noteq> []"
       "\<forall>y\<in>set pre. nav_ok (back_nav (snd y))" "recovery_fails (back_nav (snd x))"
  proof -
    from r(4) h(1) obtain swk jk where k: "observed swk" "current_job (fst swk) = Some jk"
        "case_results job' (case_numbers job ! k) =
           Some (fst (process_case (case_numbers job ! k) (snd (case_envs jenv k)) swk))"
      by blast
    from process_case_recovery_fails[OF k(1,2) h(2-7), of "case_numbers job ! k"] k(3)
    show ?thesis by simp
  qed
  from r f show ?thesis by (intro exI[of _ job'] conjI impI) blast+
qed

lemmas concrete_defs = ConnectionManager_init_def connect_def register_future_def world_waiting_def
  accepting_socket_def closed_socket_def failing_observer_def answer_message_def logger_def Let_def

lemmas capture_defs = click_view_document_and_download_def click_and_wait_def click_finally_def
  popup_stage_def popup_except_def original_page_stage_def download_from_pdf_viewer_def
  intercept_pdf_response_def is_pdf_request_def startswith_def endswith_def act_def write_file_def
  save_as_def pdf_filepath_def pdf_filename_def click_except_def quiet_viewer_def
  viewer_yields_nothing_def

subsection \<open>Properties of the coordination layer\<close>




text \<open>
  C2. \<^verbatim>\<open>set_user_response\<close> never raises; when the dict holds no handle for the session,
  or the handle it holds is already done, the world (the dict and every future) is
  unchanged; and a future that is done is never changed by it, so a handle is resolved
  at most once.
\<close>

theorem set_user_response_noop:
  "fst (set_user_response client_id response w) = Inr () \<and>
   (pending_responses w client_id = None \<or>
    (\<exists>f. pending_responses w client_id = Some f \<and> is_done (futures w ! f)) \<longrightarrow>
      snd (set_user_response client_id response w) = w) \<and>
   (\<forall>f. is_done (futures w ! f) \<longrightarrow>
      futures (snd (set_user_response client_id response w)) ! f = futures w ! f)"
proof -
  have "futures (snd (set_user_response client_id response w)) ! f = futures w ! f"
    if "is_done (futures w ! f)" for f
  proof (cases "pending_responses w client_id")
    case None
    then show ?thesis by (simp add: set_user_response_def)
  next
    case (Some g)
    show ?thesis
    proof (cases "is_done (futures w ! g)")
      case True
      then show ?thesis using Some by (simp add: set_user_response_def)
    next
      case False
      with that have "g \<noteq> f" by auto
      then show ?thesis using Some False
        by (simp add: set_user_response_def set_result_def logger_def)
    qed
  qed
  then show ?thesis
    by (auto simp add: set_user_response_def set_result_def split: option.split)
qed

theorem set_user_response_noop_witness:
  "pending_responses (ConnectionManager_init ''t0'') ''s1'' = None \<and>
   set_user_response ''s1'' answer_message (ConnectionManager_init ''t0'') =
     (Inr (), ConnectionManager_init ''t0'') \<and>
   is_done (futures (world_waiting\<lparr>futures := [Cancelled]\<rparr>) ! 0) \<and>
   set_user_response ''s1'' answer_message (world_waiting\<lparr>futures := [Cancelled]\<rparr>) =
     (Inr (), world_waiting\<lparr>futures := [Cancelled]\<rparr>)"
  using set_user_response_noop [of "''s1''" answer_message "ConnectionManager_init ''t0''"]
    set_user_response_noop [of "''s1''" answer_message "world_waiting\<lparr>futures := [Cancelled]\<rparr>"]
  by (simp add: prod_eq_iff concrete_defs)

text \<open>
  C4 (as the code has it). \<^verbatim>\<open>transition_to\<close> awaits the observer outside any handler:
  its outcome is the observer's outcome, so what the observer raises reaches the caller.
  The current-state update and the history append are done before the observer runs and
  stand whatever it does.
\<close>

theorem transition_to_propagates:
  "on_state_change sm = Some cb \<Longrightarrow>
   fst (transition_to s m (sm, w)) =
     fst (cb s (Some (current_state sm)) m (logger INFO (transition_line (Some (current_state sm)) s m) w)) \<and>
   current_state (fst (snd (transition_to s m (sm, w)))) = s \<and>
   previous_state (fst (snd (transition_to s m (sm, w)))) = Some (current_state sm) \<and>
   state_history (fst (snd (transition_to s m (sm, w)))) = state_history sm @
     [\<lparr>h_state = s, h_previous_state = Some (current_state sm), h_message = m, h_timestamp = now w\<rparr>]"
  by (simp add: transition_to_def Let_def split: prod.split)

theorem transition_to_propagates_witness:
  "on_state_change (set_state_change_callback failing_observer StateMachine_init) =
     Some failing_observer \<and>
   current_state (fst (snd (transition_to INITIALIZING ''start''
          (set_state_change_callback failing_observer StateMachine_init,
           ConnectionManager_init ''t0'')))) = INITIALIZING \<and>
   state_history (fst (snd (transition_to INITIALIZING ''start''
          (set_state_change_callback failing_observer StateMachine_init,
           ConnectionManager_init ''t0'')))) =
     [\<lparr>h_state = INITIALIZING, h_previous_state = Some IDLE, h_message = ''start'',
       h_timestamp = ''t0''\<rparr>]"
proof -
  have h: "on_state_change (set_state_change_callback failing_observer StateMachine_init) =
             Some failing_observer"
    by (simp add: set_state_change_callback_def)
  show ?thesis
    using h transition_to_propagates [OF h, of INITIALIZING "''start''" "ConnectionManager_init ''t0''"]
    by (simp add: set_state_change_callback_def StateMachine_init_def ConnectionManager_init_def)
qed

text \<open>
  C4 as stated fails: with an observer that raises, \<^verbatim>\<open>transition_to\<close> raises the
  observer's exception.
\<close>

theorem transition_to_swallows_counterexample:
  "fst (transition_to INITIALIZING ''start''
          (set_state_change_callback failing_observer StateMachine_init,
           ConnectionManager_init ''t0'')) = Inl (RuntimeError ''observer failed'')"
  by (simp add: transition_to_def set_state_change_callback_def StateMachine_init_def concrete_defs)

text \<open>
  C5 (as the code has it). \<^verbatim>\<open>disconnect\<close>, and the \<^verbatim>\<open>except\<close> clauses of the endpoint
  that call it, remove the connection only: the pending handle and every future are left
  as they were. The waiting task is not woken by a disconnect. A wait during which no
  answer of the session arrives within the timeout, whatever else arrives (a disconnect
  included), lasts the whole timeout: it returns None, its last log line is the timeout
  warning, and the task has waited the timeout. And an answer of the session that
  arrives within the timeout, after arrivals that are not such answers (a disconnect
  included), is what the wait returns, at the time the answer arrives.
\<close>

theorem disconnect_leaves_wait_pending:
  "pending_responses (disconnect client_id w) = pending_responses w \<and>
   futures (disconnect client_id w) = futures w \<and>
   pending_responses (endpoint_except client_id e w) = pending_responses w \<and>
   futures (endpoint_except client_id e w) = futures w \<and>
   (wf_world w \<and> (\<forall>x\<in>set arrivals. \<not> answers_in_time client_id timeout x) \<longrightarrow>
      fst (wait_for_user_response client_id timeout arrivals w) = Inr PNone \<and>
      last (logged (snd (wait_for_user_response client_id timeout arrivals w))) =
        (WARNING, ''Timeout waiting for user response from '' @ client_id) \<and>
      waited (snd (wait_for_user_response client_id timeout arrivals w)) =
        waited w + max 0 timeout) \<and>
   (wf_world w \<and> 0 < timeout \<and>
    (\<forall>x\<in>set pre. arrival_time x \<le> timeout \<and> \<not> answers_in_time client_id timeout x) \<and>
    t \<le> timeout \<and> py_get data ''type'' = Inr (PStr ''user_response'') \<and>
    py_get data ''data'' = Inr d \<longrightarrow>
      fst (wait_for_user_response client_id timeout
             (pre @ Arrival t websocket client_id (Message data) # rest) w) = Inr d \<and>
      waited (snd (wait_for_user_response client_id timeout
             (pre @ Arrival t websocket client_id (Message data) # rest) w)) = waited w + t)"
  using wait_times_out [of w arrivals client_id timeout] endpoint_except_keeps [of client_id e w]
    wait_answered [of w timeout pre client_id t data d websocket rest]
  by (simp add: disconnect_def logger_fields split: option.split)

theorem disconnect_leaves_wait_pending_witness:
  "wf_world (connect accepting_socket ''s1'' (ConnectionManager_init ''t0'')) \<and>
   \<not> answers_in_time ''s1'' 300 (Arrival 1 accepting_socket ''s1'' (Raised WebSocketDisconnect)) \<and>
   fst (wait_for_user_response ''s1'' 300
          [Arrival 1 accepting_socket ''s1'' (Raised WebSocketDisconnect)]
          (connect accepting_socket ''s1'' (ConnectionManager_init ''t0''))) = Inr PNone \<and>
   waited (snd (wait_for_user_response ''s1'' 300
          [Arrival 1 accepting_socket ''s1'' (Raised WebSocketDisconnect)]
          (connect accepting_socket ''s1'' (ConnectionManager_init ''t0'')))) = 300 \<and>
   fst (wait_for_user_response ''s1'' 300
          ([Arrival 1 accepting_socket ''s1'' (Raised WebSocketDisconnect)] @
           Arrival 299 accepting_socket ''s1'' (Message answer_message) # [])
          (connect accepting_socket ''s1'' (ConnectionManager_init ''t0''))) =
     Inr (PDict [(''action'', PStr ''select_court''),
                 (''selected_court'', PStr ''District of Nevada'')]) \<and>
   waited (snd (wait_for_user_response ''s1'' 300
          ([Arrival 1 accepting_socket ''s1'' (Raised WebSocketDisconnect)] @
           Arrival 299 accepting_socket ''s1'' (Message answer_message) # [])
          (connect accepting_socket ''s1'' (ConnectionManager_init ''t0'')))) = 299 \<and>
   futures (disconnect ''s1'' world_waiting) = futures world_waiting"
proof -
  let ?w = "connect accepting_socket ''s1'' (ConnectionManager_init ''t0'')"
  let ?x = "Arrival 1 accepting_socket ''s1'' (Raised WebSocketDisconnect)"
  let ?d = "PDict [(''action'', PStr ''select_court''),
                   (''selected_court'', PStr ''District of Nevada'')]"
  have a: "wf_world ?w \<and> (\<forall>x\<in>set [?x]. \<not> answers_in_time ''s1'' 300 x)"
    by (simp add: wf_world_def concrete_defs)
  have b: "wf_world ?w \<and> (0::real) < 300 \<and>
           (\<forall>x\<in>set [?x]. arrival_time x \<le> 300 \<and> \<not> answers_in_time ''s1'' 300 x) \<and>
           (299::real) \<le> 300 \<and> py_get answer_message ''type'' = Inr (PStr ''user_response'') \<and>
           py_get answer_message ''data'' = Inr ?d"
    by (simp add: wf_world_def concrete_defs)
  have z: "waited ?w = 0" by (simp add: concrete_defs)
  note T = disconnect_leaves_wait_pending [where client_id="''s1''" and w="?w" and e=undefined
      and arrivals="[?x]" and timeout=300 and pre="[?x]" and t=299 and data=answer_message
      and d="?d" and websocket=accepting_socket and rest="[]"]
  note U = disconnect_leaves_wait_pending [where client_id="''s1''" and w=world_waiting]
  from T[THEN conjunct2, THEN conjunct2, THEN conjunct2, THEN conjunct2, THEN conjunct1, THEN mp, OF a]
    T[THEN conjunct2, THEN conjunct2, THEN conjunct2, THEN conjunct2, THEN conjunct2, THEN mp, OF b]
    U[THEN conjunct2, THEN conjunct1] a
  show ?thesis by (simp add: z)
qed

text \<open>
  C5 as stated fails: session s1 is connected and waits on future 0; when its connection
  drops, the future is still pending and still registered, and the wait ends only by the
  timeout, with the timeout warning as its last log line.
\<close>

theorem disconnect_cancels_counterexample:
  "futures (snd (endpoint_step accepting_socket ''s1'' (Raised WebSocketDisconnect) world_waiting)) ! 0
     = Pending \<and>
   pending_responses
     (snd (endpoint_step accepting_socket ''s1'' (Raised WebSocketDisconnect) world_waiting)) ''s1''
     = Some 0 \<and>
   fst (wait_for_user_response ''s1'' 300
          [Arrival 1 accepting_socket ''s1'' (Raised WebSocketDisconnect)]
          (connect accepting_socket ''s1'' (ConnectionManager_init ''t0''))) = Inr PNone \<and>
   last (logged (snd (wait_for_user_response ''s1'' 300
          [Arrival 1 accepting_socket ''s1'' (Raised WebSocketDisconnect)]
          (connect accepting_socket ''s1'' (ConnectionManager_init ''t0''))))) =
     (WARNING, ''Timeout waiting for user response from s1'')"
  by (simp add: wait_for_user_response_def wait_for_def endpoint_step_def endpoint_except_def
        disconnect_def wait_finally_def concrete_defs)

text \<open>
  C6. From a machine as constructed or as reset, after any sequence of calls with no
  reset among them, the history is a chain: the previous_state recorded in entry i+1 is
  the state recorded in entry i, and the state of the last entry is the current state.
\<close>

theorem transition_log_chain:
  assumes "sm0 = StateMachine_init \<or> sm0 = fst (reset (sm', w'))"
  shows "(\<forall>i. Suc i < length (state_history (fst (run_ops ops (sm0, w)))) \<longrightarrow>
            h_previous_state (state_history (fst (run_ops ops (sm0, w))) ! Suc i) =
            Some (h_state (state_history (fst (run_ops ops (sm0, w))) ! i))) \<and>
         (state_history (fst (run_ops ops (sm0, w))) \<noteq> [] \<longrightarrow>
            h_state (last (state_history (fst (run_ops ops (sm0, w))))) =
            current_state (fst (run_ops ops (sm0, w))))"
proof -
  have "chained (state_history (fst (sm0, w))) (current_state (fst (sm0, w)))"
    using assms by (auto simp: chained_def StateMachine_init_def reset_def)
  from run_ops_chained[OF this, of ops] show ?thesis by (simp add: chained_def)
qed

theorem transition_log_chain_witness:
  "Suc 0 < length (state_history (fst (run_ops
      [TransitionTo INITIALIZING ''start'', TransitionTo LOGGING_IN ''login'']
      (StateMachine_init, ConnectionManager_init ''t0'')))) \<and>
   h_previous_state (state_history (fst (run_ops
      [TransitionTo INITIALIZING ''start'', TransitionTo LOGGING_IN ''login'']
      (StateMachine_init, ConnectionManager_init ''t0''))) ! Suc 0) = Some INITIALIZING \<and>
   current_state (fst (run_ops
      [TransitionTo INITIALIZING ''start'', TransitionTo LOGGING_IN ''login'']
      (StateMachine_init, ConnectionManager_init ''t0''))) = LOGGING_IN"
  using transition_log_chain [of StateMachine_init undefined undefined
      "[TransitionTo INITIALIZING ''start'', TransitionTo LOGGING_IN ''login'']"
      "ConnectionManager_init ''t0''"]
  by (simp add: transition_to_def StateMachine_init_def concrete_defs)

text \<open>
  C8. When no answer of the session arrives within the 300 seconds of the decision wait,
  the court-selection handler has put the machine in the state awaiting the selection,
  has waited 300 seconds on a future of its own, which the timeout has cancelled, and
  returns the first element of the options list; the last two lines of the log are the
  timeout warning of the wait and the timeout warning of the handler. (The observer is the
  one the scraper registers; the options list is not empty, which the caller has checked.)
\<close>

theorem court_selection_timeout_first_option:
  assumes "wf_world w"
      and "on_state_change sm = Some (scraper_on_state_change client_id)"
      and "all_options co \<noteq> []"
      and "\<forall>x\<in>set arrivals. \<not> answers_in_time client_id 300 x"
  shows "fst (handle_court_selection client_id user_input co arrivals (sm, w)) =
           Inr (PStr (hd (all_options co))) \<and>
         waited (snd (snd (handle_court_selection client_id user_input co arrivals (sm, w)))) =
           waited w + 300 \<and>
         current_state (fst (snd (handle_court_selection client_id user_input co arrivals (sm, w)))) =
           AWAITING_COURT_SELECTION \<and>
         length (futures (snd (snd (handle_court_selection client_id user_input co arrivals (sm, w))))) =
           Suc (length (futures w)) \<and>
         futures (snd (snd (handle_court_selection client_id user_input co arrivals (sm, w)))) !
           length (futures w) = Cancelled \<and>
         last (butlast (logged (snd (snd (handle_court_selection client_id user_input co arrivals (sm, w)))))) =
           (WARNING, ''Timeout waiting for user response from '' @ client_id) \<and>
         last (logged (snd (snd (handle_court_selection client_id user_input co arrivals (sm, w))))) =
           (WARNING, ''Court selection timeout, using first option'')"
proof -
  let ?t = "transition_to AWAITING_COURT_SELECTION ''Waiting for user to select court'' (sm, w)"
  let ?w1 = "snd (snd ?t)"
  let ?s = "send_court_selection client_id user_input (all_options co) (exact_matches co)
              (fuzzy_matches co) ?w1"
  let ?w2 = "snd ?s"
  let ?r = "wait_for_user_response client_id 300 arrivals ?w2"
  have t: "fst ?t = Inr ()" "futures ?w1 = futures w" "pending_responses ?w1 = pending_responses w"
    using transition_to_scraper[OF assms(2)] by simp_all
  have s: "fst ?s = Inr ()" "futures ?w2 = futures ?w1" "pending_responses ?w2 = pending_responses ?w1"
    using send_court_selection_keeps by simp_all
  have c: "waited ?w2 = waited w"
    using handler_prompt_waited[OF assms(2)] by simp
  have m: "current_state (fst (snd ?t)) = AWAITING_COURT_SELECTION"
    by (simp add: transition_to_machine)
  have "wf_world ?w2" using assms(1) t s by (simp add: wf_world_def)
  from wait_times_out[OF this assms(4)]
  have r: "fst ?r = Inr PNone"
    "last (logged (snd ?r)) = (WARNING, ''Timeout waiting for user response from '' @ client_id)"
    "waited (snd ?r) = waited w + 300"
    "futures (snd ?r) ! length (futures w) = Cancelled"
    using c t(2) s(2) by simp_all
  have l: "length (futures (snd ?r)) = Suc (length (futures w))"
    using wait_frame[of client_id 300 arrivals ?w2] t(2) s(2) by simp
  have f: "first_option (all_options co) = Inr (PStr (hd (all_options co)))"
    using assms(3) by (cases "all_options co") (simp_all add: first_option_def)
  have h: "handle_court_selection client_id user_input co arrivals (sm, w) =
             (Inr (PStr (hd (all_options co))), fst (snd ?t),
              logger WARNING ''Court selection timeout, using first option'' (snd ?r))"
    using t(1) s(1) r(1) f
    by (simp add: handle_court_selection_def case_prod_beta split: sum.split)
  show ?thesis using r(2,3,4) l m by (simp add: h logger_fields)
qed

theorem court_selection_timeout_first_option_witness:
  "fst (handle_court_selection ''s1'' ''Nevada''
          \<lparr>all_options = [''District of Nevada'', ''Nevada Supreme Court''],
           exact_matches = [], fuzzy_matches = [''District of Nevada'']\<rparr>
          [Arrival 301 accepting_socket ''s1'' (Message answer_message)]
          (set_state_change_callback (scraper_on_state_change ''s1'') StateMachine_init,
           connect accepting_socket ''s1'' (ConnectionManager_init ''t0''))) =
     Inr (PStr ''District of Nevada'') \<and>
   waited (snd (snd (handle_court_selection ''s1'' ''Nevada''
          \<lparr>all_options = [''District of Nevada'', ''Nevada Supreme Court''],
           exact_matches = [], fuzzy_matches = [''District of Nevada'']\<rparr>
          [Arrival 301 accepting_socket ''s1'' (Message answer_message)]
          (set_state_change_callback (scraper_on_state_change ''s1'') StateMachine_init,
           connect accepting_socket ''s1'' (ConnectionManager_init ''t0''))))) = 300 \<and>
   futures (snd (snd (handle_court_selection ''s1'' ''Nevada''
          \<lparr>all_options = [''District of Nevada'', ''Nevada Supreme Court''],
           exact_matches = [], fuzzy_matches = [''District of Nevada'']\<rparr>
          [Arrival 301 accepting_socket ''s1'' (Message answer_message)]
          (set_state_change_callback (scraper_on_state_change ''s1'') StateMachine_init,
           connect accepting_socket ''s1'' (ConnectionManager_init ''t0''))))) ! 0 = Cancelled"
proof -
  have h1: "wf_world (connect accepting_socket ''s1'' (ConnectionManager_init ''t0''))"
    by (simp add: wf_world_def concrete_defs)
  have h2: "on_state_change (set_state_change_callback (scraper_on_state_change ''s1'') StateMachine_init) =
              Some (scraper_on_state_change ''s1'')"
    by (simp add: set_state_change_callback_def)
  have h3: "all_options \<lparr>all_options = [''District of Nevada'', ''Nevada Supreme Court''],
              exact_matches = [], fuzzy_matches = [''District of Nevada'']\<rparr> \<noteq> []"
    by simp
  have h4: "\<forall>x\<in>set [Arrival 301 accepting_socket ''s1'' (Message answer_message)].
              \<not> answers_in_time ''s1'' 300 x"
    by simp
  have z: "waited (connect accepting_socket ''s1'' (ConnectionManager_init ''t0'')) = 0"
          "length (futures (connect accepting_socket ''s1'' (ConnectionManager_init ''t0''))) = 0"
    by (simp_all add: concrete_defs)
  show ?thesis
    using court_selection_timeout_first_option [OF h1 h2 h3 h4, of "''Nevada''"] by (simp add: z)
qed

text \<open>
  C10. \<^verbatim>\<open>send_event\<close> never raises. Without an active connection for the client it
  changes nothing; when turning the event into a dict fails, or the websocket's send
  fails, the exception is caught and the only effect is the error line in the log.
\<close>

theorem send_event_never_raises:
  "fst (send_event client_id ev w) = Inr () \<and>
   (active_connections w client_id = None \<longrightarrow> snd (send_event client_id ev w) = w) \<and>
   (\<forall>websocket e. active_connections w client_id = Some websocket \<and> event_to_dict ev = Inl e \<longrightarrow>
      snd (send_event client_id ev w) =
        logger ERROR (''Error sending event to '' @ client_id @ '': '' @ str_exn e) w) \<and>
   (\<forall>websocket d e. active_connections w client_id = Some websocket \<and> event_to_dict ev = Inr d \<and>
        websocket (serialize_datetime (PDict d)) = Some e \<longrightarrow>
      snd (send_event client_id ev w) =
        logger ERROR (''Error sending event to '' @ client_id @ '': '' @ str_exn e) w)"
  by (simp add: send_event_def send_event_try_def Let_def split: option.split prod.split sum.split)

theorem send_event_never_raises_witness:
  "active_connections (ConnectionManager_init ''t0'') ''s1'' = None \<and>
   send_event ''s1'' OpaqueEvent (ConnectionManager_init ''t0'') =
     (Inr (), ConnectionManager_init ''t0'') \<and>
   active_connections (connect closed_socket ''s1'' (ConnectionManager_init ''t0'')) ''s1'' =
     Some closed_socket \<and>
   event_to_dict OpaqueEvent = Inl AttributeError \<and>
   send_event ''s1'' OpaqueEvent (connect closed_socket ''s1'' (ConnectionManager_init ''t0'')) =
     (Inr (), logger ERROR ''Error sending event to s1: object has no attribute''
                (connect closed_socket ''s1'' (ConnectionManager_init ''t0''))) \<and>
   event_to_dict (DictEvent [(''type'', PStr ''INFO'')]) = Inr [(''type'', PStr ''INFO'')] \<and>
   closed_socket (serialize_datetime (PDict [(''type'', PStr ''INFO'')])) =
     Some (RuntimeError ''Cannot call send once a close message has been sent'') \<and>
   send_event ''s1'' (DictEvent [(''type'', PStr ''INFO'')])
       (connect closed_socket ''s1'' (ConnectionManager_init ''t0'')) =
     (Inr (), logger ERROR
                ''Error sending event to s1: Cannot call send once a close message has been sent''
                (connect closed_socket ''s1'' (ConnectionManager_init ''t0'')))"
proof -
  have h: "active_connections (ConnectionManager_init ''t0'') ''s1'' = None"
          "active_connections (connect closed_socket ''s1'' (ConnectionManager_init ''t0'')) ''s1'' =
             Some closed_socket"
          "event_to_dict OpaqueEvent = Inl AttributeError"
          "event_to_dict (DictEvent [(''type'', PStr ''INFO'')]) = Inr [(''type'', PStr ''INFO'')]"
          "closed_socket (serialize_datetime (PDict [(''type'', PStr ''INFO'')])) =
             Some (RuntimeError ''Cannot call send once a close message has been sent'')"
    by (simp_all add: ConnectionManager_init_def connect_def logger_def closed_socket_def)
  show ?thesis
    using h send_event_never_raises [of "''s1''" OpaqueEvent "ConnectionManager_init ''t0''"]
      send_event_never_raises [of "''s1''" OpaqueEvent
        "connect closed_socket ''s1'' (ConnectionManager_init ''t0'')"]
      send_event_never_raises [of "''s1''" "DictEvent [(''type'', PStr ''INFO'')]"
        "connect closed_socket ''s1'' (ConnectionManager_init ''t0'')"]
    by (simp add: prod_eq_iff)
qed

text \<open>
  C3 (as the code has it). With no download had from a PDF viewer, whatever
  \<^verbatim>\<open>click_view_document_and_download\<close> writes is written under the target path and
  starts with the PDF magic bytes (the interception checks the magic bytes and no size);
  if moreover no intercepted request captures, it returns None and writes nothing.
  \<^verbatim>\<open>download_pdf_from_url\<close> either returns None and writes nothing, or writes the body of
  a 200 response of at least 100 bytes that starts with the magic bytes or else does not
  start with \<open><\<close>.
\<close>

theorem capture_writes_checked:
  "(viewer_yields_nothing (popup_viewer env) \<and> viewer_yields_nothing (original_viewer env) \<longrightarrow>
      (files (snd (click_view_document_and_download dir cn dn env w)) = files w \<or>
       (\<exists>b. files (snd (click_view_document_and_download dir cn dn env w)) =
               (files w)(pdf_filepath dir cn dn \<mapsto> b) \<and> startswith b ''%PDF'')) \<and>
      ((\<forall>e\<in>set (race env). \<not> race_captures e) \<and>
       (\<forall>(url, fo)\<in>set (popup_requests env). \<not> captures url fo) \<longrightarrow>
         fst (click_view_document_and_download dir cn dn env w) = None \<and>
         files (snd (click_view_document_and_download dir cn dn env w)) = files w)) \<and>
   ((fst (download_pdf_from_url dir url cn dn http w) = None \<and>
     files (snd (download_pdf_from_url dir url cn dn http w)) = files w) \<or>
    (\<exists>content. http = HttpResponse 200 content \<and>
       fst (download_pdf_from_url dir url cn dn http w) = Some (pdf_filepath dir cn dn) \<and>
       files (snd (download_pdf_from_url dir url cn dn http w)) =
         (files w)(pdf_filepath dir cn dn \<mapsto> content) \<and>
       100 \<le> length content \<and>
       (startswith content ''%PDF'' \<or> \<not> startswith content ''<'')))"
proof -
  have a: "files (snd (click_view_document_and_download dir cn dn env w)) = files w \<or>
       (\<exists>b. files (snd (click_view_document_and_download dir cn dn env w)) =
               (files w)(pdf_filepath dir cn dn \<mapsto> b) \<and> startswith b ''%PDF'')"
    if "viewer_yields_nothing (popup_viewer env)" "viewer_yields_nothing (original_viewer env)"
    using after_wait_wrote[OF that, of dir cn dn w] by (simp add: wrote_pdf_def)
  have b: "fst (click_view_document_and_download dir cn dn env w) = None \<and>
           files (snd (click_view_document_and_download dir cn dn env w)) = files w"
    if "viewer_yields_nothing (popup_viewer env)" "viewer_yields_nothing (original_viewer env)"
       "\<forall>e\<in>set (race env). \<not> race_captures e"
       "\<forall>(url, fo)\<in>set (popup_requests env). \<not> captures url fo"
    by (rule nothing_captured[OF that])
  show ?thesis using a b download_pdf_from_url_cases[of dir url cn dn http w] by blast
qed

theorem capture_writes_checked_witness:
  "viewer_yields_nothing (popup_viewer popup_env) \<and>
   viewer_yields_nothing (original_viewer popup_env) \<and>
   \<not> race_captures NewPage \<and>
   fst (click_view_document_and_download ''/dl'' ''20-10001'' ''7'' popup_env
          (ConnectionManager_init ''t0'')) = None \<and>
   files (snd (click_view_document_and_download ''/dl'' ''20-10001'' ''7'' popup_env
          (ConnectionManager_init ''t0''))) = Map.empty"
proof -
  have h: "viewer_yields_nothing (popup_viewer popup_env) \<and>
           viewer_yields_nothing (original_viewer popup_env) \<and>
           (\<forall>e\<in>set (race popup_env). \<not> race_captures e) \<and>
           (\<forall>(url, fo)\<in>set (popup_requests popup_env). \<not> captures url fo)"
    by (simp add: popup_env_def quiet_viewer_def viewer_yields_nothing_def)
  show ?thesis
    using h capture_writes_checked [of popup_env "''/dl''" "''20-10001''" "''7''"
        "ConnectionManager_init ''t0''" undefined "HttpFailed TimeoutError"]
    by (simp add: ConnectionManager_init_def)
qed

text \<open>
  C3 as stated fails. The interception writes the four bytes \<open>%PDF\<close>, which are less than
  the 100 bytes of the size check; and \<^verbatim>\<open>download_pdf_from_url\<close> writes 100 bytes that do not
  start with the magic bytes.
\<close>

theorem capture_validated_counterexample:
  "files (snd (click_view_document_and_download ''/dl'' ''20-10001'' ''7'' short_pdf_env
          (ConnectionManager_init ''t0''))) ''/dl/20-10001_7.pdf'' = Some ''%PDF'' \<and>
   length ''%PDF'' < (100::nat) \<and>
   files (snd (download_pdf_from_url ''/dl'' ''https://ecf.nvb.uscourts.gov/cgi-bin/show_temp.pl''
          ''20-10001'' ''7'' plain_text_response (ConnectionManager_init ''t0'')))
       ''/dl/20-10001_7.pdf'' = Some (replicate 100 CHR ''A'') \<and>
   \<not> startswith (replicate 100 CHR ''A'') ''%PDF''"
  by (simp add: capture_defs short_pdf_env_def plain_text_response_def download_pdf_from_url_def
        concrete_defs)

text \<open>
  C7 (as the code has it). Among the browser calls of one run, the click, when it is
  made, is the fifth: the selector wait, the page listener, the route on the context and
  the blocking of \<^verbatim>\<open>window.close\<close> come before it. The route on the popup is set only
  after the click, and only when a new page has reached the listener.
\<close>

theorem arming_order:
  "\<exists>tr. browser (snd (click_view_document_and_download dir cn dn env w)) = browser w @ tr \<and>
     (ClickViewDocument \<in> set tr \<longrightarrow>
        take 5 tr = [WaitForSelector, ListenPage, RouteContext, BlockWindowClose, ClickViewDocument]) \<and>
     (RoutePopup \<in> set tr \<longrightarrow>
        (\<exists>post. tr = [WaitForSelector, ListenPage, RouteContext, BlockWindowClose, ClickViewDocument] @ post) \<and>
        NewPage \<in> set (race env))"
proof (cases "selector_visible env")
  case (Some e)
  then have "browser (snd (click_view_document_and_download dir cn dn env w)) = browser w @ []"
    by (simp add: click_view_document_and_download_def Let_def click_except_def logger_fields)
  then show ?thesis by (intro exI[of _ "[]"]) simp
next
  case None
  let ?p = "pdf_filepath dir cn dn"
  let ?wa = "act ListenPage (act WaitForSelector
               (logger INFO ''Preparing to click View Document (with PDF interception)...'' w))"
  let ?cw = "click_and_wait env ?wa"
  let ?w2 = "click_finally env (snd ?cw)"
  let ?res = "snd (click_view_document_and_download dir cn dn env w)"
  have wa: "browser ?wa = browser w @ [WaitForSelector, ListenPage]"
    by (simp add: act_fields logger_fields)
  show ?thesis
  proof (cases "fst ?cw")
    case (Inl e)
    with click_and_wait_cases[of env ?wa]
    have "extends {RouteContext, BlockWindowClose} ?wa (snd ?cw)" by auto
    then have "extends {RouteContext, BlockWindowClose, RemovePageListener, UnrouteContext} ?wa (snd ?cw)"
      by (rule extends_mono) auto
    then have "extends {RouteContext, BlockWindowClose, RemovePageListener, UnrouteContext} ?wa ?w2"
      by (rule extends_finally) simp
    moreover have "?res = click_except e ?w2"
      using None Inl by (simp add: click_view_document_and_download_def Let_def case_prod_beta)
    ultimately obtain tr1 where tr1: "browser ?res = browser ?wa @ tr1"
        "set tr1 \<subseteq> {RouteContext, BlockWindowClose, RemovePageListener, UnrouteContext}"
      by (auto simp add: extends_def click_except_def logger_fields)
    have "browser ?res = browser w @ ([WaitForSelector, ListenPage] @ tr1)"
      using tr1(1) wa by simp
    moreover have "ClickViewDocument \<notin> set ([WaitForSelector, ListenPage] @ tr1)"
                  "RoutePopup \<notin> set ([WaitForSelector, ListenPage] @ tr1)"
      using tr1(2) by auto
    ultimately show ?thesis by blast
  next
    case (Inr cn')
    obtain c np where cn': "cn' = (c, np)" by (cases cn')
    from click_and_wait_cases[of env ?wa] Inr cn'
    have b: "browser (snd ?cw) = browser ?wa @ [RouteContext, BlockWindowClose, ClickViewDocument]"
      and np: "np \<longleftrightarrow> NewPage \<in> set (race env)" by auto
    let ?S = "{RemovePageListener, UnrouteContext, RoutePopup, WaitPopupLoad, UnroutePopup, SaveDownload}"
    let ?T = "{RemovePageListener, UnrouteContext, SaveDownload}"
    have 2: "extends ?S (snd ?cw) ?w2"
      by (rule extends_finally[OF extends_refl]) simp
    have pop: "extends ?S (snd ?cw) (snd (popup_stage ?p env c ?w2))"
      by (rule popup_trace[OF 2]) simp
    have 3: "extends ?T (snd ?cw) ?w2"
      by (rule extends_finally[OF extends_refl]) simp
    have small: "extends ?T (snd ?cw) ?res" if "\<not> np"
      using that None Inr cn' 3 extends_original[OF 3, of ?p env]
      by (simp add: click_view_document_and_download_def Let_def case_prod_beta
            extends_logger extends_write)
    have "extends ?S (snd ?cw) ?res"
      using None Inr cn' 2 pop extends_original[OF 2, of ?p env]
        extends_original[OF pop, of ?p env]
      by (simp add: click_view_document_and_download_def Let_def case_prod_beta
            extends_logger extends_write split: option.split)
    then obtain post where post: "browser ?res = browser (snd ?cw) @ post"
      by (auto simp add: extends_def)
    let ?pre = "[WaitForSelector, ListenPage, RouteContext, BlockWindowClose, ClickViewDocument]"
    have "browser ?res = browser w @ (?pre @ post)"
      using post(1) b wa by simp
    moreover have "take 5 (?pre @ post) = ?pre" by simp
    moreover have "RoutePopup \<in> set (?pre @ post) \<longrightarrow> NewPage \<in> set (race env)"
    proof (cases np)
      case True
      then show ?thesis using np by simp
    next
      case False
      from small[OF this] obtain post' where "browser ?res = browser (snd ?cw) @ post'" "set post' \<subseteq> ?T"
        by (auto simp add: extends_def)
      with post(1) have "post = post'" "RoutePopup \<notin> set post'" by auto
      then show ?thesis by simp
    qed
    ultimately show ?thesis by blast
  qed
qed

theorem arming_order_witness:
  "take 5 (browser (snd (click_view_document_and_download ''/dl'' ''20-10001'' ''7'' popup_env
          (ConnectionManager_init ''t0'')))) =
     [WaitForSelector, ListenPage, RouteContext, BlockWindowClose, ClickViewDocument] \<and>
   RoutePopup \<in> set (browser (snd (click_view_document_and_download ''/dl'' ''20-10001'' ''7''
          popup_env (ConnectionManager_init ''t0'')))) \<and>
   NewPage \<in> set (race popup_env)"
  using arming_order [of "''/dl''" "''20-10001''" "''7''" popup_env "ConnectionManager_init ''t0''"]
  by (simp add: capture_defs popup_env_def concrete_defs)

text \<open>
  C7 as stated fails: when the click opens a popup and nothing has been captured, the
  route on the popup is armed after the click.
\<close>

theorem popup_armed_after_click_counterexample:
  "browser (snd (click_view_document_and_download ''/dl'' ''20-10001'' ''7'' popup_env
          (ConnectionManager_init ''t0''))) =
     [WaitForSelector, ListenPage, RouteContext, BlockWindowClose, ClickViewDocument,
      RemovePageListener, UnrouteContext, RoutePopup, WaitPopupLoad, UnroutePopup]"
  by (simp add: capture_defs popup_env_def concrete_defs)

text \<open>
  C9. When, after a document of a case that is not its last, the return to the results
  page fails with the recovery error, \<^verbatim>\<open>process_case\<close> does not raise: it returns the case
  with status failed and the recovery error as its last error, and the documents after
  that one are never processed (one download result has been recorded for each document
  up to it, none for the rest). The pass of the job's loop for that case ends normally,
  with the failed case recorded under its case number in the job's results. And
  \<^verbatim>\<open>run_scraping_job\<close>, whatever its cases meet, with the browser started, the login made,
  the case entry page reached before each later case and no case number listed twice,
  ends completed, having processed every case: the job it returns holds, under each case
  number of the list, later ones included, the result \<^verbatim>\<open>process_case\<close> gave for that case,
  and under the number of a case that met the recovery failure a case with status failed
  and the recovery error as its last error.
\<close>

theorem recovery_failure_fails_case_not_job:
  "(observed sw \<and> current_job (fst sw) = Some j \<and> submitted cenv \<and> results_loaded cenv \<and>
    found cenv = pre @ x # post \<and> post \<noteq> [] \<and> (\<forall>y\<in>set pre. nav_ok (back_nav (snd y))) \<and>
    recovery_fails (back_nav (snd x)) \<longrightarrow>
      status (fst (process_case cn cenv sw)) = ''failed'' \<and>
      last (errors (fst (process_case cn cenv sw))) = recovery_error cn (back_nav (snd x)) \<and>
      (\<exists>j'. current_job (fst (snd (process_case cn cenv sw))) = Some j' \<and>
            length (downloads j') = length (downloads j) + length pre + 1)) \<and>
   (observed sw \<and> current_job (fst sw) = Some j \<and>
    (idx > 0 \<longrightarrow> fst (case_envs jenv idx) = None) \<and>
    submitted (snd (case_envs jenv idx)) \<and> results_loaded (snd (case_envs jenv idx)) \<and>
    found (snd (case_envs jenv idx)) = pre @ x # post \<and> post \<noteq> [] \<and>
    (\<forall>y\<in>set pre. nav_ok (back_nav (snd y))) \<and> recovery_fails (back_nav (snd x)) \<longrightarrow>
      fst (case_step jenv idx n cn sw) = Inr () \<and>
      (\<exists>j' cr. current_job (fst (snd (case_step jenv idx n cn sw))) = Some j' \<and>
         case_results j' cn = Some cr \<and> status cr = ''failed'' \<and>
         last (errors cr) = recovery_error cn (back_nav (snd x)))) \<and>
   (observed sw \<and> initialized jenv = None \<and> logged_in jenv = Inr True \<and>
    (\<forall>i. 0 < i \<and> i < length (case_numbers job) \<longrightarrow> fst (case_envs jenv i) = None) \<and>
    distinct (case_numbers job) \<longrightarrow>
      (\<exists>job'. fst (run_scraping_job job jenv sw) = Inr (Some job') \<and>
          job_status job' = JOB_COMPLETED \<and>
          cases_processed job' = cases_processed job + length (case_numbers job) \<and>
          (\<forall>i<length (case_numbers job). \<exists>swi ji. observed swi \<and> current_job (fst swi) = Some ji \<and>
              case_results job' (case_numbers job ! i) =
                Some (fst (process_case (case_numbers job ! i) (snd (case_envs jenv i)) swi))) \<and>
          (k < length (case_numbers job) \<and>
           submitted (snd (case_envs jenv k)) \<and> results_loaded (snd (case_envs jenv k)) \<and>
           found (snd (case_envs jenv k)) = pre @ x # post \<and> post \<noteq> [] \<and>
           (\<forall>y\<in>set pre. nav_ok (back_nav (snd y))) \<and> recovery_fails (back_nav (snd x)) \<longrightarrow>
             (\<exists>cr. case_results job' (case_numbers job ! k) = Some cr \<and> status cr = ''failed'' \<and>
                last (errors cr) = recovery_error (case_numbers job ! k) (back_nav (snd x))))))"
proof (intro conjI impI)
  assume "observed sw \<and> current_job (fst sw) = Some j \<and> submitted cenv \<and> results_loaded cenv \<and>
    found cenv = pre @ x # post \<and> post \<noteq> [] \<and> (\<forall>y\<in>set pre. nav_ok (back_nav (snd y))) \<and>
    recovery_fails (back_nav (snd x))"
  with process_case_recovery_fails [of sw j cenv pre x post cn]
  show "status (fst (process_case cn cenv sw)) = ''failed''"
    and "last (errors (fst (process_case cn cenv sw))) = recovery_error cn (back_nav (snd x))"
    and "\<exists>j'. current_job (fst (snd (process_case cn cenv sw))) = Some j' \<and>
            length (downloads j') = length (downloads j) + length pre + 1"
    by blast+
next
  assume "observed sw \<and> current_job (fst sw) = Some j \<and>
    (idx > 0 \<longrightarrow> fst (case_envs jenv idx) = None) \<and>
    submitted (snd (case_envs jenv idx)) \<and> results_loaded (snd (case_envs jenv idx)) \<and>
    found (snd (case_envs jenv idx)) = pre @ x # post \<and> post \<noteq> [] \<and>
    (\<forall>y\<in>set pre. nav_ok (back_nav (snd y))) \<and> recovery_fails (back_nav (snd x))"
  with case_step_records_failure [of sw j idx jenv pre x post n cn]
  show "fst (case_step jenv idx n cn sw) = Inr ()"
    and "\<exists>j' cr. current_job (fst (snd (case_step jenv idx n cn sw))) = Some j' \<and>
         case_results j' cn = Some cr \<and> status cr = ''failed'' \<and>
         last (errors cr) = recovery_error cn (back_nav (snd x))"
    by blast+
next
  assume "observed sw \<and> initialized jenv = None \<and> logged_in jenv = Inr True \<and>
    (\<forall>i. 0 < i \<and> i < length (case_numbers job) \<longrightarrow> fst (case_envs jenv i) = None) \<and>
    distinct (case_numbers job)"
  then have h: "observed sw" "initialized jenv = None" "logged_in jenv = Inr True"
    "\<forall>i. 0 < i \<and> i < length (case_numbers job) \<longrightarrow> fst (case_envs jenv i) = None"
    "distinct (case_numbers job)"
    by simp_all
  show "\<exists>job'. fst (run_scraping_job job jenv sw) = Inr (Some job') \<and>
          job_status job' = JOB_COMPLETED \<and>
          cases_processed job' = cases_processed job + length (case_numbers job) \<and>
          (\<forall>i<length (case_numbers job). \<exists>swi ji. observed swi \<and> current_job (fst swi) = Some ji \<and>
              case_results job' (case_numbers job ! i) =
                Some (fst (process_case (case_numbers job ! i) (snd (case_envs jenv i)) swi))) \<and>
          (k < length (case_numbers job) \<and>
           submitted (snd (case_envs jenv k)) \<and> results_loaded (snd (case_envs jenv k)) \<and>
           found (snd (case_envs jenv k)) = pre @ x # post \<and> post \<noteq> [] \<and>
           (\<forall>y\<in>set pre. nav_ok (back_nav (snd y))) \<and> recovery_fails (back_nav (snd x)) \<longrightarrow>
             (\<exists>cr. case_results job' (case_numbers job ! k) = Some cr \<and> status cr = ''failed'' \<and>
                last (errors cr) = recovery_error (case_numbers job ! k) (back_nav (snd x))))"
    by (rule run_scraping_job_records_failure[OF h])
qed

theorem recovery_failure_fails_case_not_job_witness:
  "observed ((CMECFScraper_init ''s1'' ''/dl'')\<lparr>current_job := Some two_case_job\<rparr>,
             ConnectionManager_init ''t0'') \<and>
   recovery_fails (back_nav error_page_entry) \<and>
   status (fst (process_case ''20-10001'' failing_case
      ((CMECFScraper_init ''s1'' ''/dl'')\<lparr>current_job := Some two_case_job\<rparr>,
       ConnectionManager_init ''t0''))) = ''failed'' \<and>
   last (errors (fst (process_case ''20-10001'' failing_case
      ((CMECFScraper_init ''s1'' ''/dl'')\<lparr>current_job := Some two_case_job\<rparr>,
       ConnectionManager_init ''t0'')))) = ''Recovery failed: results page did not load for 20-10001'' \<and>
   (\<exists>j'. current_job (fst (snd (process_case ''20-10001'' failing_case
      ((CMECFScraper_init ''s1'' ''/dl'')\<lparr>current_job := Some two_case_job\<rparr>,
       ConnectionManager_init ''t0'')))) = Some j' \<and> length (downloads j') = 1) \<and>
   fst (case_step failing_job_env 0 2 ''20-10001''
      ((CMECFScraper_init ''s1'' ''/dl'')\<lparr>current_job := Some two_case_job\<rparr>,
       ConnectionManager_init ''t0'')) = Inr () \<and>
   (\<exists>job'. fst (run_scraping_job two_case_job failing_job_env
      ((CMECFScraper_init ''s1'' ''/dl'')\<lparr>current_job := Some two_case_job\<rparr>,
       ConnectionManager_init ''t0'')) = Inr (Some job') \<and>
      job_status job' = JOB_COMPLETED \<and> cases_processed job' = 2 \<and>
      (\<exists>cr. case_results job' ''20-10001'' = Some cr \<and> status cr = ''failed'' \<and>
         last (errors cr) = ''Recovery failed: results page did not load for 20-10001'') \<and>
      (\<exists>cr. case_results job' ''20-10002'' = Some cr \<and> status cr = ''completed''))"
proof -
  let ?sw = "((CMECFScraper_init ''s1'' ''/dl'')\<lparr>current_job := Some two_case_job\<rparr>,
              ConnectionManager_init ''t0'')"
  have h: "observed ?sw" "current_job (fst ?sw) = Some two_case_job"
    "submitted failing_case" "results_loaded failing_case"
    "found failing_case = [] @ (transcript_7, error_page_entry) # [(transcript_9, error_page_entry)]"
    "recovery_fails (back_nav (snd (transcript_7, error_page_entry)))"
    "initialized failing_job_env = None" "logged_in failing_job_env = Inr True"
    "\<forall>i. 0 < i \<and> i < length (case_numbers two_case_job) \<longrightarrow> fst (case_envs failing_job_env i) = None"
    "snd (case_envs failing_job_env 0) = failing_case"
    "snd (case_envs failing_job_env 1) = nothing_found_case"
    "distinct (case_numbers two_case_job)"
    by (simp_all add: observed_def CMECFScraper_init_def set_state_change_callback_def
          failing_case_def error_page_entry_def failing_nav_def recovery_fails_def
          failing_job_env_def two_case_job_def)
  note T = recovery_failure_fails_case_not_job [of ?sw two_case_job failing_case "[]"
        "(transcript_7, error_page_entry)" "[(transcript_9, error_page_entry)]" "''20-10001''"
        0 failing_job_env 2 two_case_job 0]
  have a: "observed ?sw \<and> current_job (fst ?sw) = Some two_case_job \<and> submitted failing_case \<and>
    results_loaded failing_case \<and>
    found failing_case = [] @ (transcript_7, error_page_entry) # [(transcript_9, error_page_entry)] \<and>
    [(transcript_9, error_page_entry)] \<noteq> [] \<and>
    (\<forall>y\<in>set []. nav_ok (back_nav (snd y))) \<and>
    recovery_fails (back_nav (snd (transcript_7, error_page_entry)))"
    using h by simp
  have c: "observed ?sw \<and> current_job (fst ?sw) = Some two_case_job \<and>
    (0 < (0::nat) \<longrightarrow> fst (case_envs failing_job_env 0) = None) \<and>
    submitted (snd (case_envs failing_job_env 0)) \<and> results_loaded (snd (case_envs failing_job_env 0)) \<and>
    found (snd (case_envs failing_job_env 0)) =
      [] @ (transcript_7, error_page_entry) # [(transcript_9, error_page_entry)] \<and>
    [(transcript_9, error_page_entry)] \<noteq> [] \<and>
    (\<forall>y\<in>set []. nav_ok (back_nav (snd y))) \<and>
    recovery_fails (back_nav (snd (transcript_7, error_page_entry)))"
    using h by simp
  have b: "observed ?sw \<and> initialized failing_job_env = None \<and> logged_in failing_job_env = Inr True \<and>
    (\<forall>i. 0 < i \<and> i < length (case_numbers two_case_job) \<longrightarrow> fst (case_envs failing_job_env i) = None) \<and>
    distinct (case_numbers two_case_job)"
    using h by simp
  have r: "recovery_error ''20-10001'' (back_nav (snd (transcript_7, error_page_entry))) =
             ''Recovery failed: results page did not load for 20-10001''"
    by (simp add: recovery_error_def error_page_entry_def failing_nav_def)
  have n: "length (downloads two_case_job) + length ([] :: (TranscriptMatch \<times> entry_env) list) + 1 = 1"
          "cases_processed two_case_job + length (case_numbers two_case_job) = 2"
    by (simp_all add: two_case_job_def)
  note R = T[THEN conjunct2, THEN conjunct2, THEN mp, OF b]
  from R obtain job' where j0:
      "fst (run_scraping_job two_case_job failing_job_env ?sw) = Inr (Some job') \<and>
       job_status job' = JOB_COMPLETED \<and>
       cases_processed job' = cases_processed two_case_job + length (case_numbers two_case_job) \<and>
       (\<forall>i<length (case_numbers two_case_job). \<exists>swi ji. observed swi \<and> current_job (fst swi) = Some ji \<and>
          case_results job' (case_numbers two_case_job ! i) =
            Some (fst (process_case (case_numbers two_case_job ! i) (snd (case_envs failing_job_env i)) swi))) \<and>
       ((0::nat) < length (case_numbers two_case_job) \<and>
           submitted (snd (case_envs failing_job_env 0)) \<and> results_loaded (snd (case_envs failing_job_env 0)) \<and>
           found (snd (case_envs failing_job_env 0)) =
             [] @ (transcript_7, error_page_entry) # [(transcript_9, error_page_entry)] \<and>
           [(transcript_9, error_page_entry)] \<noteq> [] \<and>
           (\<forall>y\<in>set ([] :: (TranscriptMatch \<times> entry_env) list). nav_ok (back_nav (snd y))) \<and>
           recovery_fails (back_nav (snd (transcript_7, error_page_entry))) \<longrightarrow>
             (\<exists>cr. case_results job' (case_numbers two_case_job ! 0) = Some cr \<and> status cr = ''failed'' \<and>
                last (errors cr) =
                  recovery_error (case_numbers two_case_job ! 0) (back_nav (snd (transcript_7, error_page_entry)))))"
    by (elim exE) (rule that)
  note j = j0[THEN conjunct1] j0[THEN conjunct2, THEN conjunct1]
    j0[THEN conjunct2, THEN conjunct2, THEN conjunct1]
    j0[THEN conjunct2, THEN conjunct2, THEN conjunct2, THEN conjunct1]
    j0[THEN conjunct2, THEN conjunct2, THEN conjunct2, THEN conjunct2]
  have l: "(0::nat) < length (case_numbers two_case_job)" "(1::nat) < length (case_numbers two_case_job)"
    "case_numbers two_case_job ! 0 = ''20-10001''" "case_numbers two_case_job ! 1 = ''20-10002''"
    by (simp_all add: two_case_job_def)
  have c0: "(0::nat) < length (case_numbers two_case_job) \<and>
           submitted (snd (case_envs failing_job_env 0)) \<and> results_loaded (snd (case_envs failing_job_env 0)) \<and>
           found (snd (case_envs failing_job_env 0)) =
             [] @ (transcript_7, error_page_entry) # [(transcript_9, error_page_entry)] \<and>
           [(transcript_9, error_page_entry)] \<noteq> [] \<and>
           (\<forall>y\<in>set ([] :: (TranscriptMatch \<times> entry_env) list). nav_ok (back_nav (snd y))) \<and>
           recovery_fails (back_nav (snd (transcript_7, error_page_entry)))"
    using c l(1) by simp
  have k0: "\<exists>cr. case_results job' ''20-10001'' = Some cr \<and> status cr = ''failed'' \<and>
              last (errors cr) = ''Recovery failed: results page did not load for 20-10001''"
    using j(5)[THEN mp, OF c0] unfolding l(3) r .
  from j(4)[THEN spec, of 1, THEN mp, OF l(2)]
  obtain sw2 j2 where k: "observed sw2 \<and> current_job (fst sw2) = Some j2 \<and>
      case_results job' (case_numbers two_case_job ! 1) =
        Some (fst (process_case (case_numbers two_case_job ! 1) (snd (case_envs failing_job_env 1)) sw2))"
    by (elim exE) (rule that)
  have k2: "case_results job' ''20-10002'' = Some (fst (process_case ''20-10002'' nothing_found_case sw2))"
    using k[THEN conjunct2, THEN conjunct2] unfolding l(4) h(11) .
  have nf: "submitted nothing_found_case" "results_loaded nothing_found_case"
    "found nothing_found_case = []"
    by (simp_all add: nothing_found_case_def)
  have k1: "\<exists>cr. case_results job' ''20-10002'' = Some cr \<and> status cr = ''completed''"
    using k2 process_case_nothing_found[OF k[THEN conjunct1] nf, of "''20-10002''"]
    by simp
  have J: "\<exists>job'. fst (run_scraping_job two_case_job failing_job_env ?sw) = Inr (Some job') \<and>
      job_status job' = JOB_COMPLETED \<and> cases_processed job' = 2 \<and>
      (\<exists>cr. case_results job' ''20-10001'' = Some cr \<and> status cr = ''failed'' \<and>
         last (errors cr) = ''Recovery failed: results page did not load for 20-10001'') \<and>
      (\<exists>cr. case_results job' ''20-10002'' = Some cr \<and> status cr = ''completed'')"
    using j(1,2) j(3)[unfolded n(2)] k0 k1 by (intro exI[of _ job'] conjI)
  from T[THEN conjunct1, THEN mp, OF a] T[THEN conjunct2, THEN conjunct1, THEN mp, OF c] h(1,6) J
  show ?thesis unfolding r n by simp
qed

end
